(* ===== verification/Prelude.thy ===== *)
theory Prelude
  imports Main "HOL-Library.Word" "HOL-Library.Char_ord" "HOL-Library.List_Lexorder"
    "HOL-Library.Sublist" "HOL-Library.Code_Target_Nat"
begin

text \<open>
  What every component shares: the machine integers and byte strings of the model, decimal
  rendering for messages, and generic facts on lists that the component proofs use.

  The target is a 64-bit platform, where \<open>usize\<close> and \<open>u64\<close> have the same range. Both are
  modelled by \<open>nat\<close>; arithmetic that the source writes with a plain \<open>+\<close> is \<open>u64_add\<close>, which wraps
  at \<open>2 ^ 64\<close> as a release build does, and the \<open>checked_\<close> and \<open>saturating_\<close> operations are written
  out. A \<open>str\<close> or a key is a HOL \<open>string\<close>: a HOL character is one byte, so a string is the byte
  sequence of the Rust string. File contents are lists of \<open>8 word\<close>.
\<close>

section \<open>Machine integers and bytes\<close>

named_theorems u64_simps \<open>unfolding of the machine arithmetic\<close>

type_synonym u64 = nat
type_synonym usize = nat
type_synonym byte = "8 word"
type_synonym bytes = "byte list"
type_synonym path = string
type_synonym key = string

definition u64_size :: nat where
  "u64_size = 2 ^ 64"

definition u64_add :: "u64 \<Rightarrow> u64 \<Rightarrow> u64" where
  "u64_add a b = (a + b) mod u64_size"

definition checked_add :: "u64 \<Rightarrow> u64 \<Rightarrow> u64 option" where
  "checked_add a b = (if a + b < u64_size then Some (a + b) else None)"

definition saturating_add :: "u64 \<Rightarrow> u64 \<Rightarrow> u64" where
  "saturating_add a b = min (a + b) (u64_size - 1)"

definition saturating_sub :: "u64 \<Rightarrow> u64 \<Rightarrow> u64" where
  "saturating_sub a b = a - b"

definition saturating_mul :: "u64 \<Rightarrow> u64 \<Rightarrow> u64" where
  "saturating_mul a b = min (a * b) (u64_size - 1)"

text \<open>\<open>usize::try_from\<close> of an unsigned value, on the 64-bit target.\<close>

definition usize_try_from :: "nat \<Rightarrow> usize option" where
  "usize_try_from n = (if n < u64_size then Some n else None)"

text \<open>The value itself, for evaluation.\<close>

lemma u64_size_code [code]: "u64_size = 18446744073709551616"
  by (simp add: u64_size_def)

lemma u64_size_pos [simp]: "0 < u64_size"
  by (simp add: u64_size_def)

lemma u64_add_exact [u64_simps]: "a + b < u64_size \<Longrightarrow> u64_add a b = a + b"
  by (simp add: u64_add_def)

lemma u64_add_bound [simp]: "u64_add a b < u64_size"
  by (simp add: u64_add_def)

lemma checked_add_eq_Some [u64_simps]:
  "checked_add a b = Some c \<longleftrightarrow> c = a + b \<and> a + b < u64_size"
  by (auto simp: checked_add_def)

lemma checked_add_eq_None [u64_simps]: "checked_add a b = None \<longleftrightarrow> u64_size \<le> a + b"
  by (auto simp: checked_add_def)

lemma unat_of_nat_byte: "n < 256 \<Longrightarrow> unat (of_nat n :: byte) = n"
  by (simp add: unat_of_nat)

section \<open>Decimal rendering\<close>

fun show_nat :: "nat \<Rightarrow> string" where
  "show_nat n =
     (if n < 10 then [char_of (48 + n)]
      else show_nat (n div 10) @ [char_of (48 + n mod 10)])"

declare show_nat.simps [simp del]

section \<open>Lists\<close>

text \<open>Overwriting the bytes of \<open>xs\<close> from position \<open>i\<close> on: what \<open>copy_from_slice\<close> into
  \<open>xs[i .. i + length ys]\<close> leaves behind when the range lies inside \<open>xs\<close>.\<close>

definition overwrite :: "'a list \<Rightarrow> nat \<Rightarrow> 'a list \<Rightarrow> 'a list" where
  "overwrite xs i ys = take i xs @ ys @ drop (i + length ys) xs"

lemma length_overwrite [simp]:
  "i + length ys \<le> length xs \<Longrightarrow> length (overwrite xs i ys) = length xs"
  by (simp add: overwrite_def)

lemma nth_overwrite:
  assumes "i + length ys \<le> length xs" and "j < length xs"
  shows "overwrite xs i ys ! j = (if i \<le> j \<and> j < i + length ys then ys ! (j - i) else xs ! j)"
  using assms by (auto simp: overwrite_def nth_append min_def)

lemma overwrite_Nil [simp]: "overwrite xs i [] = xs"
  by (simp add: overwrite_def)

text \<open>\<open>Vec::resize(n, z)\<close>.\<close>

definition resize :: "'a list \<Rightarrow> nat \<Rightarrow> 'a \<Rightarrow> 'a list" where
  "resize xs n z = (if n \<le> length xs then take n xs else xs @ replicate (n - length xs) z)"

lemma length_resize [simp]: "length (resize xs n z) = n"
  by (simp add: resize_def)

lemma nth_resize: "j < n \<Longrightarrow> resize xs n z ! j = (if j < length xs then xs ! j else z)"
  by (auto simp: resize_def nth_append)

text \<open>The byte at an offset of a chunk, zero past its end.\<close>

definition byte_or_zero :: "bytes \<Rightarrow> nat \<Rightarrow> byte" where
  "byte_or_zero xs i = (if i < length xs then xs ! i else 0)"

lemma byte_or_zero_simps [simp]:
  "byte_or_zero [] i = 0"
  "i < length xs \<Longrightarrow> byte_or_zero xs i = xs ! i"
  "length xs \<le> i \<Longrightarrow> byte_or_zero xs i = 0"
  by (auto simp: byte_or_zero_def)

lemma byte_or_zero_take: "byte_or_zero (take n xs) i = (if i < n then byte_or_zero xs i else 0)"
  by (auto simp: byte_or_zero_def)

lemma byte_or_zero_replicate [simp]: "byte_or_zero (replicate n 0) i = 0"
  by (auto simp: byte_or_zero_def)

lemma byte_or_zero_resize: "length xs \<le> n \<Longrightarrow> byte_or_zero (resize xs n 0) i = byte_or_zero xs i"
  by (auto simp: byte_or_zero_def nth_resize)

lemma byte_or_zero_overwrite:
  "i + length ys \<le> length xs \<Longrightarrow>
   byte_or_zero (overwrite xs i ys) j =
     (if i \<le> j \<and> j < i + length ys then ys ! (j - i) else byte_or_zero xs j)"
  by (auto simp: byte_or_zero_def nth_overwrite)

section \<open>Lexicographic order on strings\<close>

lemma less_append_same [simp]: "(xs @ ys < xs @ zs) \<longleftrightarrow> ys < (zs :: 'a :: linorder list)"
  by (induction xs) auto

lemma le_append_same [simp]: "(xs @ ys \<le> xs @ zs) \<longleftrightarrow> ys \<le> (zs :: 'a :: linorder list)"
  by (induction xs) auto

lemma less_append_eq_length:
  fixes xs ys :: "'a :: linorder list"
  assumes "length xs = length ys"
  shows "(xs @ us < ys @ vs) \<longleftrightarrow> xs < ys \<or> (xs = ys \<and> us < vs)"
  using assms by (induction xs ys rule: list_induct2) auto

text \<open>A string between two strings with a common prefix has that prefix.\<close>

lemma prefix_between:
  fixes p k :: "'a :: linorder list"
  assumes "p @ xs \<le> k" and "k \<le> p @ ys"
  shows "prefix p k"
  using assms
proof (induction p arbitrary: k)
  case Nil
  then show ?case by simp
next
  case (Cons a p)
  then show ?case by (cases k) auto
qed

end
