(* ===== verification/Errors.thy ===== *)
theory Errors
  imports Prelude
begin

text \<open>
  The error values of the filesystem (\<open>rust/src/error.rs\<close>, \<open>rust/src/error_struct.rs\<close>) and the
  effects every operation of the model is written in: an operation returns \<open>Ok\<close>, an \<open>Err\<close> value or
  a Rust panic, and passes on the state it was given, changed as far as it got.

  An \<open>ErrorStruct\<close> keeps its message, status and the rendered text of its source. The call site that
  \<open>#[track_caller]\<close> captures is a compile-time text that only the rendering shows; it is an argument
  of \<open>display_error_struct\<close> instead of a field.
\<close>

section \<open>Error values\<close>

datatype error_status = Temporary | Permanent

definition display_status :: "error_status \<Rightarrow> string" where
  "display_status st = (case st of Temporary \<Rightarrow> ''temporary'' | Permanent \<Rightarrow> ''permanent'')"

record error_struct =
  message :: string
  status :: error_status
  source :: "string option"

definition error_struct_new :: "string \<Rightarrow> error_status \<Rightarrow> error_struct" where
  "error_struct_new msg st = \<lparr>message = msg, status = st, source = None\<rparr>"

datatype error =
    MetadataDecode error_struct
  | FileNotFound error_struct
  | FileAlreadyExists error_struct
  | ReadOnlyViolation error_struct
  | SlateDb error_struct
  | InvalidArgument error_struct
  | Io error_struct

datatype error_code =
    CodeMetadataDecode | CodeFileNotFound | CodeFileAlreadyExists | CodeReadOnlyViolation
  | CodeSlateDb | CodeInvalidArgument | CodeIo

text \<open>The discriminants of the C ABI, \<open>error.code() as i32\<close>.\<close>

definition error_code_i32 :: "error_code \<Rightarrow> int" where
  "error_code_i32 c = (case c of
     CodeMetadataDecode \<Rightarrow> 1 | CodeFileNotFound \<Rightarrow> 2 | CodeFileAlreadyExists \<Rightarrow> 3
   | CodeReadOnlyViolation \<Rightarrow> 4 | CodeSlateDb \<Rightarrow> 5 | CodeInvalidArgument \<Rightarrow> 6 | CodeIo \<Rightarrow> 7)"

definition code :: "error \<Rightarrow> error_code" where
  "code e = (case e of
     MetadataDecode _ \<Rightarrow> CodeMetadataDecode
   | FileNotFound _ \<Rightarrow> CodeFileNotFound
   | FileAlreadyExists _ \<Rightarrow> CodeFileAlreadyExists
   | ReadOnlyViolation _ \<Rightarrow> CodeReadOnlyViolation
   | SlateDb _ \<Rightarrow> CodeSlateDb
   | InvalidArgument _ \<Rightarrow> CodeInvalidArgument
   | Io _ \<Rightarrow> CodeIo)"

definition error_inner :: "error \<Rightarrow> error_struct" where
  "error_inner e = (case e of
     MetadataDecode i \<Rightarrow> i | FileNotFound i \<Rightarrow> i | FileAlreadyExists i \<Rightarrow> i
   | ReadOnlyViolation i \<Rightarrow> i | SlateDb i \<Rightarrow> i | InvalidArgument i \<Rightarrow> i | Io i \<Rightarrow> i)"

definition error_status_of :: "error \<Rightarrow> error_status" where
  "error_status_of e = status (error_inner e)"

section \<open>Outcomes\<close>

text \<open>\<open>Result<T>\<close>, with the panics a call can raise.\<close>

datatype 'a outcome = Ok 'a | Err error | Panic string

definition o_bind :: "'a outcome \<Rightarrow> ('a \<Rightarrow> 'b outcome) \<Rightarrow> 'b outcome" where
  "o_bind r f = (case r of Ok x \<Rightarrow> f x | Err e \<Rightarrow> Err e | Panic p \<Rightarrow> Panic p)"

lemma o_bind_simps [simp]:
  "o_bind (Ok x) f = f x"
  "o_bind (Err e) f = Err e"
  "o_bind (Panic p) f = Panic p"
  by (simp_all add: o_bind_def)

lemma o_bind_eq_Ok: "o_bind r f = Ok y \<longleftrightarrow> (\<exists>x. r = Ok x \<and> f x = Ok y)"
  by (cases r) simp_all

lemma o_bind_cong [fundef_cong]:
  "r = r' \<Longrightarrow> (\<And>x. r' = Ok x \<Longrightarrow> f x = g x) \<Longrightarrow> o_bind r f = o_bind r' g"
  by (cases r') simp_all

text \<open>Attaching a cause panics when one is set already.\<close>

definition with_source :: "error_struct \<Rightarrow> string \<Rightarrow> error_struct outcome" where
  "with_source e src =
     (if source e \<noteq> None then Panic ''the source error has been set''
      else Ok (e\<lparr>source := Some src\<rparr>))"

definition display_error_struct :: "string option \<Rightarrow> error_struct \<Rightarrow> string" where
  "display_error_struct location e =
     message e @ '' ('' @ display_status (status e) @ '')''
     @ (case location of None \<Rightarrow> '''' | Some l \<Rightarrow> '' at '' @ l)
     @ (case source e of None \<Rightarrow> '''' | Some src \<Rightarrow> '', caused by: '' @ src)"

section \<open>Constructors of the error values\<close>

definition metadata_decode :: "string \<Rightarrow> error" where
  "metadata_decode msg = MetadataDecode (error_struct_new msg Permanent)"

text \<open>The source is attached to a fresh structure, so \<open>with_source\<close> cannot panic here
  (\<open>with_source_new\<close>); the constructors write its result.\<close>

definition metadata_decode_with_source :: "string \<Rightarrow> string \<Rightarrow> error" where
  "metadata_decode_with_source msg src =
     MetadataDecode ((error_struct_new msg Permanent)\<lparr>source := Some src\<rparr>)"

definition file_not_found :: "path \<Rightarrow> error" where
  "file_not_found p = FileNotFound (error_struct_new (''file not found: '' @ p) Permanent)"

definition read_only_violation :: "string \<Rightarrow> error" where
  "read_only_violation msg = ReadOnlyViolation (error_struct_new msg Permanent)"

definition invalid_argument :: "string \<Rightarrow> error" where
  "invalid_argument msg = InvalidArgument (error_struct_new msg Permanent)"

definition io_with_source :: "string \<Rightarrow> string \<Rightarrow> error" where
  "io_with_source msg src = Io ((error_struct_new msg Permanent)\<lparr>source := Some src\<rparr>)"

text \<open>
  The error types of the libraries: SlateDB's \<open>ErrorKind\<close> is non-exhaustive, so every kind the
  source does not name is \<open>OtherKind\<close>; likewise \<open>std::io::ErrorKind\<close>. Their texts are opaque.
\<close>

datatype slatedb_error_kind = Unavailable | Transaction | Data | OtherKind string

record slatedb_error =
  kind :: slatedb_error_kind
  text_of :: string

datatype io_error_kind = Interrupted | WouldBlock | TimedOut | OtherIoKind string

definition from_decode_error :: "string \<Rightarrow> error" where
  "from_decode_error src =
     MetadataDecode ((error_struct_new ''metadata decode error'' Permanent)\<lparr>source := Some src\<rparr>)"

definition from_slatedb_error :: "slatedb_error \<Rightarrow> error" where
  "from_slatedb_error e =
     (let st = (case kind e of Unavailable \<Rightarrow> Temporary | Transaction \<Rightarrow> Temporary | _ \<Rightarrow> Permanent)
      in SlateDb ((error_struct_new ''slatedb error'' st)\<lparr>source := Some (text_of e)\<rparr>))"

definition from_io_error :: "io_error_kind \<Rightarrow> string \<Rightarrow> error" where
  "from_io_error k src =
     (let st = (case k of Interrupted \<Rightarrow> Temporary | WouldBlock \<Rightarrow> Temporary | TimedOut \<Rightarrow> Temporary
                | OtherIoKind _ \<Rightarrow> Permanent)
      in Io ((error_struct_new ''io error'' st)\<lparr>source := Some src\<rparr>))"

lemma with_source_new:
  "with_source (error_struct_new msg st) src = Ok ((error_struct_new msg st)\<lparr>source := Some src\<rparr>)"
  by (simp add: with_source_def error_struct_new_def)

section \<open>Stateful operations\<close>

type_synonym ('s, 'a) io = "'s \<Rightarrow> 'a outcome \<times> 's"

definition io_return :: "'a \<Rightarrow> ('s, 'a) io" where
  "io_return x s = (Ok x, s)"

definition io_lift :: "'a outcome \<Rightarrow> ('s, 'a) io" where
  "io_lift r s = (r, s)"

definition io_bind :: "('s, 'a) io \<Rightarrow> ('a \<Rightarrow> ('s, 'b) io) \<Rightarrow> ('s, 'b) io" where
  "io_bind m f s = (case m s of
     (Ok x, s') \<Rightarrow> f x s' | (Err e, s') \<Rightarrow> (Err e, s') | (Panic p, s') \<Rightarrow> (Panic p, s'))"

text \<open>An operation on one half of a paired state.\<close>

definition io_fst :: "('a, 'x) io \<Rightarrow> ('a \<times> 'b, 'x) io" where
  "io_fst m = (\<lambda>(a, b). case m a of (r, a') \<Rightarrow> (r, (a', b)))"

definition io_snd :: "('b, 'x) io \<Rightarrow> ('a \<times> 'b, 'x) io" where
  "io_snd m = (\<lambda>(a, b). case m b of (r, b') \<Rightarrow> (r, (a, b')))"

definition io_get :: "('s, 's) io" where
  "io_get s = (Ok s, s)"

definition io_put :: "'s \<Rightarrow> ('s, unit) io" where
  "io_put s' s = (Ok (), s')"

text \<open>A loop over a list that stops at the first failure.\<close>

fun io_mapM :: "('a \<Rightarrow> ('s, 'b) io) \<Rightarrow> 'a list \<Rightarrow> ('s, 'b list) io" where
  "io_mapM f [] = io_return []"
| "io_mapM f (x # xs) =
     io_bind (f x) (\<lambda>y. io_bind (io_mapM f xs) (\<lambda>ys. io_return (y # ys)))"

fun io_forM :: "'a list \<Rightarrow> ('a \<Rightarrow> ('s, unit) io) \<Rightarrow> ('s, unit) io" where
  "io_forM [] f = io_return ()"
| "io_forM (x # xs) f = io_bind (f x) (\<lambda>_. io_forM xs f)"

named_theorems io_simps \<open>computation rules of the stateful operations\<close>

lemma io_basic_simps [simp, io_simps]:
  "io_return x s = (Ok x, s)"
  "io_lift r s = (r, s)"
  "io_get s = (Ok s, s)"
  "io_put t s = (Ok (), t)"
  by (simp_all add: io_return_def io_lift_def io_get_def io_put_def)

lemma io_zoom_simps [simp, io_simps]:
  "io_fst m (a, b) = (fst (m a), (snd (m a), b))"
  "io_snd n (a, b) = (fst (n b), (a, snd (n b)))"
  by (simp_all add: io_fst_def io_snd_def split: prod.splits)

lemma io_bind_eq_Ok:
  "io_bind m f s = (Ok y, t) \<longleftrightarrow> (\<exists>x s'. m s = (Ok x, s') \<and> f x s' = (Ok y, t))"
  by (auto simp: io_bind_def split: prod.splits outcome.splits)

lemma io_bind_Ok [simp, io_simps]: "m s = (Ok x, s') \<Longrightarrow> io_bind m f s = f x s'"
  by (simp add: io_bind_def)

lemma io_bind_Err [simp, io_simps]: "m s = (Err e, s') \<Longrightarrow> io_bind m f s = (Err e, s')"
  by (simp add: io_bind_def)

lemma io_bind_Panic [simp, io_simps]: "m s = (Panic p, s') \<Longrightarrow> io_bind m f s = (Panic p, s')"
  by (simp add: io_bind_def)

text \<open>The laws of the monad, and the computation of its primitives in a composition.\<close>

lemma io_return_bind [simp]: "io_bind (io_return x) f = f x"
  by (simp add: fun_eq_iff io_bind_def)

lemma io_bind_return [simp]: "io_bind m io_return = m"
  by (auto simp: fun_eq_iff io_bind_def io_return_def split: prod.splits outcome.splits)

lemma io_bind_assoc: "io_bind (io_bind m f) g = io_bind m (\<lambda>x. io_bind (f x) g)"
  by (auto simp: fun_eq_iff io_bind_def split: prod.splits outcome.splits)

lemma io_bind_prims [simp, io_simps]:
  "io_bind io_get f s = f s s"
  "io_bind (io_put t) g s = g () t"
  "io_bind (io_lift (Ok x)) h s = h x s"
  "io_bind (io_lift (Err e)) h s = (Err e, s)"
  "io_bind (io_lift (Panic p)) h s = (Panic p, s)"
  by (simp_all add: io_bind_def)

text \<open>Case analysis of a sequential composition.\<close>

lemma io_bind_cases:
  assumes "io_bind m f s = (r, t)"
  obtains (ok) x s' where "m s = (Ok x, s')" and "f x s' = (r, t)"
  | (err) e where "m s = (Err e, t)" and "r = Err e"
  | (panic) p where "m s = (Panic p, t)" and "r = Panic p"
  using assms by (auto simp: io_bind_def split: prod.splits outcome.splits)

text \<open>
  A relation between the state before and after that every step of a composition keeps is kept by
  the composition: the frame rule of the model.
\<close>

definition io_keeps :: "('s \<Rightarrow> 'v) \<Rightarrow> ('s, 'a) io \<Rightarrow> bool" where
  "io_keeps v m \<longleftrightarrow> (\<forall>s. v (snd (m s)) = v s)"

named_theorems io_keeps_intros \<open>operations that leave a part of the state alone\<close>

lemma io_keepsD: "io_keeps v m \<Longrightarrow> m s = (r, s') \<Longrightarrow> v s' = v s"
  unfolding io_keeps_def by (metis snd_conv)

lemma io_keepsI: "(\<And>s r s'. m s = (r, s') \<Longrightarrow> v s' = v s) \<Longrightarrow> io_keeps v m"
  unfolding io_keeps_def by (metis prod.collapse)

lemma io_keeps_return [io_keeps_intros]: "io_keeps v (io_return x)"
  by (simp add: io_keeps_def)

lemma io_keeps_lift [io_keeps_intros]: "io_keeps v (io_lift r)"
  by (simp add: io_keeps_def)

lemma io_keeps_bind [io_keeps_intros]:
  "io_keeps v m \<Longrightarrow> (\<And>x. io_keeps v (f x)) \<Longrightarrow> io_keeps v (io_bind m f)"
  by (auto simp: io_keeps_def io_bind_def split: prod.splits outcome.splits) (metis snd_conv)+

lemma io_keeps_mapM [io_keeps_intros]: "(\<And>x. io_keeps v (f x)) \<Longrightarrow> io_keeps v (io_mapM f xs)"
  by (induction xs) (auto intro!: io_keeps_intros)

lemma io_keeps_forM [io_keeps_intros]: "(\<And>x. io_keeps v (f x)) \<Longrightarrow> io_keeps v (io_forM xs f)"
  by (induction xs) (auto intro!: io_keeps_intros)

lemma io_mapM_Ok_length: "io_mapM f xs s = (Ok ys, t) \<Longrightarrow> length ys = length xs"
  by (induction xs arbitrary: ys s) (auto simp: io_bind_eq_Ok)

text \<open>
  Postconditions: \<open>io_sat m s Q\<close> says that \<open>Q\<close> holds of the outcome and the final state of \<open>m\<close> from \<open>s\<close>.
  The rule for a composition splits off its first step.
\<close>

definition io_sat :: "('s, 'a) io \<Rightarrow> 's \<Rightarrow> ('a outcome \<Rightarrow> 's \<Rightarrow> bool) \<Rightarrow> bool" where
  "io_sat m s Q \<longleftrightarrow> (case m s of (r, s') \<Rightarrow> Q r s')"

lemma io_satD: "io_sat m s Q \<Longrightarrow> m s = (r, s') \<Longrightarrow> Q r s'"
  by (simp add: io_sat_def)

lemma io_satI: "(\<And>r s'. m s = (r, s') \<Longrightarrow> Q r s') \<Longrightarrow> io_sat m s Q"
  by (simp add: io_sat_def split: prod.split)

lemma io_sat_bind:
  assumes "io_sat m s R"
    and "\<And>x s'. R (Ok x) s' \<Longrightarrow> io_sat (f x) s' Q"
    and "\<And>e s'. R (Err e) s' \<Longrightarrow> Q (Err e) s'"
    and "\<And>p s'. R (Panic p) s' \<Longrightarrow> Q (Panic p) s'"
  shows "io_sat (io_bind m f) s Q"
proof (cases "m s")
  case (Pair r s')
  with assms(1) have "R r s'" by (simp add: io_sat_def)
  with Pair assms(2-4) show ?thesis by (cases r) (auto simp: io_sat_def)
qed

lemma io_sat_mono: "io_sat m s R \<Longrightarrow> (\<And>r s'. R r s' \<Longrightarrow> Q r s') \<Longrightarrow> io_sat m s Q"
  by (auto simp: io_sat_def)

lemma io_sat_prims:
  "io_sat (io_return x) s Q \<longleftrightarrow> Q (Ok x) s"
  "io_sat (io_lift r) s Q \<longleftrightarrow> Q r s"
  by (simp_all add: io_sat_def)

lemma io_sat_bind_lift:
  assumes "\<And>x. r = Ok x \<Longrightarrow> io_sat (f x) s Q" and "\<And>e. r = Err e \<Longrightarrow> Q (Err e) s"
    and "\<And>p. r = Panic p \<Longrightarrow> Q (Panic p) s"
  shows "io_sat (io_bind (io_lift r) f) s Q"
  using assms by (cases r) (auto simp: io_sat_def)

end
