(* ===== verification/Keys.thy ===== *)
theory Keys
  imports Errors
begin

text \<open>
  The key encoding of \<open>rust/src/keys.rs\<close>, the catalog keys and file-id records of
  \<open>rust/src/database_metadata.rs\<close>, and the decoder \<open>parse_chunk_idx\<close> of
  \<open>rust/src/chunk_manager.rs\<close>. The lemmas show that the fixed-width hexadecimal form is injective
  and monotone, that the decoder inverts it, and that the key families never meet.
\<close>

section \<open>Hexadecimal numbers\<close>

definition hex_digit :: "nat \<Rightarrow> char" where
  "hex_digit d = char_of (if d < 10 then 48 + d else 87 + d)"

fun to_hex :: "nat \<Rightarrow> string" where
  "to_hex n = (if n < 16 then [hex_digit n] else to_hex (n div 16) @ [hex_digit (n mod 16)])"

declare to_hex.simps [simp del]

text \<open>The format directive \<open>{:016x}\<close>.\<close>

definition fmt_016x :: "nat \<Rightarrow> string" where
  "fmt_016x n = (let h = to_hex n in replicate (16 - length h) (CHR ''0'') @ h)"

text \<open>Exactly \<open>k\<close> digits.\<close>

fun hexw :: "nat \<Rightarrow> nat \<Rightarrow> string" where
  "hexw 0 n = []"
| "hexw (Suc k) n = hexw k (n div 16) @ [hex_digit (n mod 16)]"

lemma length_hexw [simp]: "length (hexw k n) = k"
  by (induction k arbitrary: n) auto

lemma hexw_zero: "hexw k 0 = replicate k (CHR ''0'')"
proof (induction k)
  case (Suc k)
  have "hex_digit 0 = CHR ''0''" by code_simp
  with Suc show ?case by (simp add: replicate_append_same)
qed simp

lemma pad_to_hex: "n < 16 ^ k \<Longrightarrow> 0 < k \<Longrightarrow>
  length (to_hex n) \<le> k \<and> replicate (k - length (to_hex n)) (CHR ''0'') @ to_hex n = hexw k n"
proof (induction k arbitrary: n)
  case (Suc k)
  show ?case
  proof (cases "n < 16")
    case True
    then show ?thesis by (simp add: to_hex.simps [of n] hexw_zero)
  next
    case False
    with Suc.prems have "n div 16 < 16 ^ k" and k: "0 < k"
      by (auto simp: less_mult_imp_div_less mult.commute intro!: Nat.gr0I)
    from Suc.IH [OF this] False show ?thesis
      by (simp add: to_hex.simps [of n])
  qed
qed simp

lemma fmt_016x_hexw: "n < u64_size \<Longrightarrow> fmt_016x n = hexw 16 n"
  using pad_to_hex [of n 16] by (simp add: fmt_016x_def u64_size_def)

lemma length_fmt_016x [simp]: "n < u64_size \<Longrightarrow> length (fmt_016x n) = 16"
  by (simp add: fmt_016x_hexw)

lemma of_char_hex_digit: "d < 16 \<Longrightarrow> of_char (hex_digit d) = (if d < 10 then 48 + d else 87 + d)"
  by (simp add: hex_digit_def)

lemma hex_digit_less_iff: "c < 16 \<Longrightarrow> d < 16 \<Longrightarrow> hex_digit c < hex_digit d \<longleftrightarrow> c < d"
  by (auto simp: less_char_def of_char_hex_digit)

lemma hex_digit_inj: "c < 16 \<Longrightarrow> d < 16 \<Longrightarrow> hex_digit c = hex_digit d \<longleftrightarrow> c = d"
  using hex_digit_less_iff [of c d] hex_digit_less_iff [of d c] by (metis less_irrefl linorder_neqE)

lemma hexw_inj: "m < 16 ^ k \<Longrightarrow> n < 16 ^ k \<Longrightarrow> hexw k m = hexw k n \<longleftrightarrow> m = n"
proof (induction k arbitrary: m n)
  case (Suc k)
  then have "m div 16 < 16 ^ k" "n div 16 < 16 ^ k"
    by (auto simp: less_mult_imp_div_less mult.commute)
  with Suc.IH have "hexw k (m div 16) = hexw k (n div 16) \<longleftrightarrow> m div 16 = n div 16" by blast
  moreover have "m = n \<longleftrightarrow> m div 16 = n div 16 \<and> m mod 16 = n mod 16"
    by (metis div_mult_mod_eq)
  ultimately show ?case by (auto simp: hex_digit_inj)
qed simp

lemma radix_less:
  "c < 16 \<Longrightarrow> d < (16 :: nat) \<Longrightarrow> 16 * a + c < 16 * b + d \<longleftrightarrow> a < b \<or> (a = b \<and> c < d)"
  by auto

lemma hexw_less: "m < 16 ^ k \<Longrightarrow> n < 16 ^ k \<Longrightarrow> hexw k m < hexw k n \<longleftrightarrow> m < n"
proof (induction k arbitrary: m n)
  case (Suc k)
  then have b: "m div 16 < 16 ^ k" "n div 16 < 16 ^ k"
    by (auto simp: less_mult_imp_div_less mult.commute)
  have "m < n \<longleftrightarrow> m div 16 < n div 16 \<or> (m div 16 = n div 16 \<and> m mod 16 < n mod 16)"
    using radix_less [of "m mod 16" "n mod 16" "m div 16" "n div 16"] by simp
  with Suc.IH [OF b] hexw_inj [OF b] show ?case
    by (auto simp: less_append_eq_length hex_digit_less_iff)
qed simp

lemma fmt_016x_inj [simp]:
  "m < u64_size \<Longrightarrow> n < u64_size \<Longrightarrow> fmt_016x m = fmt_016x n \<longleftrightarrow> m = n"
  by (simp add: fmt_016x_hexw, rule hexw_inj) (simp_all add: u64_size_def)

lemma fmt_016x_less [simp]:
  "m < u64_size \<Longrightarrow> n < u64_size \<Longrightarrow> fmt_016x m < fmt_016x n \<longleftrightarrow> m < n"
  by (simp add: fmt_016x_hexw, rule hexw_less) (simp_all add: u64_size_def)

lemma fmt_016x_le [simp]:
  "m < u64_size \<Longrightarrow> n < u64_size \<Longrightarrow> fmt_016x m \<le> fmt_016x n \<longleftrightarrow> m \<le> n"
  by (metis fmt_016x_less linorder_not_less)

text \<open>Every character of the form is a hexadecimal digit.\<close>

definition is_hex_char :: "char \<Rightarrow> bool" where
  "is_hex_char c \<longleftrightarrow> (\<exists>d < 16. c = hex_digit d)"

lemma hexw_hex_chars: "c \<in> set (hexw k n) \<Longrightarrow> is_hex_char c"
proof (induction k arbitrary: n)
  case (Suc k)
  then show ?case
    by (auto simp: is_hex_char_def) (metis mod_less_divisor zero_less_numeral)
qed simp

lemma hex_char_code:
  "is_hex_char c \<Longrightarrow>
   (48 \<le> (of_char c :: nat) \<and> of_char c \<le> (57 :: nat)) \<or> (97 \<le> (of_char c :: nat) \<and> of_char c \<le> (102 :: nat))"
  by (auto simp: is_hex_char_def of_char_hex_digit split: if_splits)

lemma slash_not_hex: "is_hex_char c \<Longrightarrow> c \<noteq> CHR ''/''"
  using hex_char_code [of c] by auto

section \<open>Keys\<close>

datatype Prefix = Chunk | Metadata

definition prefix_as_str :: "Prefix \<Rightarrow> string" where
  "prefix_as_str p = (case p of Chunk \<Rightarrow> ''c/'' | Metadata \<Rightarrow> ''m/'')"

definition chunk_prefix :: "u64 \<Rightarrow> key" where
  "chunk_prefix file_id = prefix_as_str Chunk @ fmt_016x file_id @ ''/''"

definition chunk_key :: "u64 \<Rightarrow> u64 \<Rightarrow> key" where
  "chunk_key file_id chunk_index = chunk_prefix file_id @ fmt_016x chunk_index"

definition metadata_key :: "u64 \<Rightarrow> key" where
  "metadata_key file_id = prefix_as_str Metadata @ fmt_016x file_id"

definition NEXT_FILE_ID_KEY :: key where
  "NEXT_FILE_ID_KEY = ''m/0000000000000000/next_file_id''"

definition PATH_PREFIX :: key where
  "PATH_PREFIX = ''p/''"

definition path_key :: "path \<Rightarrow> key" where
  "path_key p = PATH_PREFIX @ p"

lemmas key_defs = chunk_prefix_def chunk_key_def metadata_key_def NEXT_FILE_ID_KEY_def
  PATH_PREFIX_def path_key_def prefix_as_str_def

section \<open>Decoding a chunk key\<close>

text \<open>
  \<open>std::str::from_utf8\<close>: the well-formed byte sequences of the Unicode standard (no overlong
  forms, no surrogates, nothing past U+10FFFF).
\<close>

definition cont_byte :: "nat \<Rightarrow> bool" where
  "cont_byte b \<longleftrightarrow> 128 \<le> b \<and> b \<le> 191"

fun utf8_valid :: "nat list \<Rightarrow> bool" where
  "utf8_valid [] = True"
| "utf8_valid (a # xs) =
     (if a < 128 then utf8_valid xs
      else if 194 \<le> a \<and> a \<le> 223 then
        (case xs of b # ys \<Rightarrow> cont_byte b \<and> utf8_valid ys | _ \<Rightarrow> False)
      else if 224 \<le> a \<and> a \<le> 239 then
        (case xs of b # c # ys \<Rightarrow>
           cont_byte b \<and> (a = 224 \<longrightarrow> 160 \<le> b) \<and> (a = 237 \<longrightarrow> b \<le> 159) \<and> cont_byte c \<and> utf8_valid ys
         | _ \<Rightarrow> False)
      else if 240 \<le> a \<and> a \<le> 244 then
        (case xs of b # c # d # ys \<Rightarrow>
           cont_byte b \<and> (a = 240 \<longrightarrow> 144 \<le> b) \<and> (a = 244 \<longrightarrow> b \<le> 143) \<and> cont_byte c \<and> cont_byte d
           \<and> utf8_valid ys
         | _ \<Rightarrow> False)
      else False)"

definition from_utf8 :: "string \<Rightarrow> string option" where
  "from_utf8 s = (if utf8_valid (map of_char s) then Some s else None)"

text \<open>The first item of \<open>rsplit('/')\<close>: what follows the last slash. It always exists.\<close>

definition rsplit_next :: "char \<Rightarrow> string \<Rightarrow> string option" where
  "rsplit_next c s = Some (rev (takeWhile (\<lambda>x. x \<noteq> c) (rev s)))"

text \<open>
  \<open>u64::from_str_radix(s, 16)\<close>: an optional plus sign, then at least one digit of either case, with
  an error on overflow. The error texts are those of \<open>ParseIntError\<close>. The text of a \<open>Utf8Error\<close>,
  which names byte positions, is only tagged.
\<close>

definition hex_value :: "char \<Rightarrow> nat option" where
  "hex_value c = (let n = of_char c in
     if 48 \<le> n \<and> n \<le> 57 then Some (n - 48)
     else if 97 \<le> n \<and> n \<le> 102 then Some (n - 87)
     else if 65 \<le> n \<and> n \<le> 70 then Some (n - 55)
     else None)"

fun hex_digits :: "nat \<Rightarrow> string \<Rightarrow> string + nat" where
  "hex_digits acc [] = Inr acc"
| "hex_digits acc (c # cs) =
     (case hex_value c of
        None \<Rightarrow> Inl ''invalid digit found in string''
      | Some d \<Rightarrow>
          (let acc' = acc * 16 + d
           in if acc' < u64_size then hex_digits acc' cs
              else Inl ''number too large to fit in target type''))"

definition from_str_radix_16 :: "string \<Rightarrow> string + nat" where
  "from_str_radix_16 s =
     (if s = [] then Inl ''cannot parse integer from empty string''
      else if s = ''+'' \<or> s = ''-'' then Inl ''invalid digit found in string''
      else hex_digits 0 (if hd s = CHR ''+'' then tl s else s))"

definition parse_chunk_idx :: "key \<Rightarrow> u64 outcome" where
  "parse_chunk_idx k =
     (case from_utf8 k of
        None \<Rightarrow> Err (metadata_decode_with_source ''chunk key is not valid utf-8'' ''Utf8Error'')
      | Some k' \<Rightarrow>
          (case rsplit_next (CHR ''/'') k' of
             None \<Rightarrow> Err (metadata_decode (''invalid chunk key: '' @ k'))
           | Some chunk_idx \<Rightarrow>
               (case from_str_radix_16 chunk_idx of
                  Inl src \<Rightarrow> Err (metadata_decode_with_source
                                   (''invalid chunk index in key: '' @ k') src)
                | Inr n \<Rightarrow> Ok n)))"

lemma utf8_valid_ascii: "\<forall>b \<in> set bs. b < 128 \<Longrightarrow> utf8_valid bs"
  by (induction bs) auto

lemma hex_value_hex_digit: "d < 16 \<Longrightarrow> hex_value (hex_digit d) = Some d"
  by (simp add: hex_value_def of_char_hex_digit)

lemma hex_digits_append:
  "hex_digits a (xs @ ys) = (case hex_digits a xs of Inl e \<Rightarrow> Inl e | Inr b \<Rightarrow> hex_digits b ys)"
  by (induction a xs rule: hex_digits.induct) (auto simp: Let_def split: option.splits)

lemma hex_digits_hexw: "n < 16 ^ k \<Longrightarrow> k \<le> 16 \<Longrightarrow> hex_digits 0 (hexw k n) = Inr n"
proof (induction k arbitrary: n)
  case (Suc k)
  then have b: "n div 16 < 16 ^ k" by (simp add: less_mult_imp_div_less mult.commute)
  have "n < u64_size"
    using Suc.prems power_increasing [of "Suc k" 16 "16::nat"] by (simp add: u64_size_def)
  with Suc.IH [OF b] Suc.prems show ?case
    by (simp add: hex_digits_append hex_value_hex_digit Let_def)
qed simp

lemma rsplit_next_suffix:
  "CHR ''/'' \<notin> set t \<Longrightarrow> rsplit_next (CHR ''/'') (p @ CHR ''/'' # t) = Some t"
proof -
  assume "CHR ''/'' \<notin> set t"
  then have "takeWhile (\<lambda>x. x \<noteq> CHR ''/'') (rev t @ CHR ''/'' # rev p) = rev t"
    by (subst takeWhile_append2) auto
  then show ?thesis by (simp add: rsplit_next_def)
qed

lemma slash_notin_hexw: "CHR ''/'' \<notin> set (hexw k n)"
  using hexw_hex_chars slash_not_hex by blast

lemma from_str_radix_16_hexw: "n < u64_size \<Longrightarrow> from_str_radix_16 (hexw 16 n) = Inr n"
proof -
  assume n: "n < u64_size"
  have "length (hexw 16 n) = 16" by simp
  then obtain c cs where h: "hexw 16 n = c # cs" and cs: "cs \<noteq> []"
    by (cases "hexw 16 n"; cases "tl (hexw 16 n)") (simp_all del: length_hexw)
  then have "is_hex_char c" using hexw_hex_chars [of c 16 n] by simp
  then have "c \<noteq> CHR ''+''" using hex_char_code [of c] by auto
  with h cs hex_digits_hexw [of n 16] n show ?thesis
    by (auto simp: from_str_radix_16_def u64_size_def)
qed

lemma ascii_chunk_key:
  assumes "f < u64_size" and "i < u64_size"
  shows "from_utf8 (chunk_key f i) = Some (chunk_key f i)"
proof -
  have "of_char c < (128 :: nat)" if "c \<in> set (hexw 16 n)" for c n
    using hex_char_code [OF hexw_hex_chars [OF that]] by auto
  then show ?thesis
    using assms by (auto simp: from_utf8_def key_defs fmt_016x_hexw intro!: utf8_valid_ascii)
qed

lemma parse_chunk_key:
  assumes "f < u64_size" and "i < u64_size"
  shows "parse_chunk_idx (chunk_key f i) = Ok i"
proof -
  have "chunk_key f i = (''c/'' @ hexw 16 f) @ CHR ''/'' # hexw 16 i"
    using assms by (simp add: key_defs fmt_016x_hexw)
  then have "rsplit_next (CHR ''/'') (chunk_key f i) = Some (hexw 16 i)"
    by (simp only: rsplit_next_suffix [OF slash_notin_hexw])
  then show ?thesis
    using assms by (simp add: parse_chunk_idx_def ascii_chunk_key from_str_radix_16_hexw)
qed

section \<open>The key families\<close>

lemma chunk_key_inj:
  assumes "f < u64_size" "g < u64_size" "i < u64_size" "j < u64_size"
  shows "chunk_key f i = chunk_key g j \<longleftrightarrow> f = g \<and> i = j"
  using assms by (auto simp: chunk_key_def chunk_prefix_def prefix_as_str_def)

lemma chunk_key_le [simp]:
  "i < u64_size \<Longrightarrow> j < u64_size \<Longrightarrow> chunk_key f i \<le> chunk_key f j \<longleftrightarrow> i \<le> j"
  by (simp add: chunk_key_def)

lemma chunk_key_eq_same [simp]:
  "i < u64_size \<Longrightarrow> j < u64_size \<Longrightarrow> chunk_key f i = chunk_key f j \<longleftrightarrow> i = j"
  by (simp add: chunk_key_def)

lemma chunk_prefix_of_key:
  assumes "f < u64_size" "g < u64_size"
  shows "prefix (chunk_prefix f) (chunk_key g i) \<longleftrightarrow> f = g"
proof
  assume "prefix (chunk_prefix f) (chunk_key g i)"
  then have "take (length (chunk_prefix f)) (chunk_key g i) = chunk_prefix f"
    by (metis append_eq_conv_conj prefixE)
  moreover have "take (length (chunk_prefix f)) (chunk_key g i) = chunk_prefix g"
    using assms by (simp add: key_defs)
  ultimately show "f = g" using assms by (simp add: key_defs)
qed (simp add: chunk_key_def)

lemma chunk_prefix_not_others [simp]:
  "\<not> prefix (chunk_prefix f) (metadata_key g)"
  "\<not> prefix (chunk_prefix f) (path_key p)"
  "\<not> prefix (chunk_prefix f) NEXT_FILE_ID_KEY"
  by (simp_all add: key_defs)

lemma metadata_key_inj [simp]:
  "f < u64_size \<Longrightarrow> g < u64_size \<Longrightarrow> metadata_key f = metadata_key g \<longleftrightarrow> f = g"
  by (simp add: key_defs)

lemma path_key_inj [simp]: "path_key p = path_key q \<longleftrightarrow> p = q"
  by (simp add: key_defs)

lemma key_families_differ [simp]:
  "chunk_key f i \<noteq> metadata_key g" "metadata_key g \<noteq> chunk_key f i"
  "chunk_key f i \<noteq> path_key p" "path_key p \<noteq> chunk_key f i"
  "chunk_key f i \<noteq> NEXT_FILE_ID_KEY" "NEXT_FILE_ID_KEY \<noteq> chunk_key f i"
  "metadata_key g \<noteq> path_key p" "path_key p \<noteq> metadata_key g"
  "path_key p \<noteq> NEXT_FILE_ID_KEY" "NEXT_FILE_ID_KEY \<noteq> path_key p"
  by (simp_all add: key_defs)

lemma metadata_key_not_next [simp]:
  assumes "f < u64_size"
  shows "metadata_key f \<noteq> NEXT_FILE_ID_KEY" and "NEXT_FILE_ID_KEY \<noteq> metadata_key f"
proof -
  have "length (metadata_key f) \<noteq> length NEXT_FILE_ID_KEY" using assms by (simp add: key_defs)
  then show "metadata_key f \<noteq> NEXT_FILE_ID_KEY" and "NEXT_FILE_ID_KEY \<noteq> metadata_key f" by auto
qed

text \<open>A range scan between two chunks of a file stays inside the file's prefix.\<close>

lemma chunk_range_prefix:
  "chunk_key f i \<le> k \<Longrightarrow> k \<le> chunk_key f j \<Longrightarrow> prefix (chunk_prefix f) k"
  unfolding chunk_key_def by (rule prefix_between)

end
