(* ===== verification/Ordered_Map.thy ===== *)
theory Ordered_Map
  imports Prelude
begin

text \<open>
  \<open>BTreeMap\<close>: an association list in strictly ascending key order, so that iterating it visits the
  entries as the Rust map does. Lookup is \<open>map_of\<close>; the operations the source uses are \<open>insert\<close>,
  \<open>extend\<close>, \<open>retain\<close> and \<open>clear\<close>. The locale \<open>ordered_map\<close> states what a client may rely on.
\<close>

type_synonym ('k, 'v) btree = "('k \<times> 'v) list"

definition bt_wf :: "('k :: linorder, 'v) btree \<Rightarrow> bool" where
  "bt_wf m \<longleftrightarrow> sorted_wrt (<) (map fst m)"

fun bt_insert :: "'k :: linorder \<Rightarrow> 'v \<Rightarrow> ('k, 'v) btree \<Rightarrow> ('k, 'v) btree" where
  "bt_insert k v [] = [(k, v)]"
| "bt_insert k v (e # m) =
     (if k < fst e then (k, v) # e # m
      else if fst e = k then (k, v) # m
      else e # bt_insert k v m)"

definition bt_remove :: "'k \<Rightarrow> ('k, 'v) btree \<Rightarrow> ('k, 'v) btree" where
  "bt_remove k m = filter (\<lambda>e. fst e \<noteq> k) m"

definition bt_retain :: "('k \<Rightarrow> bool) \<Rightarrow> ('k, 'v) btree \<Rightarrow> ('k, 'v) btree" where
  "bt_retain P m = filter (\<lambda>e. P (fst e)) m"

definition bt_extend :: "('k :: linorder, 'v) btree \<Rightarrow> ('k \<times> 'v) list \<Rightarrow> ('k, 'v) btree" where
  "bt_extend m es = foldl (\<lambda>m' e. bt_insert (fst e) (snd e) m') m es"

lemma map_of_bt_insert [simp]: "map_of (bt_insert k v m) = (map_of m)(k \<mapsto> v)"
  by (induction m) (auto simp: fun_eq_iff)

lemma fst_set_bt_insert: "fst ` set (bt_insert k v m) = insert k (fst ` set m)"
  by (induction m) auto

lemma bt_wf_Nil [simp]: "bt_wf []"
  by (simp add: bt_wf_def)

lemma bt_wf_Cons: "bt_wf (e # m) \<longleftrightarrow> (\<forall>k \<in> fst ` set m. fst e < k) \<and> bt_wf m"
  by (auto simp: bt_wf_def)

lemma bt_wf_insert [intro]: "bt_wf m \<Longrightarrow> bt_wf (bt_insert k v m)"
proof (induction m)
  case (Cons e m)
  then show ?case
    by (auto simp: bt_wf_Cons fst_set_bt_insert)
qed (simp add: bt_wf_Cons)

lemma bt_wf_filter [intro]: "bt_wf m \<Longrightarrow> bt_wf (filter P m)"
  by (induction m) (auto simp: bt_wf_Cons)

lemma bt_wf_retain [intro]: "bt_wf m \<Longrightarrow> bt_wf (bt_retain P m)"
  by (auto simp: bt_retain_def)

lemma bt_wf_remove [intro]: "bt_wf m \<Longrightarrow> bt_wf (bt_remove k m)"
  by (auto simp: bt_remove_def)

lemma map_of_bt_retain [simp]: "map_of (bt_retain P m) k = (if P k then map_of m k else None)"
  by (induction m) (auto simp: bt_retain_def)

lemma map_of_bt_remove [simp]: "map_of (bt_remove k m) = (map_of m)(k := None)"
  by (induction m) (auto simp: bt_remove_def fun_eq_iff)

lemma bt_extend_simps [simp]:
  "bt_extend m [] = m"
  "bt_extend m (e # es) = bt_extend (bt_insert (fst e) (snd e) m) es"
  by (simp_all add: bt_extend_def)

lemma bt_wf_extend [intro]: "bt_wf m \<Longrightarrow> bt_wf (bt_extend m es)"
  by (induction es arbitrary: m) auto

lemma map_of_bt_extend: "map_of (bt_extend m es) = map_of m ++ map_of (rev es)"
  by (induction es arbitrary: m) (auto simp: map_add_def fun_eq_iff split: option.splits)

lemma bt_wf_distinct: "bt_wf m \<Longrightarrow> distinct (map fst m)"
  by (induction m) (auto simp: bt_wf_Cons)

lemma bt_wf_sorted: "bt_wf m \<Longrightarrow> sorted (map fst m)"
  by (simp add: bt_wf_def strict_sorted_imp_sorted)

text \<open>The entries of a well-formed map are its graph.\<close>

lemma bt_wf_set: "bt_wf m \<Longrightarrow> (k, v) \<in> set m \<longleftrightarrow> map_of m k = Some v"
  by (metis bt_wf_distinct map_of_eq_Some_iff)

lemma map_of_rev_distinct: "distinct (map fst es) \<Longrightarrow> map_of (rev es) = map_of es"
  by (rule ext) (metis distinct_rev map_of_eq_Some_iff not_Some_eq rev_map set_rev)

lemma bt_extend_distinct:
  "distinct (map fst es) \<Longrightarrow> map_of (bt_extend [] es) = map_of es"
  by (simp add: map_of_bt_extend map_of_rev_distinct)

section \<open>The interface\<close>

locale ordered_map =
  fixes lookup :: "'m \<Rightarrow> 'k :: linorder \<Rightarrow> 'v option"
    and insert :: "'k \<Rightarrow> 'v \<Rightarrow> 'm \<Rightarrow> 'm"
    and retain :: "('k \<Rightarrow> bool) \<Rightarrow> 'm \<Rightarrow> 'm"
    and items :: "'m \<Rightarrow> ('k \<times> 'v) list"
    and inv :: "'m \<Rightarrow> bool"
  assumes lookup_insert: "lookup (insert k v m) = (lookup m)(k \<mapsto> v)"
    and lookup_retain: "lookup (retain P m) k = (if P k then lookup m k else None)"
    and items_ascending: "inv m \<Longrightarrow> sorted_wrt (<) (map fst (items m))"
    and items_graph: "inv m \<Longrightarrow> (k, v) \<in> set (items m) \<longleftrightarrow> lookup m k = Some v"
    and inv_insert: "inv m \<Longrightarrow> inv (insert k v m)"
    and inv_retain: "inv m \<Longrightarrow> inv (retain P m)"
begin

lemma retain_retain: "lookup (retain P (retain Q m)) k = lookup (retain (\<lambda>k. P k \<and> Q k) m) k"
  by (simp add: lookup_retain)

lemma items_distinct: "inv m \<Longrightarrow> distinct (map fst (items m))"
  using items_ascending strict_sorted_iff by blast

text \<open>Iterating a map yields nothing but its contents: equal lookups, equal iteration.\<close>

lemma items_canonical:
  assumes "inv m" and "inv n" and "lookup m = lookup n"
  shows "items m = items n"
proof (rule map_sorted_distinct_set_unique [where f = fst])
  have same: "set (items m) = set (items n)"
    using assms by (auto simp: items_graph)
  show "inj_on fst (set (items m) \<union> set (items n))"
    using items_distinct [OF assms(1)] same by (simp add: distinct_map)
  show "set (items m) = set (items n)" by (rule same)
qed (use assms items_ascending items_distinct in \<open>auto intro: strict_sorted_imp_sorted\<close>)

end

interpretation btree: ordered_map map_of bt_insert bt_retain "\<lambda>m. m" bt_wf
  by unfold_locales (auto simp: bt_wf_def [symmetric] bt_wf_set)

end
