(* ===== verification/Slate_Db.thy ===== *)
theory Slate_Db
  imports Keys Ordered_Map
begin

text \<open>
  The interface to SlateDB, the key-value store under the filesystem. SlateDB is a library the
  sources only call, so its operations are a record of functions that the model takes as an
  argument; what the filesystem relies on is the locale \<open>slate_db\<close> (reads, atomic batches, flush)
  and its extension \<open>slate_tx\<close> (serializable transactions). The state \<open>'s\<close> is the world the store
  lives in; every call may change it, so that transient faults and background work are covered.
  A multi-item scan is the list of results its iterator will deliver, an \<open>Inl\<close> being a failed step.
\<close>

section \<open>Operations\<close>

datatype batch_op = BatchPut key bytes | BatchDelete key

type_synonym write_batch = "batch_op list"
type_synonym contents = "key \<rightharpoonup> bytes"
type_synonym scan_iter = "(slatedb_error + key \<times> bytes) list"

record scan_options =
  read_ahead_bytes :: usize
  max_fetch_tasks :: usize
  cache_blocks :: bool

record ('s, 'db, 'rd, 'tx) slatedb =
  db_get :: "'db \<Rightarrow> key \<Rightarrow> 's \<Rightarrow> (slatedb_error + bytes option) \<times> 's"
  db_scan :: "'db \<Rightarrow> key \<Rightarrow> key \<Rightarrow> scan_options \<Rightarrow> 's \<Rightarrow> (slatedb_error + scan_iter) \<times> 's"
  db_scan_prefix :: "'db \<Rightarrow> key \<Rightarrow> 's \<Rightarrow> (slatedb_error + scan_iter) \<times> 's"
  db_write :: "'db \<Rightarrow> write_batch \<Rightarrow> 's \<Rightarrow> (slatedb_error + unit) \<times> 's"
  db_flush :: "'db \<Rightarrow> 's \<Rightarrow> (slatedb_error + unit) \<times> 's"
  rd_get :: "'rd \<Rightarrow> key \<Rightarrow> 's \<Rightarrow> (slatedb_error + bytes option) \<times> 's"
  rd_scan :: "'rd \<Rightarrow> key \<Rightarrow> key \<Rightarrow> scan_options \<Rightarrow> 's \<Rightarrow> (slatedb_error + scan_iter) \<times> 's"
  rd_scan_prefix :: "'rd \<Rightarrow> key \<Rightarrow> 's \<Rightarrow> (slatedb_error + scan_iter) \<times> 's"
  db_begin :: "'db \<Rightarrow> 's \<Rightarrow> (slatedb_error + 'tx) \<times> 's"
  tx_get :: "'tx \<Rightarrow> key \<Rightarrow> 's \<Rightarrow> (slatedb_error + bytes option) \<times> 's"
  tx_scan_prefix :: "'tx \<Rightarrow> key \<Rightarrow> 's \<Rightarrow> (slatedb_error + scan_iter) \<times> 's"
  tx_put :: "'tx \<Rightarrow> key \<Rightarrow> bytes \<Rightarrow> slatedb_error + 'tx"
  tx_delete :: "'tx \<Rightarrow> key \<Rightarrow> slatedb_error + 'tx"
  tx_commit :: "'tx \<Rightarrow> 's \<Rightarrow> (slatedb_error + unit) \<times> 's"

text \<open>The \<open>?\<close> operator on a SlateDB result.\<close>

definition from_slate :: "slatedb_error + 'a \<Rightarrow> 'a outcome" where
  "from_slate r = (case r of Inl e \<Rightarrow> Err (from_slatedb_error e) | Inr x \<Rightarrow> Ok x)"

definition slate :: "('s \<Rightarrow> (slatedb_error + 'a) \<times> 's) \<Rightarrow> ('s, 'a) io" where
  "slate f s = (case f s of (r, s') \<Rightarrow> (from_slate r, s'))"

lemma from_slate_simps [simp]:
  "from_slate (Inl e) = Err (from_slatedb_error e)"
  "from_slate (Inr x) = Ok x"
  by (simp_all add: from_slate_def)

lemma from_slate_eq_Ok [simp]: "from_slate r = Ok x \<longleftrightarrow> r = Inr x"
  by (cases r) simp_all

lemma from_slate_no_panic [simp]: "from_slate r \<noteq> Panic p"
  by (cases r) simp_all

lemma slate_eq_Ok: "slate f s = (Ok x, s') \<longleftrightarrow> f s = (Inr x, s')"
  by (auto simp: slate_def split: prod.splits)

lemma slate_no_panic [simp]: "slate f s \<noteq> (Panic p, s')"
  by (auto simp: slate_def split: prod.splits)

lemma io_keeps_slate: "(\<And>s r s'. f s = (r, s') \<Longrightarrow> v s' = v s) \<Longrightarrow> io_keeps v (slate f)"
  by (auto simp: io_keeps_def slate_def split: prod.splits)

section \<open>Batches\<close>

fun apply_op :: "batch_op \<Rightarrow> contents \<Rightarrow> contents" where
  "apply_op (BatchPut k v) m = m(k \<mapsto> v)"
| "apply_op (BatchDelete k) m = m(k := None)"

definition apply_batch :: "write_batch \<Rightarrow> contents \<Rightarrow> contents" where
  "apply_batch b m = fold apply_op b m"

fun batch_key :: "batch_op \<Rightarrow> key" where
  "batch_key (BatchPut k v) = k"
| "batch_key (BatchDelete k) = k"

lemma apply_batch_simps [simp]:
  "apply_batch [] m = m"
  "apply_batch (x # b) m = apply_batch b (apply_op x m)"
  "apply_batch (b @ c) m = apply_batch c (apply_batch b m)"
  by (simp_all add: apply_batch_def)

lemma apply_op_other [simp]: "batch_key x \<noteq> k \<Longrightarrow> apply_op x m k = m k"
  by (cases x) auto

lemma apply_batch_other: "k \<notin> batch_key ` set b \<Longrightarrow> apply_batch b m k = m k"
  by (induction b arbitrary: m) auto

section \<open>The contract\<close>

text \<open>
  \<open>lists_range it P m\<close>: an iterator that never fails delivers the entries of \<open>m\<close> whose key
  satisfies \<open>P\<close>, in ascending key order. A failing iterator promises nothing.
\<close>

definition entries_of :: "(key \<times> bytes) list \<Rightarrow> (key \<Rightarrow> bool) \<Rightarrow> contents \<Rightarrow> bool" where
  "entries_of kvs P m \<longleftrightarrow>
     sorted_wrt (<) (map fst kvs) \<and> (\<forall>k v. (k, v) \<in> set kvs \<longleftrightarrow> m k = Some v \<and> P k)"

definition lists_range :: "scan_iter \<Rightarrow> (key \<Rightarrow> bool) \<Rightarrow> contents \<Rightarrow> bool" where
  "lists_range it P m \<longleftrightarrow> (\<forall>kvs. it = map Inr kvs \<longrightarrow> entries_of kvs P m)"

lemma entries_of_keys: "entries_of kvs P m \<Longrightarrow> set (map fst kvs) = {k \<in> dom m. P k}"
  by (force simp: entries_of_def)

lemma entries_of_map_of: "entries_of kvs P m \<Longrightarrow> map_of kvs k = (if P k then m k else None)"
proof -
  assume e: "entries_of kvs P m"
  then have "distinct (map fst kvs)" by (auto simp: entries_of_def strict_sorted_iff)
  then have "map_of kvs k = Some v \<longleftrightarrow> m k = Some v \<and> P k" for v
    using e by (simp add: entries_of_def)
  then show ?thesis by (metis (full_types) not_None_eq)
qed

text \<open>What a read client (a \<open>Db\<close> or a \<open>DbReader\<close>) promises about the contents it shows.\<close>

locale slate_reads =
  fixes get :: "key \<Rightarrow> 's \<Rightarrow> (slatedb_error + bytes option) \<times> 's"
    and scan :: "key \<Rightarrow> key \<Rightarrow> scan_options \<Rightarrow> 's \<Rightarrow> (slatedb_error + scan_iter) \<times> 's"
    and scan_prefix :: "key \<Rightarrow> 's \<Rightarrow> (slatedb_error + scan_iter) \<times> 's"
    and view :: "'s \<Rightarrow> contents"
  assumes get_view: "get k s = (r, s') \<Longrightarrow> view s' = view s"
    and get_value: "get k s = (Inr v, s') \<Longrightarrow> v = view s k"
    and scan_view: "scan a b opt s = (q, s') \<Longrightarrow> view s' = view s"
    and scan_items: "scan a b opt s = (Inr it, s') \<Longrightarrow> lists_range it (\<lambda>k. a \<le> k \<and> k \<le> b) (view s)"
    and scan_prefix_view: "scan_prefix p s = (q, s') \<Longrightarrow> view s' = view s"
    and scan_prefix_items: "scan_prefix p s = (Inr it, s') \<Longrightarrow> lists_range it (prefix p) (view s)"

text \<open>
  A writer: reads change nothing, a batch is applied as a whole or not at all, and applied when the
  call succeeds; after a successful flush the durable contents are the current ones.
\<close>

locale slate_db =
  fixes S :: "('s, 'db, 'rd, 'tx) slatedb"
    and view :: "'db \<Rightarrow> 's \<Rightarrow> contents"
    and durable :: "'db \<Rightarrow> 's \<Rightarrow> contents"
  assumes db_reads: "slate_reads (db_get S db) (db_scan S db) (db_scan_prefix S db) (view db)"
    and write_ok: "db_write S db b s = (Inr u, s') \<Longrightarrow> view db s' = apply_batch b (view db s)"
    and write_atomic: "db_write S db b s = (r, s') \<Longrightarrow>
      view db s' = view db s \<or> view db s' = apply_batch b (view db s)"
    and write_other: "db_write S db b s = (r, s') \<Longrightarrow> d \<noteq> db \<Longrightarrow> view d s' = view d s"
    and flush_view: "db_flush S db s = (r, s') \<Longrightarrow> view d s' = view d s"
    and flush_durable: "db_flush S db s = (Inr u, s') \<Longrightarrow> durable db s' = view db s'"

sublocale slate_db \<subseteq> rw: slate_reads "db_get S db" "db_scan S db" "db_scan_prefix S db" "view db"
  for db
  by (rule db_reads)

text \<open>
  Transactions. A transaction reads the snapshot it began with under its own writes; committing
  applies its writes to the database as a whole, or, when it fails, possibly not at all.
\<close>

locale slate_tx = slate_db S view durable
  for S :: "('s, 'db, 'rd, 'tx) slatedb" and view durable +
  fixes tx_db :: "'tx \<Rightarrow> 'db"
    and tx_snapshot :: "'tx \<Rightarrow> contents"
    and tx_writes :: "'tx \<Rightarrow> write_batch"
  assumes begin_view: "db_begin S db s = (r, s') \<Longrightarrow> view d s' = view d s"
    and begin_tx: "db_begin S db s = (Inr tx, s') \<Longrightarrow>
      tx_db tx = db \<and> tx_snapshot tx = view db s \<and> tx_writes tx = []"
    and tx_reads_view: "tx_get S tx k s = (g, s') \<Longrightarrow> view d s' = view d s"
    and tx_get_value: "tx_get S tx k s = (Inr ov, s') \<Longrightarrow>
      ov = apply_batch (tx_writes tx) (tx_snapshot tx) k"
    and tx_scan_view: "tx_scan_prefix S tx p s = (q, s') \<Longrightarrow> view d s' = view d s"
    and tx_scan_items: "tx_scan_prefix S tx p s = (Inr it, s') \<Longrightarrow>
      lists_range it (prefix p) (apply_batch (tx_writes tx) (tx_snapshot tx))"
    and tx_put_state: "tx_put S tx k v = Inr tx' \<Longrightarrow>
      tx_db tx' = tx_db tx \<and> tx_snapshot tx' = tx_snapshot tx \<and> tx_writes tx' = tx_writes tx @ [BatchPut k v]"
    and tx_delete_state: "tx_delete S tx k = Inr tx' \<Longrightarrow>
      tx_db tx' = tx_db tx \<and> tx_snapshot tx' = tx_snapshot tx \<and> tx_writes tx' = tx_writes tx @ [BatchDelete k]"
    and commit_ok: "tx_commit S tx s = (Inr u, s') \<Longrightarrow>
      view (tx_db tx) s' = apply_batch (tx_writes tx) (view (tx_db tx) s)"
    and commit_atomic: "tx_commit S tx s = (w, s') \<Longrightarrow>
      view (tx_db tx) s' = view (tx_db tx) s
      \<or> view (tx_db tx) s' = apply_batch (tx_writes tx) (view (tx_db tx) s)"
    and commit_other: "tx_commit S tx s = (w, s') \<Longrightarrow> d \<noteq> tx_db tx \<Longrightarrow> view d s' = view d s"

end
