(* ===== verification/Mem_Db.thy ===== *)
theory Mem_Db
  imports Slate_Db
begin

text \<open>
  A concrete store that meets the contract of \<open>Slate_Db\<close>: databases in memory, named by their path,
  the copies that a flush saved, and a schedule of faults. Writes and commits are shown at once and become
  durable with the next flush. Each call consumes one bit of the schedule and fails as unavailable when
  the bit is set. It is the instance at which the theorems about the parameter are exercised.
\<close>

record mem =
  mem_dbs :: "(path, (key, bytes) btree) btree"
  mem_saved :: "(path, (key, bytes) btree) btree"
  mem_faults :: "bool list"

record mem_tx =
  mt_path :: path
  mt_snapshot :: "(key, bytes) btree"
  mt_writes :: write_batch

definition mem_unavailable :: slatedb_error where
  "mem_unavailable = \<lparr>kind = Unavailable, text_of = ''injected store fault''\<rparr>"

definition mem_conflict :: slatedb_error where
  "mem_conflict = \<lparr>kind = Transaction, text_of = ''transaction conflict''\<rparr>"

definition mem_db :: "path \<Rightarrow> mem \<Rightarrow> (key, bytes) btree" where
  "mem_db p s = (case map_of (mem_dbs s) p of None \<Rightarrow> [] | Some m \<Rightarrow> m)"

definition mem_set :: "path \<Rightarrow> (key, bytes) btree \<Rightarrow> mem \<Rightarrow> mem" where
  "mem_set p m s = s\<lparr>mem_dbs := bt_insert p m (mem_dbs s)\<rparr>"

definition mem_view :: "path \<Rightarrow> mem \<Rightarrow> contents" where
  "mem_view p s = map_of (mem_db p s)"

text \<open>What a flush saved, and a flush.\<close>

definition mem_durable :: "path \<Rightarrow> mem \<Rightarrow> contents" where
  "mem_durable p s = map_of (case map_of (mem_saved s) p of None \<Rightarrow> [] | Some m \<Rightarrow> m)"

definition mem_save :: "path \<Rightarrow> mem \<Rightarrow> mem" where
  "mem_save p s = s\<lparr>mem_saved := bt_insert p (mem_db p s) (mem_saved s)\<rparr>"

text \<open>One call: take the next bit of the schedule, then fail or run.\<close>

definition mem_call :: "(mem \<Rightarrow> (slatedb_error + 'a) \<times> mem) \<Rightarrow> mem \<Rightarrow> (slatedb_error + 'a) \<times> mem" where
  "mem_call f s = (case mem_faults s of
     [] \<Rightarrow> f s
   | b # bs \<Rightarrow> if b then (Inl mem_unavailable, s\<lparr>mem_faults := bs\<rparr>) else f (s\<lparr>mem_faults := bs\<rparr>))"

text \<open>The entries in key order.\<close>

definition bt_norm :: "('k :: linorder, 'v) btree \<Rightarrow> ('k, 'v) btree" where
  "bt_norm m = bt_extend [] (rev m)"

definition mem_entries :: "(key \<Rightarrow> bool) \<Rightarrow> (key, bytes) btree \<Rightarrow> scan_iter" where
  "mem_entries P m = map Inr (filter (\<lambda>e. P (fst e)) (bt_norm m))"

fun mem_apply_op :: "batch_op \<Rightarrow> (key, bytes) btree \<Rightarrow> (key, bytes) btree" where
  "mem_apply_op (BatchPut k v) m = bt_insert k v m"
| "mem_apply_op (BatchDelete k) m = bt_remove k m"

definition mem_apply :: "write_batch \<Rightarrow> (key, bytes) btree \<Rightarrow> (key, bytes) btree" where
  "mem_apply b m = fold mem_apply_op b m"

definition mem_get :: "path \<Rightarrow> key \<Rightarrow> mem \<Rightarrow> (slatedb_error + bytes option) \<times> mem" where
  "mem_get p k = mem_call (\<lambda>s. (Inr (mem_view p s k), s))"

definition mem_scan :: "path \<Rightarrow> key \<Rightarrow> key \<Rightarrow> scan_options \<Rightarrow> mem \<Rightarrow> (slatedb_error + scan_iter) \<times> mem" where
  "mem_scan p a b opt = mem_call (\<lambda>s. (Inr (mem_entries (\<lambda>k. a \<le> k \<and> k \<le> b) (mem_db p s)), s))"

definition mem_scan_prefix :: "path \<Rightarrow> key \<Rightarrow> mem \<Rightarrow> (slatedb_error + scan_iter) \<times> mem" where
  "mem_scan_prefix p pre = mem_call (\<lambda>s. (Inr (mem_entries (prefix pre) (mem_db p s)), s))"

definition mem_slatedb :: "(mem, path, path, mem_tx) slatedb" where
  "mem_slatedb = \<lparr>
     db_get = mem_get, db_scan = mem_scan, db_scan_prefix = mem_scan_prefix,
     db_write = (\<lambda>p b. mem_call (\<lambda>s. (Inr (), mem_set p (mem_apply b (mem_db p s)) s))),
     db_flush = (\<lambda>p. mem_call (\<lambda>s. (Inr (), mem_save p s))),
     rd_get = mem_get, rd_scan = mem_scan, rd_scan_prefix = mem_scan_prefix,
     db_begin = (\<lambda>p. mem_call (\<lambda>s. (Inr \<lparr>mt_path = p, mt_snapshot = mem_db p s, mt_writes = []\<rparr>, s))),
     tx_get = (\<lambda>tx k. mem_call (\<lambda>s. (Inr (map_of (mem_apply (mt_writes tx) (mt_snapshot tx)) k), s))),
     tx_scan_prefix = (\<lambda>tx pre. mem_call (\<lambda>s.
       (Inr (mem_entries (prefix pre) (mem_apply (mt_writes tx) (mt_snapshot tx))), s))),
     tx_put = (\<lambda>tx k v. Inr (tx\<lparr>mt_writes := mt_writes tx @ [BatchPut k v]\<rparr>)),
     tx_delete = (\<lambda>tx k. Inr (tx\<lparr>mt_writes := mt_writes tx @ [BatchDelete k]\<rparr>)),
     tx_commit = (\<lambda>tx. mem_call (\<lambda>s.
       if mem_db (mt_path tx) s = mt_snapshot tx
       then (Inr (), mem_set (mt_path tx) (mem_apply (mt_writes tx) (mem_db (mt_path tx) s)) s)
       else (Inl mem_conflict, s)))\<rparr>"

lemma mem_db_faults [simp]: "mem_db p (s\<lparr>mem_faults := bs\<rparr>) = mem_db p s"
  by (simp add: mem_db_def)

lemma mem_view_faults [simp]: "mem_view p (s\<lparr>mem_faults := bs\<rparr>) = mem_view p s"
  by (simp add: mem_view_def)

lemma mem_view_save [simp]: "mem_db p (mem_save q s) = mem_db p s" "mem_view p (mem_save q s) = mem_view p s"
  by (simp_all add: mem_db_def mem_view_def mem_save_def)

lemma mem_durable_save [simp]: "mem_durable p (mem_save p s) = mem_view p s"
  by (simp add: mem_durable_def mem_save_def mem_view_def)

lemma mem_save_faults [simp]: "mem_faults (mem_save p s) = mem_faults s"
  by (simp add: mem_save_def)

lemma mem_db_set [simp]: "mem_db p (mem_set q m s) = (if p = q then m else mem_db p s)"
  by (simp add: mem_db_def mem_set_def)

lemma map_of_mem_apply: "map_of (mem_apply b m) = apply_batch b (map_of m)"
  unfolding mem_apply_def apply_batch_def
proof (induction b arbitrary: m)
  case (Cons x b)
  have "map_of (mem_apply_op x m) = apply_op x (map_of m)" by (cases x) auto
  with Cons show ?case by simp
qed simp

lemma bt_norm_wf [simp]: "bt_wf (bt_norm m)"
  by (auto simp: bt_norm_def)

lemma map_of_bt_norm [simp]: "map_of (bt_norm m) = map_of m"
  by (simp add: bt_norm_def map_of_bt_extend)

lemma lists_range_mem_entries: "lists_range (mem_entries P m) P (map_of m)"
proof -
  have "entries_of (filter (\<lambda>e. P (fst e)) (bt_norm m)) P (map_of m)"
    using bt_wf_filter [OF bt_norm_wf [of m]] bt_wf_set [OF bt_norm_wf [of m]]
    by (auto simp: entries_of_def bt_wf_def)
  moreover have "kvs = kvs'" if "map Inr kvs = (map Inr kvs' :: scan_iter)" for kvs kvs'
    using that by (simp add: inj_map_eq_map inj_def)
  ultimately show ?thesis by (auto simp: lists_range_def mem_entries_def)
qed

lemma lists_range_mem_apply:
  "lists_range (mem_entries P (mem_apply b m)) P (apply_batch b (map_of m))"
  using lists_range_mem_entries [of P "mem_apply b m"] by (simp add: map_of_mem_apply)

interpretation mem_reads: slate_reads "mem_get p" "mem_scan p" "mem_scan_prefix p" "mem_view p" for p
proof unfold_locales
  show "mem_get p k s = (r, s') \<Longrightarrow> mem_view p s' = mem_view p s" for k s r s'
    by (auto simp: mem_get_def mem_call_def split: list.splits if_splits)
  show "mem_get p k s = (Inr v, s') \<Longrightarrow> v = mem_view p s k" for k s v s'
    by (auto simp: mem_get_def mem_call_def split: list.splits if_splits)
  show "mem_scan p a b opt s = (r, s') \<Longrightarrow> mem_view p s' = mem_view p s" for a b opt s r s'
    by (auto simp: mem_scan_def mem_call_def split: list.splits if_splits)
  show "mem_scan p a b opt s = (Inr it, s') \<Longrightarrow> lists_range it (\<lambda>k. a \<le> k \<and> k \<le> b) (mem_view p s)"
    for a b opt s it s'
    by (auto simp: mem_scan_def mem_call_def mem_view_def lists_range_mem_entries split: list.splits if_splits)
  show "mem_scan_prefix p pre s = (r, s') \<Longrightarrow> mem_view p s' = mem_view p s" for pre s r s'
    by (auto simp: mem_scan_prefix_def mem_call_def split: list.splits if_splits)
  show "mem_scan_prefix p pre s = (Inr it, s') \<Longrightarrow> lists_range it (prefix pre) (mem_view p s)"
    for pre s it s'
    by (auto simp: mem_scan_prefix_def mem_call_def mem_view_def lists_range_mem_entries
        split: list.splits if_splits)
qed

interpretation mem_tx: slate_tx mem_slatedb mem_view mem_durable mt_path
  "\<lambda>tx. map_of (mt_snapshot tx)" mt_writes
  by unfold_locales
    (auto simp: mem_slatedb_def mem_get_def mem_scan_def mem_scan_prefix_def mem_call_def mem_view_def map_of_mem_apply
      lists_range_mem_entries lists_range_mem_apply split: list.splits if_splits)

end
