(* ===== verification/Chunk_Store.thy ===== *)
theory Chunk_Store
  imports Mem_Db
begin

text \<open>
  The read interface of the chunk manager (\<open>rust/src/chunk_store.rs\<close>): the trait \<open>ChunkStore\<close> as a
  record of operations, its implementations over a SlateDB writer, over a SlateDB reader and over the
  fault injector, and the contract \<open>chunk_store_spec\<close> that the chunk manager relies on. The contract
  is derived for both SlateDB clients from the laws of the database.
\<close>

section \<open>The trait and its implementations\<close>

record 's chunk_store =
  cs_get :: "key \<Rightarrow> ('s, bytes option) io"
  cs_scan_inclusive :: "key \<Rightarrow> key \<Rightarrow> usize \<Rightarrow> ('s, (key \<times> bytes) list) io"
  cs_keys_with_prefix :: "key \<Rightarrow> ('s, key list) io"

definition SCAN_MAX_FETCH_TASKS :: usize where
  "SCAN_MAX_FETCH_TASKS = 4"

definition chunk_scan_options :: "usize \<Rightarrow> scan_options" where
  "chunk_scan_options n =
     \<lparr>read_ahead_bytes = n, max_fetch_tasks = SCAN_MAX_FETCH_TASKS, cache_blocks = True\<rparr>"

text \<open>The loops \<open>while let Some(kv) = iter.next().await?\<close>.\<close>

fun collect_pairs :: "scan_iter \<Rightarrow> (key \<times> bytes) list outcome" where
  "collect_pairs [] = Ok []"
| "collect_pairs (Inl e # it) = Err (from_slatedb_error e)"
| "collect_pairs (Inr kv # it) = o_bind (collect_pairs it) (\<lambda>kvs. Ok (kv # kvs))"

fun collect_keys :: "scan_iter \<Rightarrow> key list outcome" where
  "collect_keys [] = Ok []"
| "collect_keys (Inl e # it) = Err (from_slatedb_error e)"
| "collect_keys (Inr kv # it) = o_bind (collect_keys it) (\<lambda>ks. Ok (fst kv # ks))"

text \<open>The source writes the three operations twice, over \<open>Db\<close> and over \<open>DbReader\<close>, with the same
  bodies; they are written once over the client's calls.\<close>

definition client_chunk_store ::
  "(key \<Rightarrow> 's \<Rightarrow> (slatedb_error + bytes option) \<times> 's)
   \<Rightarrow> (key \<Rightarrow> key \<Rightarrow> scan_options \<Rightarrow> 's \<Rightarrow> (slatedb_error + scan_iter) \<times> 's)
   \<Rightarrow> (key \<Rightarrow> 's \<Rightarrow> (slatedb_error + scan_iter) \<times> 's) \<Rightarrow> 's chunk_store" where
  "client_chunk_store get scan scan_prefix = \<lparr>
     cs_get = (\<lambda>k. slate (get k)),
     cs_scan_inclusive = (\<lambda>first last n.
       io_bind (slate (scan first last (chunk_scan_options n))) (\<lambda>it. io_lift (collect_pairs it))),
     cs_keys_with_prefix = (\<lambda>p.
       io_bind (slate (scan_prefix p)) (\<lambda>it. io_lift (collect_keys it)))\<rparr>"

definition slatedb_chunk_store :: "('s, 'db, 'rd, 'tx) slatedb \<Rightarrow> 'db \<Rightarrow> 's chunk_store" where
  "slatedb_chunk_store S db = client_chunk_store (db_get S db) (db_scan S db) (db_scan_prefix S db)"

definition slatedb_reader_chunk_store :: "('s, 'db, 'rd, 'tx) slatedb \<Rightarrow> 'rd \<Rightarrow> 's chunk_store" where
  "slatedb_reader_chunk_store S rd = client_chunk_store (rd_get S rd) (rd_scan S rd) (rd_scan_prefix S rd)"

text \<open>
  \<open>FaultyChunkStore\<close>: the flag \<open>fail_next\<close> is the second half of the state; \<open>take_fault\<close> swaps it
  out, so one armed fault hits exactly one operation.
\<close>

definition injected_fault :: slatedb_error where
  "injected_fault = \<lparr>kind = Unavailable, text_of = ''injected store fault''\<rparr>"

definition take_fault :: "('s \<times> bool, unit) io" where
  "take_fault = (\<lambda>(s, fail_next).
     if fail_next then (Err (from_slatedb_error injected_fault), (s, False)) else (Ok (), (s, False)))"

definition fail_next_operation :: "'s \<times> bool \<Rightarrow> 's \<times> bool" where
  "fail_next_operation st = (fst st, True)"

definition faulty_chunk_store :: "'s chunk_store \<Rightarrow> ('s \<times> bool) chunk_store" where
  "faulty_chunk_store inner = \<lparr>
     cs_get = (\<lambda>k. io_bind take_fault (\<lambda>_. io_fst (cs_get inner k))),
     cs_scan_inclusive = (\<lambda>first last n.
       io_bind take_fault (\<lambda>_. io_fst (cs_scan_inclusive inner first last n))),
     cs_keys_with_prefix = (\<lambda>p. io_bind take_fault (\<lambda>_. io_fst (cs_keys_with_prefix inner p)))\<rparr>"

lemma collect_pairs_Ok: "collect_pairs it = Ok kvs \<Longrightarrow> it = map Inr kvs"
  by (induction it arbitrary: kvs rule: collect_pairs.induct) (auto simp: o_bind_eq_Ok)

lemma collect_keys_pairs: "collect_keys it = o_bind (collect_pairs it) (\<lambda>kvs. Ok (map fst kvs))"
proof (induction it rule: collect_keys.induct)
  case (3 kv it)
  then show ?case by (cases "collect_pairs it") auto
qed auto

lemma collect_keys_Ok: "collect_keys it = Ok ks \<Longrightarrow> \<exists>kvs. it = map Inr kvs \<and> ks = map fst kvs"
  by (auto simp: collect_keys_pairs o_bind_eq_Ok dest: collect_pairs_Ok)

lemma collect_no_panic [simp]: "collect_pairs it \<noteq> Panic p" "collect_keys it \<noteq> Panic p"
proof -
  show "collect_pairs it \<noteq> Panic p"
    by (induction it rule: collect_pairs.induct) (auto simp: o_bind_def split: outcome.splits)
  show "collect_keys it \<noteq> Panic p"
    by (induction it rule: collect_keys.induct) (auto simp: o_bind_def split: outcome.splits)
qed

section \<open>The contract of a chunk store\<close>

locale chunk_store_spec =
  fixes st :: "'s chunk_store"
    and view :: "'s \<Rightarrow> contents"
  assumes get_keeps: "io_keeps view (cs_get st k)"
    and get_Ok: "cs_get st k s = (Ok v, s') \<Longrightarrow> v = view s k"
    and get_no_panic: "cs_get st k s \<noteq> (Panic p, s')"
    and scan_keeps: "io_keeps view (cs_scan_inclusive st a b n)"
    and scan_Ok: "cs_scan_inclusive st a b n s = (Ok kvs, s') \<Longrightarrow>
      entries_of kvs (\<lambda>k. a \<le> k \<and> k \<le> b) (view s)"
    and scan_no_panic: "cs_scan_inclusive st a b n s \<noteq> (Panic p, s')"
    and keys_keeps: "io_keeps view (cs_keys_with_prefix st q)"
    and keys_Ok: "cs_keys_with_prefix st q s = (Ok ks, s') \<Longrightarrow>
      sorted_wrt (<) ks \<and> set ks = {k \<in> dom (view s). prefix q k}"
    and keys_no_panic: "cs_keys_with_prefix st q s \<noteq> (Panic p, s')"
begin

lemmas store_keeps = get_keeps scan_keeps keys_keeps

lemma get_view: "cs_get st k s = (r, s') \<Longrightarrow> view s' = view s"
  by (rule io_keepsD [OF get_keeps])

lemma keys_view: "cs_keys_with_prefix st q s = (r, s') \<Longrightarrow> view s' = view s"
  by (rule io_keepsD [OF keys_keeps])

lemma get_cases:
  obtains (present) s' where "cs_get st k s = (Ok (view s k), s')" and "view s' = view s"
  | (error) e s' where "cs_get st k s = (Err e, s')" and "view s' = view s"
proof (cases "cs_get st k s")
  case (Pair r s')
  then show ?thesis using that get_view [OF Pair] get_Ok get_no_panic by (cases r) blast+
qed

end

text \<open>The contract holds of the store over any read client that meets the laws of the database.\<close>

sublocale slate_reads \<subseteq> client: chunk_store_spec "client_chunk_store get scan scan_prefix" view
proof unfold_locales
  fix k a b p q n s s' v kvs ks
  let ?st = "client_chunk_store get scan scan_prefix"
  show "io_keeps view (cs_get ?st k)"
    by (simp add: client_chunk_store_def) (rule io_keeps_slate, rule get_view)
  show "io_keeps view (cs_scan_inclusive ?st a b n)"
    by (simp add: client_chunk_store_def) (intro io_keeps_intros io_keeps_slate, rule scan_view)
  show "io_keeps view (cs_keys_with_prefix ?st q)"
    by (simp add: client_chunk_store_def) (intro io_keeps_intros io_keeps_slate, rule scan_prefix_view)
  show "cs_get ?st k s = (Ok v, s') \<Longrightarrow> v = view s k"
    by (auto simp: client_chunk_store_def slate_eq_Ok dest: get_value)
  show "cs_get ?st k s \<noteq> (Panic p, s')"
    by (simp add: client_chunk_store_def)
  show "cs_scan_inclusive ?st a b n s \<noteq> (Panic p, s')"
    by (auto simp: client_chunk_store_def elim!: io_bind_cases)
  show "cs_keys_with_prefix ?st q s \<noteq> (Panic p, s')"
    by (auto simp: client_chunk_store_def elim!: io_bind_cases)
  show "entries_of kvs (\<lambda>k. a \<le> k \<and> k \<le> b) (view s)"
    if "cs_scan_inclusive ?st a b n s = (Ok kvs, s')"
    using that by (auto simp: client_chunk_store_def io_bind_eq_Ok slate_eq_Ok lists_range_def
        dest!: collect_pairs_Ok scan_items)
  show "sorted_wrt (<) ks \<and> set ks = {k \<in> dom (view s). prefix q k}"
    if "cs_keys_with_prefix ?st q s = (Ok ks, s')"
  proof -
    from that obtain it s1 where it: "scan_prefix q s = (Inr it, s1)" and "collect_keys it = Ok ks"
      by (auto simp: client_chunk_store_def io_bind_eq_Ok slate_eq_Ok)
    then obtain kvs where "it = map Inr kvs" and ks: "ks = map fst kvs"
      using collect_keys_Ok by blast
    with scan_prefix_items [OF it] have e: "entries_of kvs (prefix q) (view s)"
      by (simp add: lists_range_def)
    then show ?thesis using entries_of_keys [OF e] ks by (simp add: entries_of_def)
  qed
qed

text \<open>A fault injector in front of a store keeps the contract: it only adds failures.\<close>

context chunk_store_spec
begin

lemma faulty_spec: "chunk_store_spec (faulty_chunk_store st) (\<lambda>x. view (fst x))"
proof unfold_locales
  fix k a b q n p v kvs ks and s s' :: "'s \<times> bool"
  let ?st = "faulty_chunk_store st"
  have tf: "io_keeps (\<lambda>x. view (fst x)) take_fault"
    by (auto simp: io_keeps_def take_fault_def split: prod.splits)
  have zoom: "io_keeps (\<lambda>x. view (fst x)) (io_fst m)" if "io_keeps view m" for m :: "('s, 'x) io"
    using that by (auto simp: io_keeps_def)
  note keeps = io_keeps_bind [OF tf zoom] get_keeps scan_keeps keys_keeps
  show "io_keeps (\<lambda>x. view (fst x)) (cs_get ?st k)"
    and "io_keeps (\<lambda>x. view (fst x)) (cs_scan_inclusive ?st a b n)"
    and "io_keeps (\<lambda>x. view (fst x)) (cs_keys_with_prefix ?st q)"
    by (simp_all add: faulty_chunk_store_def keeps)
  have step: "\<exists>t'. m (fst s) = (r, t') \<and> s' = (t', False)"
    if "io_bind take_fault (\<lambda>_. io_fst m) s = (r, s')" and "\<forall>e. r \<noteq> Err e" for m r
    using that by (cases s) (auto simp: take_fault_def io_bind_def prod_eq_iff split: if_splits)
  show "cs_get ?st k s = (Ok v, s') \<Longrightarrow> v = view (fst s) k"
    by (auto simp: faulty_chunk_store_def dest!: step get_Ok)
  show "cs_get ?st k s \<noteq> (Panic p, s')"
    by (auto simp: faulty_chunk_store_def get_no_panic dest!: step)
  show "cs_scan_inclusive ?st a b n s = (Ok kvs, s') \<Longrightarrow>
      entries_of kvs (\<lambda>k. a \<le> k \<and> k \<le> b) (view (fst s))"
    by (auto simp: faulty_chunk_store_def dest!: step scan_Ok)
  show "cs_scan_inclusive ?st a b n s \<noteq> (Panic p, s')"
    by (auto simp: faulty_chunk_store_def scan_no_panic dest!: step)
  show "cs_keys_with_prefix ?st q s = (Ok ks, s') \<Longrightarrow>
      sorted_wrt (<) ks \<and> set ks = {k \<in> dom (view (fst s)). prefix q k}"
    by (auto simp: faulty_chunk_store_def dest!: step keys_Ok)
  show "cs_keys_with_prefix ?st q s \<noteq> (Panic p, s')"
    by (auto simp: faulty_chunk_store_def keys_no_panic dest!: step)
qed

end

interpretation mem_store: chunk_store_spec "slatedb_chunk_store mem_slatedb db" "mem_view db" for db
  unfolding slatedb_chunk_store_def by (rule mem_tx.rw.client.chunk_store_spec_axioms)

interpretation mem_faulty: chunk_store_spec "faulty_chunk_store (slatedb_chunk_store mem_slatedb db)"
  "\<lambda>x. mem_view db (fst x)" for db
  by (rule mem_store.faulty_spec)

end
