(* ===== verification/Chunk_Manager.thy ===== *)
theory Chunk_Manager
  imports Chunk_Store
begin

text \<open>
  The chunk manager (\<open>rust/src/chunk_manager.rs\<close>): a file's bytes live in chunks of the store, and
  writes and deletions are staged in memory until the next sync. The state is the record
  \<open>chunk_manager\<close>; its operations are written as the source writes them, with every slice index
  checked, so that an out-of-range slice is a panic of the model too.

  The abstraction is \<open>file_byte\<close>, the byte a position of the file holds: the staged chunk if there is
  one, the stored chunk otherwise, zero where no chunk reaches.
\<close>

section \<open>Data\<close>

definition MAX_SCAN_READ_AHEAD_BYTES :: usize where
  "MAX_SCAN_READ_AHEAD_BYTES = 4 * 1024 * 1024"

datatype pending_chunk = Written bytes | Deleted

record chunk_slice =
  chunk_idx :: u64
  buf_offset :: usize
  chunk_offset :: usize
  slice_len :: usize

record 's chunk_manager =
  cm_store :: "'s chunk_store"
  cm_file_id :: u64
  cm_chunk_size :: usize
  cm_chunk_base_offset :: u64
  cm_pending :: "(u64, pending_chunk) btree"

definition chunk_manager_new :: "'s chunk_store \<Rightarrow> u64 \<Rightarrow> usize \<Rightarrow> u64 \<Rightarrow> 's chunk_manager" where
  "chunk_manager_new store file_id chunk_size chunk_base_offset =
     \<lparr>cm_store = store, cm_file_id = file_id, cm_chunk_size = chunk_size,
      cm_chunk_base_offset = chunk_base_offset, cm_pending = []\<rparr>"

definition has_pending_changes :: "'s chunk_manager \<Rightarrow> bool" where
  "has_pending_changes m \<longleftrightarrow> cm_pending m \<noteq> []"

section \<open>Splitting a byte range into chunk slices\<close>

text \<open>
  One round of the loop: the chunk a position lies in, the offset there, and how many bytes of the
  chunk are left. A zero chunk size makes the remainder panic.
\<close>

definition locate_position :: "usize \<Rightarrow> u64 \<Rightarrow> u64 \<Rightarrow> (u64 \<times> usize \<times> usize) outcome" where
  "locate_position chunk_size base position =
     (if position < base then Ok (0, position, base - position)
      else let aligned = position - base in
        if chunk_size = 0
        then Panic ''attempt to calculate the remainder with a divisor of zero''
        else let off = aligned mod chunk_size in
          Ok (u64_add (aligned div chunk_size) (if base \<noteq> 0 then 1 else 0), off, chunk_size - off))"

lemma locate_position_available: "locate_position cs base p = Ok (i, off, avail) \<Longrightarrow> 0 < avail"
  by (auto simp: locate_position_def Let_def split: if_splits)

function split_loop :: "usize \<Rightarrow> u64 \<Rightarrow> usize \<Rightarrow> u64 \<Rightarrow> usize \<Rightarrow> chunk_slice list outcome" where
  "split_loop chunk_size base len offset covered =
     (if covered < len then
        o_bind (locate_position chunk_size base (u64_add offset covered)) (\<lambda>(idx, off, available).
          let n = min (len - covered) available in
          o_bind (split_loop chunk_size base len offset (covered + n)) (\<lambda>slices.
            Ok (\<lparr>chunk_idx = idx, buf_offset = covered, chunk_offset = off, slice_len = n\<rparr> # slices)))
      else Ok [])"
  by pat_completeness auto
termination
  by (relation "measure (\<lambda>(cs, base, len, offset, covered). len - covered)")
    (auto dest!: locate_position_available)

declare split_loop.simps [simp del]

definition split_into_chunks :: "'s chunk_manager \<Rightarrow> usize \<Rightarrow> u64 \<Rightarrow> chunk_slice list outcome" where
  "split_into_chunks m len offset =
     split_loop (cm_chunk_size m) (cm_chunk_base_offset m) len offset 0"

section \<open>Slices of buffers\<close>

definition slice_of :: "'a list \<Rightarrow> nat \<Rightarrow> nat \<Rightarrow> 'a list outcome" where
  "slice_of xs a b =
     (if b < a then Panic ''slice index starts after it ends''
      else if length xs < b then Panic ''range end index out of range for slice''
      else Ok (take (b - a) (drop a xs)))"

text \<open>The buffer is the state: \<open>copy_chunk_into\<close> mutates it in place.\<close>

definition copy_chunk_into :: "chunk_slice \<Rightarrow> bytes \<Rightarrow> (bytes, unit) io" where
  "copy_chunk_into sl chunk =
     (let available = min (saturating_sub (length chunk) (chunk_offset sl)) (slice_len sl) in
      io_bind io_get (\<lambda>buf.
      io_bind (io_lift (slice_of buf (buf_offset sl) (buf_offset sl + available))) (\<lambda>_.
      io_bind (io_lift (slice_of chunk (chunk_offset sl) (chunk_offset sl + available))) (\<lambda>src.
      io_put (overwrite buf (buf_offset sl) src)))))"

section \<open>Reading chunks from the store\<close>

definition scan_read_ahead_bytes :: "u64 \<Rightarrow> u64 \<Rightarrow> usize \<Rightarrow> usize" where
  "scan_read_ahead_bytes first_idx last_idx chunk_size =
     (let chunk_count =
        (case usize_try_from (saturating_add (saturating_sub last_idx first_idx) 1) of
           Some n \<Rightarrow> n | None \<Rightarrow> u64_size - 1)
      in max 1 (min (saturating_mul chunk_count chunk_size) MAX_SCAN_READ_AHEAD_BYTES))"

definition coalesce_step :: "(u64 \<times> u64) list \<Rightarrow> u64 \<Rightarrow> (u64 \<times> u64) list" where
  "coalesce_step groups idx =
     (if groups \<noteq> [] \<and> checked_add (snd (last groups)) 1 = Some idx
      then butlast groups @ [(fst (last groups), idx)]
      else groups @ [(idx, idx)])"

definition coalesce_chunk_indices :: "u64 list \<Rightarrow> (u64 \<times> u64) list" where
  "coalesce_chunk_indices idxs = foldl coalesce_step [] idxs"

definition read_chunk_from_store :: "'s chunk_manager \<Rightarrow> u64 \<Rightarrow> ('s, bytes) io" where
  "read_chunk_from_store m idx =
     io_bind (cs_get (cm_store m) (chunk_key (cm_file_id m) idx)) (\<lambda>chunk.
     io_return (case chunk of Some c \<Rightarrow> c | None \<Rightarrow> []))"

definition chunk_contents :: "'s chunk_manager \<Rightarrow> u64 \<Rightarrow> ('s, bytes) io" where
  "chunk_contents m idx =
     (case map_of (cm_pending m) idx of
        Some (Written chunk) \<Rightarrow> io_return chunk
      | Some Deleted \<Rightarrow> io_return []
      | None \<Rightarrow> read_chunk_from_store m idx)"

text \<open>Decoding the keys of a scan, failing at the first key that does not parse.\<close>

fun parse_entries :: "(key \<times> bytes) list \<Rightarrow> (u64 \<times> bytes) list outcome" where
  "parse_entries [] = Ok []"
| "parse_entries (kv # kvs) =
     o_bind (parse_chunk_idx (fst kv)) (\<lambda>idx.
     o_bind (parse_entries kvs) (\<lambda>rest. Ok ((idx, snd kv) # rest)))"

definition read_chunk_group_from_store ::
  "'s chunk_manager \<Rightarrow> u64 \<times> u64 \<Rightarrow> ('s, (u64 \<times> bytes) list) io" where
  "read_chunk_group_from_store m grp =
     (case grp of (first_idx, last_idx) \<Rightarrow>
       if first_idx = last_idx
       then io_bind (cs_get (cm_store m) (chunk_key (cm_file_id m) first_idx)) (\<lambda>chunk.
            io_return (case chunk of Some c \<Rightarrow> [(first_idx, c)] | None \<Rightarrow> []))
       else io_bind (cs_scan_inclusive (cm_store m)
                       (chunk_key (cm_file_id m) first_idx) (chunk_key (cm_file_id m) last_idx)
                       (scan_read_ahead_bytes first_idx last_idx (cm_chunk_size m)))
              (\<lambda>scanned. io_lift (parse_entries scanned)))"

text \<open>
  \<open>try_join_all\<close> issues the groups concurrently and fails when one fails; the model runs them in
  order. The results are merged into a \<open>BTreeMap\<close>.
\<close>

definition read_chunks_from_store :: "'s chunk_manager \<Rightarrow> u64 list \<Rightarrow> ('s, (u64, bytes) btree) io" where
  "read_chunks_from_store m idxs =
     (if idxs = [] then io_return []
      else io_bind (io_mapM (read_chunk_group_from_store m) (coalesce_chunk_indices idxs))
             (\<lambda>fetched. io_return (bt_extend [] (concat fetched))))"

section \<open>The operations\<close>

subsection \<open>Read\<close>

fun read_pending :: "(u64, pending_chunk) btree \<Rightarrow> chunk_slice list \<Rightarrow> (bytes, chunk_slice list) io" where
  "read_pending pend [] = io_return []"
| "read_pending pend (sl # slices) =
     (case map_of pend (chunk_idx sl) of
        Some (Written chunk) \<Rightarrow> io_bind (copy_chunk_into sl chunk) (\<lambda>_. read_pending pend slices)
      | Some Deleted \<Rightarrow> read_pending pend slices
      | None \<Rightarrow> io_bind (read_pending pend slices) (\<lambda>persisted. io_return (sl # persisted)))"

definition copy_persisted :: "(u64, bytes) btree \<Rightarrow> chunk_slice list \<Rightarrow> (bytes, unit) io" where
  "copy_persisted chunks slices = io_forM slices (\<lambda>sl.
     case map_of chunks (chunk_idx sl) of
       Some chunk \<Rightarrow> copy_chunk_into sl chunk
     | None \<Rightarrow> io_return ())"

definition cm_read :: "'s chunk_manager \<Rightarrow> u64 \<Rightarrow> (bytes \<times> 's, unit) io" where
  "cm_read m offset =
     io_bind io_get (\<lambda>(buf, _).
     io_bind (io_fst (io_put (replicate (length buf) 0))) (\<lambda>_.
     io_bind (io_lift (split_into_chunks m (length buf) offset)) (\<lambda>slices.
     io_bind (io_fst (read_pending (cm_pending m) slices)) (\<lambda>persisted_slices.
     io_bind (io_snd (read_chunks_from_store m (map chunk_idx persisted_slices))) (\<lambda>chunks.
     io_fst (copy_persisted chunks persisted_slices))))))"

subsection \<open>Write\<close>

definition write_slice :: "bytes \<Rightarrow> chunk_slice \<Rightarrow> ('s chunk_manager \<times> 's, unit) io" where
  "write_slice data sl =
     io_bind io_get (\<lambda>(m, _).
       let required_len = chunk_offset sl + slice_len sl in
       io_bind (if chunk_offset sl = 0 \<and> slice_len sl = cm_chunk_size m
                then io_return (replicate (cm_chunk_size m) 0)
                else io_snd (chunk_contents m (chunk_idx sl))) (\<lambda>chunk.
       let chunk = (if length chunk < required_len then resize chunk required_len 0 else chunk) in
       io_bind (io_lift (slice_of chunk (chunk_offset sl) required_len)) (\<lambda>_.
       io_bind (io_lift (slice_of data (buf_offset sl) (buf_offset sl + slice_len sl))) (\<lambda>src.
       io_fst (io_put (m\<lparr>cm_pending :=
         bt_insert (chunk_idx sl) (Written (overwrite chunk (chunk_offset sl) src)) (cm_pending m)\<rparr>))))))"

definition cm_write :: "bytes \<Rightarrow> u64 \<Rightarrow> ('s chunk_manager \<times> 's, unit) io" where
  "cm_write data offset =
     io_bind io_get (\<lambda>(m, _).
     io_bind (io_lift (split_into_chunks m (length data) offset)) (\<lambda>slices.
     io_forM slices (write_slice data)))"

subsection \<open>Truncate\<close>

fun parse_keys_from :: "u64 \<Rightarrow> key list \<Rightarrow> u64 list outcome" where
  "parse_keys_from min_idx [] = Ok []"
| "parse_keys_from min_idx (k # ks) =
     o_bind (parse_chunk_idx k) (\<lambda>idx.
     o_bind (parse_keys_from min_idx ks) (\<lambda>rest. Ok (if min_idx \<le> idx then idx # rest else rest)))"

definition collect_persisted_chunk_indices :: "'s chunk_manager \<Rightarrow> u64 \<Rightarrow> ('s, u64 list) io" where
  "collect_persisted_chunk_indices m min_idx =
     io_bind (cs_keys_with_prefix (cm_store m) (chunk_prefix (cm_file_id m)))
       (\<lambda>ks. io_lift (parse_keys_from min_idx ks))"

definition mark_chunks_deleted :: "u64 list \<Rightarrow> 's chunk_manager \<Rightarrow> 's chunk_manager" where
  "mark_chunks_deleted idxs m =
     m\<lparr>cm_pending := bt_extend (cm_pending m) (map (\<lambda>i. (i, Deleted)) idxs)\<rparr>"

text \<open>The staged chunks after a truncation to a last chunk of a given length.\<close>

definition shorten_pending ::
  "u64 \<Rightarrow> nat \<Rightarrow> bytes option \<Rightarrow> (u64, pending_chunk) btree \<Rightarrow> (u64, pending_chunk) btree" where
  "shorten_pending last_chunk last_len shortened pend =
     (let pend = bt_retain (\<lambda>i. i \<le> last_chunk) pend in
      case map_of pend last_chunk of
        Some (Written chunk) \<Rightarrow>
          if last_len < length chunk
          then bt_insert last_chunk (Written (take last_len chunk)) pend else pend
      | _ \<Rightarrow> (case shortened of
               Some sh \<Rightarrow> bt_insert last_chunk (Written sh) pend
             | None \<Rightarrow> pend))"

definition cm_truncate :: "u64 \<Rightarrow> ('s chunk_manager \<times> 's, unit) io" where
  "cm_truncate new_size =
     io_bind io_get (\<lambda>(m, _).
       if new_size = 0
       then io_bind (io_snd (collect_persisted_chunk_indices m 0)) (\<lambda>chunks_to_delete.
              io_fst (io_put (mark_chunks_deleted chunks_to_delete (m\<lparr>cm_pending := []\<rparr>))))
       else io_bind (io_lift (split_into_chunks m 1 (new_size - 1))) (\<lambda>slices.
         case slices of
           [] \<Rightarrow> io_lift (Panic ''index out of bounds'')
         | last_byte # _ \<Rightarrow>
             let last_chunk = chunk_idx last_byte; last_len = chunk_offset last_byte + 1 in
             io_bind (if map_of (cm_pending m) last_chunk \<noteq> None then io_return None
                      else io_bind (io_snd (read_chunk_from_store m last_chunk)) (\<lambda>persisted.
                        io_return (if last_len < length persisted
                                   then Some (take last_len persisted) else None))) (\<lambda>shortened.
             io_bind (io_snd (collect_persisted_chunk_indices m (u64_add last_chunk 1)))
               (\<lambda>chunks_to_delete.
             io_fst (io_put (mark_chunks_deleted chunks_to_delete
               (m\<lparr>cm_pending := shorten_pending last_chunk last_len shortened (cm_pending m)\<rparr>)))))))"

subsection \<open>Flush\<close>

fun pending_op :: "u64 \<Rightarrow> u64 \<times> pending_chunk \<Rightarrow> batch_op" where
  "pending_op file_id (idx, Written chunk) = BatchPut (chunk_key file_id idx) chunk"
| "pending_op file_id (idx, Deleted) = BatchDelete (chunk_key file_id idx)"

definition add_pending_to_batch :: "'s chunk_manager \<Rightarrow> write_batch \<Rightarrow> write_batch" where
  "add_pending_to_batch m batch = batch @ map (pending_op (cm_file_id m)) (cm_pending m)"

definition mark_flushed :: "'s chunk_manager \<Rightarrow> 's chunk_manager" where
  "mark_flushed m = m\<lparr>cm_pending := []\<rparr>"

end
