(* ===== verification/Chunk_Geometry.thy ===== *)
theory Chunk_Geometry
  imports Chunk_Manager
begin

text \<open>
  Where a file position lives: chunk 0 is short when there is a base offset and holds the bytes
  before it, every other chunk holds \<open>chunk_size\<close> bytes. The lemmas show that \<open>split_into_chunks\<close>
  tiles a byte range with slices of ascending chunks, that the wrapping additions never wrap, and
  that coalescing regroups the chunk indices into maximal runs.
\<close>

section \<open>Positions\<close>

definition chunk_index_of :: "usize \<Rightarrow> u64 \<Rightarrow> u64 \<Rightarrow> u64" where
  "chunk_index_of cs base p =
     (if p < base then 0 else (p - base) div cs + (if base \<noteq> 0 then 1 else 0))"

definition chunk_offset_of :: "usize \<Rightarrow> u64 \<Rightarrow> u64 \<Rightarrow> usize" where
  "chunk_offset_of cs base p = (if p < base then p else (p - base) mod cs)"

definition chunk_capacity :: "usize \<Rightarrow> u64 \<Rightarrow> u64 \<Rightarrow> usize" where
  "chunk_capacity cs base idx = (if base \<noteq> 0 \<and> idx = 0 then base else cs)"

definition geometry :: "usize \<Rightarrow> u64 \<Rightarrow> bool" where
  "geometry cs base \<longleftrightarrow> 0 < cs \<and> base < cs \<and> cs < u64_size"

lemma geometry_pos: "geometry cs base \<Longrightarrow> 0 < cs"
  by (simp add: geometry_def)

lemma chunk_offset_less:
  "geometry cs base \<Longrightarrow> chunk_offset_of cs base p < chunk_capacity cs base (chunk_index_of cs base p)"
  by (auto simp: geometry_def chunk_offset_of_def chunk_capacity_def chunk_index_of_def)

lemma chunk_index_bound:
  assumes "geometry cs base" and "p < u64_size"
  shows "chunk_index_of cs base p < u64_size"
proof (cases "p < base \<or> base = 0")
  case True
  have "p div cs < u64_size" using assms(2) by (rule le_less_trans [OF div_le_dividend])
  with True assms show ?thesis by (auto simp: chunk_index_of_def)
next
  case False
  then have "(p - base) div cs \<le> (p - base) div 2"
    using assms by (intro div_le_mono2) (auto simp: geometry_def)
  with False assms show ?thesis by (auto simp: chunk_index_of_def)
qed

lemma locate_position_eq:
  assumes "geometry cs base" and "p < u64_size"
  shows "locate_position cs base p =
    Ok (chunk_index_of cs base p, chunk_offset_of cs base p,
        chunk_capacity cs base (chunk_index_of cs base p) - chunk_offset_of cs base p)"
  using chunk_index_bound [OF assms] assms
  by (auto simp: locate_position_def chunk_index_of_def chunk_offset_of_def chunk_capacity_def
      geometry_def Let_def u64_simps)

lemma add_inside_block:
  fixes a j c :: nat
  assumes "a mod c + j < c"
  shows "(a + j) div c = a div c" and "(a + j) mod c = a mod c + j"
proof -
  have eq: "a + j = (a mod c + j) + c * (a div c)" by simp
  show "(a + j) div c = a div c" unfolding eq using assms by (subst div_mult_self2) auto
  show "(a + j) mod c = a mod c + j" unfolding eq using assms by (subst mod_mult_self2) auto
qed

lemma same_block_le:
  fixes a b c :: nat
  assumes "a div c = b div c"
  shows "a \<le> b \<longleftrightarrow> a mod c \<le> b mod c"
proof -
  have "a = c * (a div c) + a mod c" by simp
  moreover have "b = c * (a div c) + b mod c" unfolding assms by simp
  ultimately show ?thesis by linarith
qed

text \<open>Moving on inside a chunk, and from its end to the next chunk.\<close>

lemma position_inside:
  assumes "geometry cs base"
    and "j < chunk_capacity cs base (chunk_index_of cs base p) - chunk_offset_of cs base p"
  shows "chunk_index_of cs base (p + j) = chunk_index_of cs base p"
    and "chunk_offset_of cs base (p + j) = chunk_offset_of cs base p + j"
proof -
  have "chunk_index_of cs base (p + j) = chunk_index_of cs base p
    \<and> chunk_offset_of cs base (p + j) = chunk_offset_of cs base p + j"
  proof (cases "p < base")
    case True
    with assms(2) have "p + j < base"
      by (simp add: chunk_capacity_def chunk_index_of_def chunk_offset_of_def split: if_splits)
    with True show ?thesis by (simp add: chunk_index_of_def chunk_offset_of_def)
  next
    case False
    with assms(2) have "(p - base) mod cs + j < cs"
      by (simp add: chunk_capacity_def chunk_index_of_def chunk_offset_of_def split: if_splits)
    moreover have "p + j - base = (p - base) + j" "\<not> p + j < base" using False by auto
    ultimately show ?thesis
      using False add_inside_block [of "p - base" cs j]
      by (simp only: chunk_index_of_def chunk_offset_of_def if_False)
  qed
  then show "chunk_index_of cs base (p + j) = chunk_index_of cs base p"
    and "chunk_offset_of cs base (p + j) = chunk_offset_of cs base p + j" by auto
qed

lemma position_next:
  assumes "geometry cs base"
    and q: "q = p + (chunk_capacity cs base (chunk_index_of cs base p) - chunk_offset_of cs base p)"
  shows "chunk_index_of cs base q = Suc (chunk_index_of cs base p)"
    and "chunk_offset_of cs base q = 0"
proof -
  let ?a = "p - base"
  have "\<not> q < base \<and> (if p < base then q - base = 0 else q - base = (?a div cs + 1) * cs)"
  proof (cases "p < base")
    case True
    with q show ?thesis by (auto simp: chunk_capacity_def chunk_index_of_def chunk_offset_of_def)
  next
    case False
    have "?a = cs * (?a div cs) + ?a mod cs" "?a mod cs < cs"
      using assms by (auto simp: geometry_def)
    then have "?a + (cs - ?a mod cs) = cs * (?a div cs) + cs" by linarith
    then have "?a + (cs - ?a mod cs) = (?a div cs + 1) * cs" by (simp add: mult.commute)
    with False q show ?thesis
      by (auto simp: chunk_capacity_def chunk_index_of_def chunk_offset_of_def)
  qed
  then show "chunk_index_of cs base q = Suc (chunk_index_of cs base p)"
    and "chunk_offset_of cs base q = 0"
    using assms by (auto simp: chunk_index_of_def chunk_offset_of_def geometry_def split: if_splits)
qed

lemma position_unique:
  assumes "geometry cs base"
    and "chunk_index_of cs base p = chunk_index_of cs base q"
    and "chunk_offset_of cs base p = chunk_offset_of cs base q"
  shows "p = q"
proof -
  have "p - base = q - base" if "\<not> p < base" "\<not> q < base"
    using assms(2,3) that by (auto simp: chunk_index_of_def chunk_offset_of_def split: if_splits)
      (metis div_mult_mod_eq)+
  then show ?thesis
    using assms by (auto simp: chunk_index_of_def chunk_offset_of_def not_less split: if_splits)
qed

lemma chunk_index_mono: "geometry cs base \<Longrightarrow> p \<le> q \<Longrightarrow> chunk_index_of cs base p \<le> chunk_index_of cs base q"
  by (auto simp: chunk_index_of_def intro: div_le_mono)

text \<open>Within one chunk, positions are ordered as their offsets.\<close>

lemma same_chunk_order:
  assumes "chunk_index_of cs base p = chunk_index_of cs base q" and "geometry cs base"
  shows "p \<le> q \<longleftrightarrow> chunk_offset_of cs base p \<le> chunk_offset_of cs base q"
proof (cases "p < base \<or> q < base")
  case True
  with assms show ?thesis by (auto simp: chunk_index_of_def chunk_offset_of_def split: if_splits)
next
  case False
  then have "(p - base) div cs = (q - base) div cs"
    using assms(1) by (simp add: chunk_index_of_def split: if_splits)
  then have "p - base \<le> q - base \<longleftrightarrow> (p - base) mod cs \<le> (q - base) mod cs"
    by (rule same_block_le)
  moreover have "p - base \<le> q - base \<longleftrightarrow> p \<le> q" using False by arith
  ultimately show ?thesis using False by (simp only: chunk_offset_of_def if_False de_Morgan_disj)
qed

section \<open>Tilings\<close>

text \<open>
  \<open>tiles cs base offset covered len slices\<close>: the slices cover the bytes \<open>covered .. len\<close> of a
  buffer placed at \<open>offset\<close>, each inside one chunk, in ascending chunk order, and only the first may
  start inside a chunk.
\<close>

fun tiles :: "usize \<Rightarrow> u64 \<Rightarrow> u64 \<Rightarrow> nat \<Rightarrow> nat \<Rightarrow> chunk_slice list \<Rightarrow> bool" where
  "tiles cs base offset covered len [] \<longleftrightarrow> covered = len"
| "tiles cs base offset covered len (sl # slices) \<longleftrightarrow>
     buf_offset sl = covered \<and> 0 < slice_len sl \<and> covered + slice_len sl \<le> len
     \<and> chunk_offset sl + slice_len sl \<le> chunk_capacity cs base (chunk_idx sl)
     \<and> (\<forall>j < slice_len sl.
          chunk_index_of cs base (offset + covered + j) = chunk_idx sl
          \<and> chunk_offset_of cs base (offset + covered + j) = chunk_offset sl + j)
     \<and> (\<forall>t \<in> set slices. chunk_offset t = 0 \<and> chunk_idx sl < chunk_idx t)
     \<and> tiles cs base offset (covered + slice_len sl) len slices"

lemma split_loop_tiles:
  assumes "geometry cs base" and "offset + len \<le> u64_size" and "covered \<le> len"
  shows "\<exists>slices. split_loop cs base len offset covered = Ok slices
    \<and> tiles cs base offset covered len slices
    \<and> (chunk_offset_of cs base (offset + covered) = 0 \<longrightarrow> (\<forall>t \<in> set slices. chunk_offset t = 0))
    \<and> (\<forall>t \<in> set slices. chunk_index_of cs base (offset + covered) \<le> chunk_idx t)"
  using assms
proof (induction cs base len offset covered rule: split_loop.induct)
  case (1 cs base len offset covered)
  show ?case
  proof (cases "covered < len")
    case True
    let ?p = "offset + covered"
    let ?i = "chunk_index_of cs base ?p"
    let ?off = "chunk_offset_of cs base ?p"
    define avail where "avail = chunk_capacity cs base ?i - ?off"
    define n where "n = min (len - covered) avail"
    from True 1 have p: "u64_add offset covered = ?p" "?p < u64_size"
      by (auto simp: u64_simps)
    then have loc: "locate_position cs base (u64_add offset covered) = Ok (?i, ?off, avail)"
      using locate_position_eq 1 by (simp add: avail_def)
    have off: "?off < chunk_capacity cs base ?i" using 1 chunk_offset_less by blast
    have le: "covered + min (len - covered) avail \<le> len" using True by auto
    obtain slices where sl: "split_loop cs base len offset (covered + n) = Ok slices"
      and ti: "tiles cs base offset (covered + n) len slices"
      and off0: "chunk_offset_of cs base (offset + (covered + n)) = 0 \<longrightarrow> (\<forall>t \<in> set slices. chunk_offset t = 0)"
      and asc: "\<forall>t \<in> set slices. chunk_index_of cs base (offset + (covered + n)) \<le> chunk_idx t"
      using 1(1) [OF True loc refl refl n_def] 1(2-4) le by (auto simp: n_def)
    have inside: "chunk_index_of cs base (?p + j) = ?i \<and> chunk_offset_of cs base (?p + j) = ?off + j"
      if "j < n" for j
      using that position_inside [OF 1(2), of j ?p] by (simp add: n_def avail_def)
    have later: "chunk_offset t = 0 \<and> ?i < chunk_idx t" if t: "t \<in> set slices" for t
    proof -
      from ti t have "covered + n < len" by (cases slices) auto
      then have "n = avail" by (auto simp: n_def)
      then show ?thesis
        using position_next [OF 1(2), of "offset + (covered + n)" ?p] off0 asc t
        by (auto simp: avail_def add.assoc)
    qed
    have eq: "split_loop cs base len offset covered =
      Ok (\<lparr>chunk_idx = ?i, buf_offset = covered, chunk_offset = ?off, slice_len = n\<rparr> # slices)"
      using True loc sl by (simp add: split_loop.simps [of cs base len offset covered] n_def)
    have "0 < n" "covered + n \<le> len" "?off + n \<le> chunk_capacity cs base ?i"
      using True off by (auto simp: n_def avail_def)
    moreover have "\<forall>t \<in> set slices. ?i \<le> chunk_idx t" using later less_imp_le by blast
    ultimately show ?thesis using eq ti inside later by auto
  next
    case False
    with 1 show ?thesis by (simp add: split_loop.simps)
  qed
qed

lemma split_into_chunks_tiles:
  assumes "geometry (cm_chunk_size m) (cm_chunk_base_offset m)" and "offset + len \<le> u64_size"
  obtains slices where "split_into_chunks m len offset = Ok slices"
    and "tiles (cm_chunk_size m) (cm_chunk_base_offset m) offset 0 len slices"
  using split_loop_tiles [OF assms, of 0] that by (auto simp: split_into_chunks_def)

text \<open>Consequences of a tiling.\<close>

lemma tiles_ascending: "tiles cs base offset c len slices \<Longrightarrow> sorted_wrt (<) (map chunk_idx slices)"
  by (induction slices arbitrary: c) auto

lemma tiles_cover:
  assumes "tiles cs base offset c len slices" and "c \<le> i" and "i < len"
  shows "\<exists>sl \<in> set slices. buf_offset sl \<le> i \<and> i < buf_offset sl + slice_len sl
    \<and> chunk_index_of cs base (offset + i) = chunk_idx sl
    \<and> chunk_offset_of cs base (offset + i) = chunk_offset sl + (i - buf_offset sl)"
  using assms
proof (induction slices arbitrary: c)
  case (Cons sl slices)
  show ?case
  proof (cases "i < c + slice_len sl")
    case True
    then have "i - c < slice_len sl" "offset + c + (i - c) = offset + i" using Cons.prems by auto
    with Cons.prems True show ?thesis by fastforce
  next
    case False
    with Cons.prems Cons.IH [of "c + slice_len sl"] show ?thesis by auto
  qed
qed simp

lemma tiles_slice:
  assumes "tiles cs base offset c len slices" and "sl \<in> set slices"
  shows "c \<le> buf_offset sl \<and> 0 < slice_len sl \<and> buf_offset sl + slice_len sl \<le> len
    \<and> chunk_offset sl + slice_len sl \<le> chunk_capacity cs base (chunk_idx sl)
    \<and> chunk_idx sl = chunk_index_of cs base (offset + buf_offset sl)
    \<and> chunk_offset sl = chunk_offset_of cs base (offset + buf_offset sl)"
  using assms
proof (induction slices arbitrary: c)
  case (Cons t slices)
  then show ?case
  proof (cases "sl = t")
    case True
    with Cons.prems(1) show ?thesis by (auto dest: spec [of _ 0])
  next
    case False
    with Cons show ?thesis by fastforce
  qed
qed simp

section \<open>Coalescing\<close>

definition run_indices :: "u64 \<times> u64 \<Rightarrow> u64 list" where
  "run_indices g = [fst g ..< Suc (snd g)]"

text \<open>The groups list exactly the indices, in order, and no two neighbours could be merged.\<close>

definition maximal_runs :: "(u64 \<times> u64) list \<Rightarrow> bool" where
  "maximal_runs gs \<longleftrightarrow> (\<forall>g \<in> set gs. fst g \<le> snd g)
     \<and> (\<forall>n. Suc n < length gs \<longrightarrow> Suc (snd (gs ! n)) \<noteq> fst (gs ! Suc n))"

lemma coalesce_step_runs:
  assumes "maximal_runs gs" and "idx < u64_size"
  shows "maximal_runs (coalesce_step gs idx)
    \<and> concat (map run_indices (coalesce_step gs idx)) = concat (map run_indices gs) @ [idx]"
proof (cases gs rule: rev_cases)
  case Nil
  then show ?thesis by (simp add: coalesce_step_def maximal_runs_def run_indices_def)
next
  case (snoc hs g)
  show ?thesis
  proof (cases "checked_add (snd g) 1 = Some idx")
    case True
    then have idx: "idx = Suc (snd g)" by (simp add: u64_simps)
    have le: "fst g \<le> snd g" using assms snoc by (simp add: maximal_runs_def)
    then have "maximal_runs (hs @ [(fst g, idx)])"
      using assms(1) idx snoc unfolding maximal_runs_def
      by (auto simp: nth_append less_Suc_eq split: if_splits)
    with True idx le snoc show ?thesis by (simp add: coalesce_step_def run_indices_def)
  next
    case False
    with assms have "Suc (snd g) \<noteq> idx" by (auto simp: checked_add_def)
    then have "maximal_runs (gs @ [(idx, idx)])"
      using assms(1) snoc unfolding maximal_runs_def by (auto simp: nth_append less_Suc_eq)
    with False snoc show ?thesis by (simp add: coalesce_step_def run_indices_def)
  qed
qed

lemma coalesce_runs:
  assumes "\<forall>i \<in> set idxs. i < u64_size"
  shows "maximal_runs (coalesce_chunk_indices idxs)
    \<and> concat (map run_indices (coalesce_chunk_indices idxs)) = idxs"
  using assms
proof (induction idxs rule: rev_induct)
  case Nil
  then show ?case by (simp add: coalesce_chunk_indices_def maximal_runs_def)
next
  case (snoc i idxs)
  then show ?case
    using coalesce_step_runs [of "coalesce_chunk_indices idxs" i]
    by (simp add: coalesce_chunk_indices_def)
qed

end
