(* ===== verification/Chunk_Manager_Spec.thy ===== *)
theory Chunk_Manager_Spec
  imports Chunk_Geometry
begin

text \<open>
  What the chunk manager does, in terms of the bytes of the file. \<open>file_byte m view p\<close> is the byte at
  position \<open>p\<close> for a manager over a store with the given contents. Inside the contract of the store,
  every operation is characterised by its effect on that function, with its failures: a read returns
  it, a write changes a range of it, a truncation zeroes it from the new size on, a flush moves it
  into the store.
\<close>

section \<open>Abstraction\<close>

definition chunk_at :: "'s chunk_manager \<Rightarrow> contents \<Rightarrow> u64 \<Rightarrow> bytes option" where
  "chunk_at m v idx = (case map_of (cm_pending m) idx of
     Some (Written c) \<Rightarrow> Some c
   | Some Deleted \<Rightarrow> None
   | None \<Rightarrow> v (chunk_key (cm_file_id m) idx))"

definition chunk_byte :: "bytes option \<Rightarrow> nat \<Rightarrow> byte" where
  "chunk_byte c off = (case c of None \<Rightarrow> 0 | Some bs \<Rightarrow> byte_or_zero bs off)"

abbreviation cm_index :: "'s chunk_manager \<Rightarrow> u64 \<Rightarrow> u64" where
  "cm_index m p \<equiv> chunk_index_of (cm_chunk_size m) (cm_chunk_base_offset m) p"

abbreviation cm_offset :: "'s chunk_manager \<Rightarrow> u64 \<Rightarrow> usize" where
  "cm_offset m p \<equiv> chunk_offset_of (cm_chunk_size m) (cm_chunk_base_offset m) p"

definition file_byte :: "'s chunk_manager \<Rightarrow> contents \<Rightarrow> u64 \<Rightarrow> byte" where
  "file_byte m v p = chunk_byte (chunk_at m v (cm_index m p)) (cm_offset m p)"

text \<open>Well-formed managers, and contents whose chunk keys of a file are all chunk keys.\<close>

definition cm_wf :: "'s chunk_manager \<Rightarrow> bool" where
  "cm_wf m \<longleftrightarrow> geometry (cm_chunk_size m) (cm_chunk_base_offset m) \<and> cm_file_id m < u64_size
     \<and> bt_wf (cm_pending m) \<and> (\<forall>i \<in> fst ` set (cm_pending m). i < u64_size)"

definition chunk_keys_ok :: "u64 \<Rightarrow> contents \<Rightarrow> bool" where
  "chunk_keys_ok f v \<longleftrightarrow>
     (\<forall>k \<in> dom v. prefix (chunk_prefix f) k \<longrightarrow> (\<exists>i < u64_size. k = chunk_key f i))"

text \<open>A position can be read when the chunk it lies in is absent or reaches up to it.\<close>

definition readable_at :: "'s chunk_manager \<Rightarrow> contents \<Rightarrow> u64 \<Rightarrow> bool" where
  "readable_at m v p \<longleftrightarrow>
     (\<forall>c. chunk_at m v (cm_index m p) = Some c \<longrightarrow> cm_offset m p \<le> length c)"

lemma chunk_byte_simps [simp]: "chunk_byte None o1 = 0" "chunk_byte (Some c) o1 = byte_or_zero c o1"
  by (simp_all add: chunk_byte_def)

lemma cm_wf_geometry: "cm_wf m \<Longrightarrow> geometry (cm_chunk_size m) (cm_chunk_base_offset m)"
  by (simp add: cm_wf_def)

section \<open>Copying chunks into a buffer\<close>

definition in_slice :: "nat \<Rightarrow> chunk_slice \<Rightarrow> bool" where
  "in_slice j sl \<longleftrightarrow> buf_offset sl \<le> j \<and> j < buf_offset sl + slice_len sl"

definition disjoint_slices :: "chunk_slice list \<Rightarrow> bool" where
  "disjoint_slices = sorted_wrt (\<lambda>a b. buf_offset a + slice_len a \<le> buf_offset b)"

definition copy_opt :: "(chunk_slice \<Rightarrow> bytes option) \<Rightarrow> chunk_slice \<Rightarrow> (bytes, unit) io" where
  "copy_opt g sl = (case g sl of Some c \<Rightarrow> copy_chunk_into sl c | None \<Rightarrow> io_return ())"

lemma tiles_disjoint: "tiles cs base offset c len slices \<Longrightarrow> disjoint_slices slices"
proof (induction slices arbitrary: c)
  case (Cons sl slices)
  then have "tiles cs base offset (c + slice_len sl) len slices" by simp
  with Cons tiles_slice [OF this] show ?case by (auto simp: disjoint_slices_def)
qed (simp add: disjoint_slices_def)

lemma disjoint_slices_unique:
  assumes "disjoint_slices slices" "sl \<in> set slices" "t \<in> set slices" "in_slice j sl" "in_slice j t"
  shows "sl = t"
  using assms
proof (induction slices)
  case (Cons a slices)
  then show ?case by (auto simp: disjoint_slices_def in_slice_def)
qed simp

lemma copy_chunk_into_Ok:
  assumes "buf_offset sl + slice_len sl \<le> length buf" and "chunk_offset sl \<le> length c"
  shows "\<exists>buf'. copy_chunk_into sl c buf = (Ok (), buf') \<and> length buf' = length buf
    \<and> (\<forall>j < length buf. buf' ! j =
         (if in_slice j sl \<and> chunk_offset sl + (j - buf_offset sl) < length c
          then c ! (chunk_offset sl + (j - buf_offset sl)) else buf ! j))"
proof -
  define n where "n = min (length c - chunk_offset sl) (slice_len sl)"
  let ?src = "take n (drop (chunk_offset sl) c)"
  have src: "length ?src = n" by (simp add: n_def)
  have len: "buf_offset sl + length ?src \<le> length buf" using assms by (auto simp: n_def)
  have "copy_chunk_into sl c buf = (Ok (), overwrite buf (buf_offset sl) ?src)"
    using assms len src
    by (auto simp: copy_chunk_into_def slice_of_def saturating_sub_def n_def [symmetric] Let_def)
  moreover have "overwrite buf (buf_offset sl) ?src ! j =
      (if in_slice j sl \<and> chunk_offset sl + (j - buf_offset sl) < length c
       then c ! (chunk_offset sl + (j - buf_offset sl)) else buf ! j)" if "j < length buf" for j
    unfolding nth_overwrite [OF len that] src
    by (auto simp: n_def in_slice_def min_def split: if_splits)
  ultimately show ?thesis using length_overwrite [OF len] by blast
qed

lemma copy_chunk_into_Panic:
  assumes "buf_offset sl \<le> length buf" and "length c < chunk_offset sl"
  shows "copy_chunk_into sl c buf = (Panic ''range end index out of range for slice'', buf)"
  using assms by (simp add: copy_chunk_into_def slice_of_def saturating_sub_def Let_def)

text \<open>
  A loop of copies into disjoint parts of a buffer: it succeeds exactly when no slice starts past the
  end of its chunk, and then every part holds the bytes its chunk has.
\<close>

definition copyable :: "(chunk_slice \<Rightarrow> bytes option) \<Rightarrow> chunk_slice \<Rightarrow> bool" where
  "copyable g sl \<longleftrightarrow> (\<forall>c. g sl = Some c \<longrightarrow> chunk_offset sl \<le> length c)"

definition slice_byte :: "(chunk_slice \<Rightarrow> bytes option) \<Rightarrow> chunk_slice \<Rightarrow> nat \<Rightarrow> byte \<Rightarrow> byte" where
  "slice_byte g sl j b = (case g sl of
     None \<Rightarrow> b
   | Some c \<Rightarrow> if chunk_offset sl + (j - buf_offset sl) < length c
              then c ! (chunk_offset sl + (j - buf_offset sl)) else b)"

lemma copy_loop_Ok:
  assumes "disjoint_slices slices"
    and "\<forall>sl \<in> set slices. buf_offset sl + slice_len sl \<le> length buf"
    and "\<forall>sl \<in> set slices. copyable g sl"
  shows "\<exists>buf'. io_forM slices (copy_opt g) buf = (Ok (), buf') \<and> length buf' = length buf
    \<and> (\<forall>j < length buf. (\<forall>sl \<in> set slices. \<not> in_slice j sl) \<longrightarrow> buf' ! j = buf ! j)
    \<and> (\<forall>sl \<in> set slices. \<forall>j. in_slice j sl \<longrightarrow> buf' ! j = slice_byte g sl j (buf ! j))"
  using assms
proof (induction slices arbitrary: buf)
  case (Cons sl slices)
  have step: "\<exists>b1. copy_opt g sl buf = (Ok (), b1) \<and> length b1 = length buf
      \<and> (\<forall>j < length buf. b1 ! j = (if in_slice j sl then slice_byte g sl j (buf ! j) else buf ! j))"
  proof (cases "g sl")
    case None
    then show ?thesis by (simp add: copy_opt_def slice_byte_def)
  next
    case (Some c)
    with Cons.prems copy_chunk_into_Ok [of sl buf c] show ?thesis
      by (auto simp: copy_opt_def slice_byte_def copyable_def)
  qed
  then obtain b1 where b1: "copy_opt g sl buf = (Ok (), b1)" "length b1 = length buf"
    "\<forall>j < length buf. b1 ! j = (if in_slice j sl then slice_byte g sl j (buf ! j) else buf ! j)"
    by blast
  have "disjoint_slices slices" using Cons.prems(1) by (simp add: disjoint_slices_def)
  then obtain buf' where r: "io_forM slices (copy_opt g) b1 = (Ok (), buf')" "length buf' = length b1"
    "\<forall>j < length b1. (\<forall>t \<in> set slices. \<not> in_slice j t) \<longrightarrow> buf' ! j = b1 ! j"
    "\<forall>t \<in> set slices. \<forall>j. in_slice j t \<longrightarrow> buf' ! j = slice_byte g t j (b1 ! j)"
    using Cons.IH [of b1] Cons.prems b1 by auto
  have apart: "\<not> in_slice j sl" "j < length buf" if "t \<in> set slices" "in_slice j t" for j t
    using Cons.prems that by (fastforce simp: disjoint_slices_def in_slice_def)+
  have own: "j < length buf" "\<forall>t \<in> set slices. \<not> in_slice j t" if "in_slice j sl" for j
    using Cons.prems apart that by (auto simp: in_slice_def)
  have run: "io_forM (sl # slices) (copy_opt g) buf = (Ok (), buf')" using b1 r by simp
  have "buf' ! j = buf ! j" if "j < length buf" "\<forall>t \<in> set (sl # slices). \<not> in_slice j t" for j
    using that b1 r(3) by simp
  moreover have "buf' ! j = slice_byte g sl j (buf ! j)" if "in_slice j sl" for j
    using own [OF that] b1 r(3) that by simp
  moreover have "buf' ! j = slice_byte g t j (buf ! j)" if "t \<in> set slices" "in_slice j t" for t j
    using apart [OF that] b1(3) r(4) that by simp
  ultimately show ?case using run b1(2) r(2) by (metis set_ConsD)
qed simp

lemma copy_loop_Panic:
  assumes "\<forall>sl \<in> set slices. buf_offset sl + slice_len sl \<le> length buf"
    and "sl \<in> set slices" and "\<not> copyable g sl"
  shows "\<exists>p buf'. io_forM slices (copy_opt g) buf = (Panic p, buf') \<and> length buf' = length buf"
  using assms
proof (induction slices arbitrary: buf)
  case (Cons t slices)
  show ?case
  proof (cases "copyable g t")
    case True
    then obtain b1 where "copy_opt g t buf = (Ok (), b1)" "length b1 = length buf"
    proof (cases "g t")
      case (Some c)
      with True Cons.prems copy_chunk_into_Ok [of t buf c] that show ?thesis
        by (auto simp: copy_opt_def copyable_def)
    qed (simp add: copy_opt_def)
    moreover have "sl \<in> set slices" using True Cons.prems by auto
    ultimately show ?thesis using Cons.IH [of b1] Cons.prems by fastforce
  next
    case False
    then obtain c where "g t = Some c" "length c < chunk_offset t" by (auto simp: copyable_def)
    with Cons.prems copy_chunk_into_Panic [of t buf c] show ?thesis by (simp add: copy_opt_def)
  qed
qed simp

lemma read_pending_eq:
  "read_pending pend slices = io_bind
     (io_forM slices (copy_opt (\<lambda>sl. case map_of pend (chunk_idx sl) of Some (Written c) \<Rightarrow> Some c | _ \<Rightarrow> None)))
     (\<lambda>_. io_return (filter (\<lambda>sl. map_of pend (chunk_idx sl) = None) slices))"
proof (induction slices)
  case Nil
  then show ?case by (simp add: fun_eq_iff io_bind_def)
next
  case (Cons sl slices)
  show ?case
  proof (cases "map_of pend (chunk_idx sl)")
    case None
    then show ?thesis by (simp add: Cons.IH io_bind_assoc copy_opt_def del: io_basic_simps)
  next
    case (Some pc)
    then show ?thesis
      by (cases pc) (simp_all add: Cons.IH io_bind_assoc copy_opt_def del: io_basic_simps)
  qed
qed

lemma copy_persisted_eq: "copy_persisted chunks slices = io_forM slices (copy_opt (\<lambda>sl. map_of chunks (chunk_idx sl)))"
  by (simp add: copy_persisted_def copy_opt_def [abs_def])

section \<open>Reading in two phases\<close>

text \<open>The staged chunks are copied first, then the chunks fetched from the store.\<close>

definition staged_slice :: "'s chunk_manager \<Rightarrow> chunk_slice \<Rightarrow> bytes option" where
  "staged_slice m sl = (case map_of (cm_pending m) (chunk_idx sl) of Some (Written c) \<Rightarrow> Some c | _ \<Rightarrow> None)"

lemma cm_read_phases:
  assumes "split_into_chunks m (length buf) offset = Ok slices"
  shows "cm_read m offset (buf, s) =
    (case io_forM slices (copy_opt (staged_slice m)) (replicate (length buf) 0) of
       (Ok _, b1) \<Rightarrow>
         (let ps = filter (\<lambda>sl. map_of (cm_pending m) (chunk_idx sl) = None) slices in
          case read_chunks_from_store m (map chunk_idx ps) s of
            (Ok chunks, s1) \<Rightarrow>
              (case io_forM ps (copy_opt (\<lambda>sl. map_of chunks (chunk_idx sl))) b1 of
                 (r, b2) \<Rightarrow> (r, (b2, s1)))
          | (Err e, s1) \<Rightarrow> (Err e, (b1, s1))
          | (Panic p, s1) \<Rightarrow> (Panic p, (b1, s1)))
     | (Err e, b1) \<Rightarrow> (Err e, (b1, s))
     | (Panic p, b1) \<Rightarrow> (Panic p, (b1, s)))"
  using assms
  by (simp add: cm_read_def read_pending_eq copy_persisted_eq staged_slice_def [abs_def] Let_def)
    (simp add: io_bind_def io_return_def io_fst_def io_snd_def io_put_def split: prod.splits outcome.splits)

text \<open>Only the first slice can start past the end of its chunk.\<close>

lemma readable_slices:
  assumes "tiles (cm_chunk_size m) (cm_chunk_base_offset m) offset 0 n slices" and "0 < n"
  shows "readable_at m v offset \<longleftrightarrow>
    (\<forall>sl \<in> set slices. copyable (\<lambda>sl. chunk_at m v (chunk_idx sl)) sl)"
proof -
  obtain s0 rest where s0: "slices = s0 # rest" using assms by (cases slices) auto
  moreover from this have "chunk_idx s0 = cm_index m offset" "chunk_offset s0 = cm_offset m offset"
    "\<forall>t \<in> set rest. chunk_offset t = 0"
    using assms tiles_slice [OF assms(1), of s0] by auto
  ultimately show ?thesis by (auto simp: readable_at_def copyable_def)
qed

lemma copy_two_phases:
  assumes "disjoint_slices slices"
    and "\<forall>sl \<in> set slices. buf_offset sl + slice_len sl \<le> length buf"
    and b1: "io_forM slices (copy_opt gp) buf = (Ok (), b1)"
    and b2: "io_forM (filter P slices) (copy_opt gq) b1 = (Ok (), b2)"
    and gp: "\<forall>sl \<in> set slices. copyable gp sl" "\<forall>sl \<in> set slices. P sl \<longrightarrow> gp sl = None"
    and gq: "\<forall>sl \<in> set (filter P slices). copyable gq sl"
    and sl: "sl \<in> set slices" "in_slice j sl"
  shows "b2 ! j = slice_byte (\<lambda>sl. if P sl then gq sl else gp sl) sl j (buf ! j)"
proof -
  have j: "j < length buf" using assms(2) sl by (auto simp: in_slice_def)
  obtain c1 where 1: "c1 = b1" "length b1 = length buf"
    "\<forall>sl \<in> set slices. \<forall>j. in_slice j sl \<longrightarrow> b1 ! j = slice_byte gp sl j (buf ! j)"
    using copy_loop_Ok [OF assms(1,2) gp(1)] b1 by auto
  have "disjoint_slices (filter P slices)"
    using assms(1) by (simp add: disjoint_slices_def sorted_wrt_filter)
  then have 2: "\<forall>j < length b1. (\<forall>t \<in> set (filter P slices). \<not> in_slice j t) \<longrightarrow> b2 ! j = b1 ! j"
    "\<forall>t \<in> set (filter P slices). \<forall>j. in_slice j t \<longrightarrow> b2 ! j = slice_byte gq t j (b1 ! j)"
    using copy_loop_Ok [of "filter P slices" b1 gq] assms(2) gq b2 1(2) by auto
  show ?thesis
  proof (cases "P sl")
    case True
    have "b1 ! j = buf ! j" using 1(3) sl gp(2) True by (simp add: slice_byte_def)
    then have "b2 ! j = slice_byte gq sl j (buf ! j)" using True 2(2) sl by simp
    with True show ?thesis by (simp add: slice_byte_def)
  next
    case False
    then have "\<forall>t \<in> set (filter P slices). \<not> in_slice j t"
      using disjoint_slices_unique [OF assms(1) sl(1) _ sl(2)] by auto
    with 1 2(1) sl j False show ?thesis by (simp add: slice_byte_def)
  qed
qed

lemma read_bytes_eq:
  assumes ti: "tiles (cm_chunk_size m) (cm_chunk_base_offset m) offset 0 n slices"
    and "length buf = n"
    and b: "\<And>sl j. sl \<in> set slices \<Longrightarrow> in_slice j sl \<Longrightarrow>
      buf ! j = chunk_byte (chunk_at m v (chunk_idx sl)) (chunk_offset sl + (j - buf_offset sl))"
  shows "buf = map (file_byte m v) [offset ..< offset + n]"
proof (rule nth_equalityI)
  fix j assume "j < length buf"
  then have "j < n" using assms(2) by simp
  with tiles_cover [OF ti, of j] obtain sl where "sl \<in> set slices" "in_slice j sl"
    "cm_index m (offset + j) = chunk_idx sl"
    "cm_offset m (offset + j) = chunk_offset sl + (j - buf_offset sl)"
    by (auto simp: in_slice_def)
  with b \<open>j < n\<close> show "buf ! j = map (file_byte m v) [offset ..< offset + n] ! j"
    by (simp add: file_byte_def)
qed (simp add: assms(2))

text \<open>
  The two phases of a read put together: after the staged chunks were copied, copying the chunks found in the
  store fills the buffer with the bytes of the file, or panics where the first position is not readable.
\<close>

lemma second_phase_result:
  fixes m :: "'s chunk_manager" and chunks :: "(u64, bytes) btree" and v :: contents
  defines "unstaged \<equiv> \<lambda>sl. map_of (cm_pending m) (chunk_idx sl) = None"
    and "found \<equiv> \<lambda>sl. map_of chunks (chunk_idx sl)"
  assumes ti: "tiles (cm_chunk_size m) (cm_chunk_base_offset m) offset 0 n slices" and n: "0 < n"
    and staged: "\<forall>sl \<in> set slices. copyable (staged_slice m) sl"
    and b1: "io_forM slices (copy_opt (staged_slice m)) (replicate n 0) = (Ok (), b1)"
    and lookup: "\<And>sl. sl \<in> set slices \<Longrightarrow> unstaged sl \<Longrightarrow> found sl = v (chunk_key (cm_file_id m) (chunk_idx sl))"
    and b2: "io_forM (filter unstaged slices) (copy_opt found) b1 = (r, b2)"
  shows "length b2 = n \<and> (case r of
      Ok _ \<Rightarrow> readable_at m v offset \<and> b2 = map (file_byte m v) [offset ..< offset + n]
    | Err _ \<Rightarrow> True | Panic _ \<Rightarrow> \<not> readable_at m v offset)"
proof -
  note disj = tiles_disjoint [OF ti]
  have inb: "\<forall>sl \<in> set slices. buf_offset sl + slice_len sl \<le> n" using tiles_slice [OF ti] by simp
  have len1: "length b1 = n" using copy_loop_Ok [OF disj, of "replicate n 0" "staged_slice m"] inb staged b1 by auto
  have g: "copyable (\<lambda>sl. chunk_at m v (chunk_idx sl)) sl
      \<longleftrightarrow> (if unstaged sl then copyable found sl else copyable (staged_slice m) sl)" if "sl \<in> set slices" for sl
    using lookup [OF that]
    by (auto simp: unstaged_def copyable_def chunk_at_def staged_slice_def split: option.splits pending_chunk.splits)
  note readable = readable_slices [OF ti n, of v]
  show ?thesis
  proof (cases "\<forall>sl \<in> set (filter unstaged slices). copyable found sl")
    case False
    then obtain sl where "sl \<in> set (filter unstaged slices)" "\<not> copyable found sl" by blast
    moreover from this have "\<not> readable_at m v offset" using readable g by auto
    ultimately show ?thesis
      using copy_loop_Panic [of "filter unstaged slices" b1 sl found] inb len1 b2 by auto
  next
    case True
    have r: "r = Ok ()" and len2: "length b2 = n"
      using copy_loop_Ok [of "filter unstaged slices" b1 found] True disj inb len1 b2
      by (auto simp: disjoint_slices_def sorted_wrt_filter)
    have "b2 = map (file_byte m v) [offset ..< offset + n]"
    proof (rule read_bytes_eq [OF ti len2])
      fix sl j assume sl: "sl \<in> set slices" "in_slice j sl"
      have "b2 ! j = slice_byte (\<lambda>sl. if unstaged sl then found sl else staged_slice m sl) sl j (replicate n 0 ! j)"
        using copy_two_phases [OF disj _ b1 _ staged, of unstaged found b2] inb b2 True sl r
        by (simp add: staged_slice_def unstaged_def)
      moreover have "j < n" using inb sl by (auto simp: in_slice_def)
      ultimately show "b2 ! j = chunk_byte (chunk_at m v (chunk_idx sl)) (chunk_offset sl + (j - buf_offset sl))"
        using lookup [OF sl(1)]
        by (auto simp: unstaged_def slice_byte_def chunk_at_def staged_slice_def byte_or_zero_def
            split: option.splits pending_chunk.splits)
    qed
    moreover have "readable_at m v offset" using readable g True staged by auto
    ultimately show ?thesis using r len2 by simp
  qed
qed

section \<open>Decoding scans\<close>

lemma parse_entries_chunk_keys:
  assumes "f < u64_size" and "\<forall>i \<in> fst ` set ics. i < u64_size"
  shows "parse_entries (map (\<lambda>(i, c). (chunk_key f i, c)) ics) = Ok ics"
  using assms by (induction ics) (auto simp: parse_chunk_key)

lemma parse_keys_chunk_keys:
  assumes "f < u64_size" and "\<forall>i \<in> set ids. i < u64_size"
  shows "parse_keys_from n (map (chunk_key f) ids) = Ok (filter (\<lambda>i. n \<le> i) ids)"
  using assms by (induction ids) (auto simp: parse_chunk_key)

lemma keys_as_chunk_keys:
  assumes "\<forall>k \<in> set ks. \<exists>i < u64_size. k = chunk_key f i"
  shows "\<exists>ids. ks = map (chunk_key f) ids \<and> (\<forall>i \<in> set ids. i < u64_size)"
  using assms
proof (induction ks)
  case (Cons k ks)
  then obtain ids i where "ks = map (chunk_key f) ids" "\<forall>i \<in> set ids. i < u64_size"
    "i < u64_size" "k = chunk_key f i" by auto
  then show ?case by (intro exI [of _ "i # ids"]) auto
qed simp

lemma entries_as_chunk_keys:
  assumes "\<forall>k \<in> fst ` set kvs. \<exists>i < u64_size. k = chunk_key f i"
  shows "\<exists>ics. kvs = map (\<lambda>(i, c). (chunk_key f i, c)) ics \<and> (\<forall>i \<in> fst ` set ics. i < u64_size)"
  using assms
proof (induction kvs)
  case (Cons kv kvs)
  then obtain ics i where "kvs = map (\<lambda>(i, c). (chunk_key f i, c)) ics" "\<forall>i \<in> fst ` set ics. i < u64_size"
    "i < u64_size" "fst kv = chunk_key f i" by auto
  then show ?case by (intro exI [of _ "(i, snd kv) # ics"]) (auto simp: prod_eq_iff)
qed simp

lemma map_of_graph: "(\<And>k v. (k, v) \<in> set es \<longleftrightarrow> f k = Some v) \<Longrightarrow> map_of es = f"
proof (rule ext)
  fix k
  assume g: "\<And>k v. (k, v) \<in> set es \<longleftrightarrow> f k = Some v"
  show "map_of es k = f k"
  proof (cases "map_of es k")
    case None
    then have "k \<notin> fst ` set es" by (simp add: map_of_eq_None_iff)
    with None g show ?thesis by (metis fst_conv image_eqI not_None_eq)
  next
    case (Some v)
    with g map_of_SomeD [OF Some] show ?thesis by simp
  qed
qed

section \<open>Reading\<close>

context chunk_store_spec
begin

lemma read_group_spec:
  assumes m: "cm_store m = st" "cm_file_id m < u64_size" "chunk_keys_ok (cm_file_id m) (view s)"
    and g: "fst g \<le> snd g" "snd g < u64_size"
    and r: "read_chunk_group_from_store m g s = (r, s')"
  shows "view s' = view s" and "r \<noteq> Panic p"
    and "r = Ok ics \<Longrightarrow> (i, c) \<in> set ics \<longleftrightarrow>
      i \<in> set (run_indices g) \<and> view s (chunk_key (cm_file_id m) i) = Some c"
proof -
  let ?f = "cm_file_id m"
  obtain a b where ab: "g = (a, b)" by (cases g)
  have "view s' = view s \<and> r \<noteq> Panic p \<and> (r = Ok ics \<longrightarrow> ((i, c) \<in> set ics \<longleftrightarrow>
      i \<in> set (run_indices g) \<and> view s (chunk_key ?f i) = Some c))"
  proof (cases "a = b")
    case True
    with r m ab have r': "io_bind (cs_get st (chunk_key ?f b))
        (\<lambda>chunk. io_return (case chunk of Some c \<Rightarrow> [(b, c)] | None \<Rightarrow> [])) s = (r, s')"
      by (simp add: read_chunk_group_from_store_def)
    show ?thesis
    proof (cases rule: get_cases [of "chunk_key ?f b" s])
      case (present s1)
      with r' True ab show ?thesis by (auto simp: run_indices_def split: option.splits)
    next
      case (error e s1)
      with r' show ?thesis by auto
    qed
  next
    case False
    from r m ab False have r': "io_bind (cs_scan_inclusive st (chunk_key ?f a) (chunk_key ?f b)
        (scan_read_ahead_bytes a b (cm_chunk_size m))) (\<lambda>scanned. io_lift (parse_entries scanned)) s = (r, s')"
      by (simp add: read_chunk_group_from_store_def)
    then show ?thesis
    proof (cases rule: io_bind_cases)
      case (ok kvs s1)
      note e = scan_Ok [OF ok(1)]
      have "\<forall>k \<in> fst ` set kvs. \<exists>i < u64_size. k = chunk_key ?f i"
        using e m(3) chunk_range_prefix by (fastforce simp: entries_of_def chunk_keys_ok_def)
      then obtain js where js: "kvs = map (\<lambda>(i, c). (chunk_key ?f i, c)) js"
        "\<forall>i \<in> fst ` set js. i < u64_size" using entries_as_chunk_keys by blast
      with ok m have rr: "r = Ok js" "s' = s1" using parse_entries_chunk_keys by auto
      have "(i, c) \<in> set js \<longleftrightarrow> i < u64_size \<and> (chunk_key ?f i, c) \<in> set kvs"
        using js by (force simp: image_iff)
      also have "\<dots> \<longleftrightarrow> a \<le> i \<and> i \<le> b \<and> view s (chunk_key ?f i) = Some c"
        using e g ab by (auto simp: entries_of_def)
      finally show ?thesis
        using rr ab io_keepsD [OF scan_keeps ok(1)] by (auto simp: run_indices_def)
    next
      case (err e)
      then show ?thesis using io_keepsD [OF scan_keeps] by auto
    next
      case (panic q)
      then show ?thesis using scan_no_panic by blast
    qed
  qed
  then show "view s' = view s" and "r \<noteq> Panic p"
    and "r = Ok ics \<Longrightarrow> (i, c) \<in> set ics \<longleftrightarrow>
      i \<in> set (run_indices g) \<and> view s (chunk_key ?f i) = Some c" by blast+
qed

lemma read_groups_spec:
  assumes m: "cm_store m = st" "cm_file_id m < u64_size" "chunk_keys_ok (cm_file_id m) (view s)"
    and g: "\<forall>g \<in> set gs. fst g \<le> snd g \<and> snd g < u64_size"
    and r: "io_mapM (read_chunk_group_from_store m) gs s = (r, s')"
  shows "view s' = view s \<and> r \<noteq> Panic p
    \<and> (\<forall>fs. r = Ok fs \<longrightarrow> (\<forall>i c. (i, c) \<in> set (concat fs) \<longleftrightarrow>
         i \<in> set (concat (map run_indices gs)) \<and> view s (chunk_key (cm_file_id m) i) = Some c))"
  using g m r
proof (induction gs arbitrary: s r)
  case (Cons g gs)
  note grp = read_group_spec [OF Cons.prems(2,3,4)]
  from Cons.prems(5) have "io_bind (read_chunk_group_from_store m g)
     (\<lambda>y. io_bind (io_mapM (read_chunk_group_from_store m) gs) (\<lambda>ys. io_return (y # ys))) s = (r, s')"
    by simp
  then show ?case
  proof (cases rule: io_bind_cases)
    case (ok y s1)
    have v1: "view s1 = view s" and y: "(i, c) \<in> set y \<longleftrightarrow>
        i \<in> set (run_indices g) \<and> view s (chunk_key (cm_file_id m) i) = Some c" for i c
      using grp(1,3) [OF _ _ ok(1)] Cons.prems(1) by auto
    from ok(2) show ?thesis
    proof (cases rule: io_bind_cases)
      case (ok ys s2)
      have "view s2 = view s \<and> (\<forall>i c. (i, c) \<in> set (concat ys) \<longleftrightarrow>
          i \<in> set (concat (map run_indices gs)) \<and> view s (chunk_key (cm_file_id m) i) = Some c)"
        using Cons.IH [of s1 "Ok ys"] Cons.prems v1 ok by (simp del: set_concat)
      moreover have "r = Ok (y # ys)" "s' = s2" using ok by auto
      ultimately show ?thesis using y
        by (auto simp only: concat.simps list.map set_append Un_iff outcome.inject outcome.distinct)
    next
      case (err e)
      with Cons.IH [of s1 "Err e"] Cons.prems v1 show ?thesis by auto
    next
      case (panic q)
      with Cons.IH [of s1 "Panic q"] Cons.prems v1 show ?thesis by auto
    qed
  next
    case (err e)
    then show ?thesis using grp(1) Cons.prems(1) by auto
  next
    case (panic q)
    then show ?thesis using grp(2) [OF _ _ panic(1), of q] Cons.prems(1) by auto
  qed
qed simp

lemma read_chunks_spec:
  assumes m: "cm_store m = st" "cm_file_id m < u64_size" "chunk_keys_ok (cm_file_id m) (view s)"
    and idx: "\<forall>i \<in> set idxs. i < u64_size"
    and r: "read_chunks_from_store m idxs s = (r, s')"
  shows "view s' = view s" and "r \<noteq> Panic p"
    and "r = Ok chunks \<Longrightarrow> i \<in> set idxs \<Longrightarrow> map_of chunks i = view s (chunk_key (cm_file_id m) i)"
proof -
  let ?gs = "coalesce_chunk_indices idxs"
  let ?v = "\<lambda>i. if i \<in> set idxs then view s (chunk_key (cm_file_id m) i) else None"
  have "view s' = view s \<and> r \<noteq> Panic p \<and> (r = Ok chunks \<longrightarrow> map_of chunks = ?v)"
  proof (cases "idxs = []")
    case True
    with r show ?thesis by (auto simp: read_chunks_from_store_def fun_eq_iff)
  next
    case False
    have runs: "\<forall>g \<in> set ?gs. fst g \<le> snd g" "concat (map run_indices ?gs) = idxs"
      using coalesce_runs [OF idx] by (auto simp: maximal_runs_def)
    moreover have "\<forall>g \<in> set ?gs. snd g < u64_size"
    proof
      fix g assume "g \<in> set ?gs"
      with runs(1) have "snd g \<in> set (concat (map run_indices ?gs))"
        by (auto simp: run_indices_def intro!: bexI [of _ g])
      with runs(2) idx show "snd g < u64_size" by simp
    qed
    ultimately have g: "\<forall>g \<in> set ?gs. fst g \<le> snd g \<and> snd g < u64_size" by blast
    from r False have "io_bind (io_mapM (read_chunk_group_from_store m) ?gs)
      (\<lambda>fetched. io_return (bt_extend [] (concat fetched))) s = (r, s')"
      by (simp add: read_chunks_from_store_def)
    then show ?thesis
    proof (cases rule: io_bind_cases)
      case (ok fs s1)
      have "(i, c) \<in> set (rev (concat fs)) \<longleftrightarrow> ?v i = Some c" for i c
        using read_groups_spec [OF m g ok(1)] runs(2) by auto
      then have "map_of (rev (concat fs)) = ?v" by (rule map_of_graph)
      then show ?thesis using read_groups_spec [OF m g ok(1)] ok(2) by (auto simp: map_of_bt_extend)
    next
      case (err e)
      then show ?thesis using read_groups_spec [OF m g err(1)] by simp
    next
      case (panic q)
      then show ?thesis using read_groups_spec [OF m g panic(1)] by blast
    qed
  qed
  then show "view s' = view s" and "r \<noteq> Panic p"
    and "r = Ok chunks \<Longrightarrow> i \<in> set idxs \<Longrightarrow> map_of chunks i = view s (chunk_key (cm_file_id m) i)"
    by auto
qed

text \<open>
  The result of a read. If the store answers, it is a panic exactly when the first position is not
  readable, and otherwise the buffer holds the bytes of the file.
\<close>

lemma cm_read_cases:
  assumes m: "cm_store m = st" "cm_wf m" "chunk_keys_ok (cm_file_id m) (view s)"
    and len: "0 < length buf" "offset + length buf \<le> u64_size"
    and run: "cm_read m offset (buf, s) = (r, (buf', s'))"
  shows "view s' = view s \<and> length buf' = length buf \<and>
    (case r of
       Ok _ \<Rightarrow> readable_at m (view s) offset \<and>
              buf' = map (file_byte m (view s)) [offset ..< offset + length buf]
     | Err _ \<Rightarrow> True
     | Panic _ \<Rightarrow> \<not> readable_at m (view s) offset)"
proof -
  let ?n = "length buf" and ?z = "replicate (length buf) (0 :: byte)"
  obtain slices where sp: "split_into_chunks m ?n offset = Ok slices"
    and ti: "tiles (cm_chunk_size m) (cm_chunk_base_offset m) offset 0 ?n slices"
    using split_into_chunks_tiles [OF cm_wf_geometry [OF m(2)] len(2)] .
  note disj = tiles_disjoint [OF ti]
  have inb: "\<forall>sl \<in> set slices. buf_offset sl + slice_len sl \<le> ?n" using tiles_slice [OF ti] by simp
  let ?gp = "staged_slice m" and ?none = "\<lambda>sl. map_of (cm_pending m) (chunk_idx sl) = None"
  let ?ps = "filter ?none slices"
  have "chunk_idx sl < u64_size" if "sl \<in> set slices" for sl
    using tiles_slice [OF ti that] len chunk_index_bound [OF cm_wf_geometry [OF m(2)], of "offset + buf_offset sl"]
    by simp
  then have idx: "\<forall>i \<in> set (map chunk_idx ?ps). i < u64_size" by auto
  note un = cm_read_phases [OF sp, of s] readable_slices [OF ti len(1), of "view s"]
  show ?thesis
  proof (cases "\<forall>sl \<in> set slices. copyable ?gp sl")
    case False
    then obtain sl where sl: "sl \<in> set slices" "\<not> copyable ?gp sl" by blast
    then have "\<not> copyable (\<lambda>sl. chunk_at m (view s) (chunk_idx sl)) sl"
      by (auto simp: copyable_def chunk_at_def staged_slice_def split: option.splits pending_chunk.splits)
    with sl copy_loop_Panic [of slices ?z sl ?gp] inb un run show ?thesis by auto
  next
    case True
    then obtain b1 where b1: "io_forM slices (copy_opt ?gp) ?z = (Ok (), b1)" "length b1 = ?n"
      using copy_loop_Ok [OF disj, of ?z ?gp] inb by auto
    obtain q s1 where q: "read_chunks_from_store m (map chunk_idx ?ps) s = (q, s1)" by fastforce
    note rc = read_chunks_spec [OF m(1) _ m(3) idx q]
    have f: "cm_file_id m < u64_size" using m(2) by (simp add: cm_wf_def)
    show ?thesis
    proof (cases q)
      case (Ok chunks)
      obtain b2 r2 where b2: "io_forM ?ps (copy_opt (\<lambda>sl. map_of chunks (chunk_idx sl))) b1 = (r2, b2)" by fastforce
      have st: "r = r2" "s' = s1" "buf' = b2" using run un b1 q Ok b2 by auto
      have "map_of chunks (chunk_idx sl) = view s (chunk_key (cm_file_id m) (chunk_idx sl))"
        if "sl \<in> set slices" "?none sl" for sl
        using rc(3) [OF f Ok] that by auto
      from second_phase_result [OF ti len(1) True b1(1) this b2] st rc(1) [OF f] show ?thesis by (cases r2) auto
    next
      case (Err e)
      then show ?thesis using rc(1) [OF f] run un b1 q by auto
    next
      case (Panic e)
      then show ?thesis using rc(2) [OF f, of e] by blast
    qed
  qed
qed

end

end
