(* ===== verification/Chunk_Manager_Updates.thy ===== *)
theory Chunk_Manager_Updates
  imports Chunk_Manager_Spec
begin

text \<open>
  The operations of the chunk manager that stage changes: write, truncate and flush. A write that
  fails part way has staged a prefix of its data; a truncation that fails has changed nothing; the
  batch of a flush puts exactly the staged chunks into the store.
\<close>

section \<open>Frames\<close>

text \<open>What no operation changes of a manager.\<close>

definition same_file :: "'s chunk_manager \<Rightarrow> 's chunk_manager \<Rightarrow> bool" where
  "same_file m m' \<longleftrightarrow> cm_store m' = cm_store m \<and> cm_file_id m' = cm_file_id m
     \<and> cm_chunk_size m' = cm_chunk_size m \<and> cm_chunk_base_offset m' = cm_chunk_base_offset m"

lemma same_file_refl [simp]: "same_file m m"
  by (simp add: same_file_def)

lemma same_file_trans: "same_file m m' \<Longrightarrow> same_file m' m'' \<Longrightarrow> same_file m m''"
  by (simp add: same_file_def)

lemma same_file_pending [simp]: "same_file m (m\<lparr>cm_pending := p\<rparr>)"
  by (simp add: same_file_def)

lemma cm_wf_pending_insert:
  "cm_wf m \<Longrightarrow> i < u64_size \<Longrightarrow> cm_wf (m\<lparr>cm_pending := bt_insert i pc (cm_pending m)\<rparr>)"
  by (auto simp: cm_wf_def fst_set_bt_insert)

lemma chunk_at_insert:
  "chunk_at (m\<lparr>cm_pending := bt_insert i pc (cm_pending m)\<rparr>) v j =
     (if j = i then (case pc of Written c \<Rightarrow> Some c | Deleted \<Rightarrow> None) else chunk_at m v j)"
  by (auto simp: chunk_at_def split: pending_chunk.splits option.splits)

text \<open>A position is covered when its chunk exists and reaches beyond it; it can then be read.\<close>

definition covered :: "'s chunk_manager \<Rightarrow> contents \<Rightarrow> u64 \<Rightarrow> bool" where
  "covered m v p \<longleftrightarrow> (case chunk_at m v (cm_index m p) of None \<Rightarrow> False | Some c \<Rightarrow> cm_offset m p < length c)"

lemma covered_iff: "covered m v p \<longleftrightarrow> (\<exists>c. chunk_at m v (cm_index m p) = Some c \<and> cm_offset m p < length c)"
  by (auto simp: covered_def split: option.splits)

lemma covered_readable: "covered m v p \<Longrightarrow> readable_at m v p"
  by (auto simp: covered_iff readable_at_def)

lemma covered_insert:
  "covered (m\<lparr>cm_pending := bt_insert i (Written c) (cm_pending m)\<rparr>) v p \<longleftrightarrow>
     (if cm_index m p = i then cm_offset m p < length c else covered m v p)"
  by (auto simp: covered_iff chunk_at_insert)

section \<open>Writing one slice\<close>

definition patched :: "bytes option \<Rightarrow> nat \<Rightarrow> bytes \<Rightarrow> bytes" where
  "patched old off src =
     (let c = (case old of None \<Rightarrow> [] | Some c \<Rightarrow> c); n = off + length src;
          c' = (if length c < n then resize c n 0 else c)
      in overwrite c' off src)"

lemma chunk_byte_patched:
  "chunk_byte (Some (patched old off src)) j =
     (if off \<le> j \<and> j < off + length src then src ! (j - off) else chunk_byte old j)"
  by (cases old) (auto simp: patched_def Let_def byte_or_zero_overwrite byte_or_zero_resize)

lemma length_patched:
  "length (patched old off src) =
     max (off + length src) (case old of None \<Rightarrow> 0 | Some c \<Rightarrow> length c)"
  by (cases old) (auto simp: patched_def Let_def max_def)

text \<open>Where a write to one chunk lands in the file.\<close>

lemma file_byte_patch:
  assumes g: "geometry (cm_chunk_size m) (cm_chunk_base_offset m)"
    and tile: "\<forall>j < length src. cm_index m (p0 + j) = i \<and> cm_offset m (p0 + j) = off + j"
    and src: "0 < length src"
    and c: "\<And>j. j < chunk_capacity (cm_chunk_size m) (cm_chunk_base_offset m) i \<Longrightarrow>
      byte_or_zero c j = (if off \<le> j \<and> j < off + length src then src ! (j - off)
                          else chunk_byte (chunk_at m v i) j)"
  shows "file_byte (m\<lparr>cm_pending := bt_insert i (Written c) (cm_pending m)\<rparr>) v p =
    (if p0 \<le> p \<and> p < p0 + length src then src ! (p - p0) else file_byte m v p)"
proof (cases "cm_index m p = i")
  case True
  have o0: "cm_index m p0 = i" "cm_offset m p0 = off" using tile src by (auto dest: spec [of _ 0])
  have bytes: "file_byte (m\<lparr>cm_pending := bt_insert i (Written c) (cm_pending m)\<rparr>) v p =
     (if off \<le> cm_offset m p \<and> cm_offset m p < off + length src
      then src ! (cm_offset m p - off) else file_byte m v p)"
    using True c [of "cm_offset m p"] chunk_offset_less [OF g, of p]
    by (simp add: file_byte_def chunk_at_insert)
  have le: "off \<le> cm_offset m p \<longleftrightarrow> p0 \<le> p" using same_chunk_order [OF _ g, of p0 p] True o0 by simp
  show ?thesis
  proof (cases "p0 \<le> p \<and> p < p0 + length src")
    case in_range: True
    then have "p - p0 < length src" "p0 + (p - p0) = p" by linarith+
    then have "cm_offset m p = off + (p - p0)" using tile [rule_format, of "p - p0"] by simp
    with \<open>p - p0 < length src\<close> have "off \<le> cm_offset m p" "cm_offset m p < off + length src"
      "cm_offset m p - off = p - p0" by linarith+
    with in_range show ?thesis unfolding bytes by simp
  next
    case False
    have "\<not> (off \<le> cm_offset m p \<and> cm_offset m p < off + length src)"
    proof
      assume a: "off \<le> cm_offset m p \<and> cm_offset m p < off + length src"
      then have "cm_offset m (p0 + (cm_offset m p - off)) = cm_offset m p"
        "cm_index m (p0 + (cm_offset m p - off)) = cm_index m p"
        using tile [rule_format, of "cm_offset m p - off"] True by auto
      then have "p = p0 + (cm_offset m p - off)" using position_unique [OF g] by metis
      with False a show False by linarith
    qed
    with False show ?thesis unfolding bytes by (simp only: if_False)
  qed
next
  case False
  then have "\<not> (p0 \<le> p \<and> p < p0 + length src)"
    using tile [rule_format, of "p - p0"] less_diff_conv2 [of p0 p "length src"] by (auto simp: add.commute)
  with False show ?thesis by (auto simp: file_byte_def chunk_at_insert)
qed

text \<open>
  Staging the chunk of one slice, which starts at position \<open>a\<close> of the file: the positions of the slice show
  the data, every other one what it showed, and whatever was covered stays so.
\<close>

lemma staged_slice_effect:
  fixes m :: "'s chunk_manager" and v :: contents and sl :: chunk_slice and ch :: bytes
  defines "m1 \<equiv> m\<lparr>cm_pending := bt_insert (chunk_idx sl) (Written ch) (cm_pending m)\<rparr>"
    and "capacity \<equiv> chunk_capacity (cm_chunk_size m) (cm_chunk_base_offset m) (chunk_idx sl)"
  assumes g: "geometry (cm_chunk_size m) (cm_chunk_base_offset m)"
    and src: "0 < slice_len sl" "length src = slice_len sl"
    and pos: "\<And>j. j < slice_len sl \<Longrightarrow> cm_index m (a + j) = chunk_idx sl \<and> cm_offset m (a + j) = chunk_offset sl + j"
    and bytes: "\<And>j. j < capacity \<Longrightarrow> byte_or_zero ch j =
      (if chunk_offset sl \<le> j \<and> j < chunk_offset sl + slice_len sl then src ! (j - chunk_offset sl)
       else chunk_byte (chunk_at m v (chunk_idx sl)) j)"
    and len: "\<And>j. j < capacity \<Longrightarrow> j < chunk_offset sl + slice_len sl
      \<or> (\<exists>b. chunk_at m v (chunk_idx sl) = Some b \<and> j < length b) \<Longrightarrow> j < length ch"
  shows "file_byte m1 v p = (if a \<le> p \<and> p < a + slice_len sl then src ! (p - a) else file_byte m v p)"
    and "covered m v p \<or> (a \<le> p \<and> p < a + slice_len sl) \<Longrightarrow> covered m1 v p"
proof -
  show "file_byte m1 v p = (if a \<le> p \<and> p < a + slice_len sl then src ! (p - a) else file_byte m v p)"
    using file_byte_patch [OF g, of src a "chunk_idx sl" "chunk_offset sl" ch v p] src pos bytes
    unfolding m1_def capacity_def by simp
  show "covered m1 v p" if c: "covered m v p \<or> (a \<le> p \<and> p < a + slice_len sl)"
  proof (cases "cm_index m p = chunk_idx sl")
    case True
    have "p - a < slice_len sl" if "a \<le> p" "p < a + slice_len sl" using that by linarith
    then have "cm_offset m p < chunk_offset sl + slice_len sl
        \<or> (\<exists>b. chunk_at m v (chunk_idx sl) = Some b \<and> cm_offset m p < length b)"
      using c True pos [of "p - a"] by (auto simp: covered_iff)
    with True chunk_offset_less [OF g, of p] len show ?thesis by (simp add: m1_def capacity_def covered_insert)
  next
    case False
    then have "\<not> (a \<le> p \<and> p < a + slice_len sl)" using pos [of "p - a"] by fastforce
    with False c show ?thesis by (auto simp: m1_def covered_insert)
  qed
qed

context chunk_store_spec
begin

lemma chunk_contents_cases:
  assumes "cm_store m = st"
  obtains (present) s' where "view s' = view s"
      and "chunk_contents m i s = (Ok (case chunk_at m (view s) i of None \<Rightarrow> [] | Some c \<Rightarrow> c), s')"
  | (error) e s' where "view s' = view s" and "chunk_contents m i s = (Err e, s')"
proof (cases "map_of (cm_pending m) i")
  case (Some pc)
  then have "chunk_contents m i s = (Ok (case chunk_at m (view s) i of None \<Rightarrow> [] | Some c \<Rightarrow> c), s)"
    by (cases pc) (simp_all add: chunk_contents_def chunk_at_def)
  with that(1) show ?thesis by blast
next
  case None
  show ?thesis
  proof (cases rule: get_cases [of "chunk_key (cm_file_id m) i" s])
    case (present s')
    with None assms that(1) [of s'] show ?thesis
      by (simp add: chunk_contents_def chunk_at_def read_chunk_from_store_def)
  next
    case (error e s')
    with None assms that(2) [of s' e] show ?thesis
      by (simp add: chunk_contents_def read_chunk_from_store_def)
  qed
qed

text \<open>One round of the write loop: it fails with the manager unchanged, or stages one chunk.\<close>

lemma write_slice_cases:
  assumes m: "cm_store m = st" "cm_wf m"
    and sl: "chunk_idx sl < u64_size" "0 < slice_len sl" "buf_offset sl + slice_len sl \<le> length data"
    and cap: "chunk_offset sl + slice_len sl \<le> chunk_capacity (cm_chunk_size m) (cm_chunk_base_offset m) (chunk_idx sl)"
  obtains (error) e s' where "write_slice data sl (m, s) = (Err e, (m, s'))" and "view s' = view s"
  | (staged) c s' where "view s' = view s"
      and "write_slice data sl (m, s) =
        (Ok (), (m\<lparr>cm_pending := bt_insert (chunk_idx sl) (Written c) (cm_pending m)\<rparr>, s'))"
      and "\<And>j. j < chunk_capacity (cm_chunk_size m) (cm_chunk_base_offset m) (chunk_idx sl) \<Longrightarrow>
        byte_or_zero c j =
          (if chunk_offset sl \<le> j \<and> j < chunk_offset sl + slice_len sl
           then data ! (buf_offset sl + (j - chunk_offset sl))
           else chunk_byte (chunk_at m (view s) (chunk_idx sl)) j)"
      and "\<And>j. j < chunk_capacity (cm_chunk_size m) (cm_chunk_base_offset m) (chunk_idx sl) \<Longrightarrow>
        j < chunk_offset sl + slice_len sl \<or> (\<exists>b. chunk_at m (view s) (chunk_idx sl) = Some b \<and> j < length b) \<Longrightarrow>
        j < length c"
proof -
  define src where "src = take (slice_len sl) (drop (buf_offset sl) data)"
  let ?whole = "chunk_offset sl = 0 \<and> slice_len sl = cm_chunk_size m"
  let ?old = "if ?whole then None else chunk_at m (view s) (chunk_idx sl)"
  let ?c = "patched ?old (chunk_offset sl) src"
  have src: "length src = slice_len sl" "\<And>j. j < slice_len sl \<Longrightarrow> src ! j = data ! (buf_offset sl + j)"
    using sl by (auto simp: src_def)
  have bytes: "byte_or_zero ?c j = (if chunk_offset sl \<le> j \<and> j < chunk_offset sl + slice_len sl
           then data ! (buf_offset sl + (j - chunk_offset sl))
           else chunk_byte (chunk_at m (view s) (chunk_idx sl)) j)"
    if "j < chunk_capacity (cm_chunk_size m) (cm_chunk_base_offset m) (chunk_idx sl)" for j
    using chunk_byte_patched [of ?old "chunk_offset sl" src j] src that cap cm_wf_geometry [OF m(2)]
    by (auto simp: chunk_capacity_def geometry_def split: if_splits)
  have len: "j < length ?c"
    if "j < chunk_capacity (cm_chunk_size m) (cm_chunk_base_offset m) (chunk_idx sl)"
      "j < chunk_offset sl + slice_len sl \<or> (\<exists>b. chunk_at m (view s) (chunk_idx sl) = Some b \<and> j < length b)" for j
    using that cap cm_wf_geometry [OF m(2)]
    by (auto simp: length_patched src chunk_capacity_def geometry_def max_def split: if_splits)
  have step: "write_slice data sl (m, s) =
      (Ok (), (m\<lparr>cm_pending := bt_insert (chunk_idx sl) (Written ?c) (cm_pending m)\<rparr>, s'))"
    if "(if ?whole then io_return (replicate (cm_chunk_size m) 0) else io_snd (chunk_contents m (chunk_idx sl))) (m, s)
      = (Ok (if ?whole then replicate (cm_chunk_size m) 0 else (case chunk_at m (view s) (chunk_idx sl) of None \<Rightarrow> [] | Some c \<Rightarrow> c)), (m, s'))" for s'
    using that sl src
    by (auto simp: write_slice_def Let_def slice_of_def patched_def src_def [symmetric] resize_def)
  show ?thesis
  proof (cases ?whole)
    case True
    then have "write_slice data sl (m, s) =
      (Ok (), (m\<lparr>cm_pending := bt_insert (chunk_idx sl) (Written ?c) (cm_pending m)\<rparr>, s))"
      by (intro step) simp
    then show ?thesis by (rule staged [OF refl _ bytes len])
  next
    case False
    from m(1) show ?thesis
    proof (cases rule: chunk_contents_cases [where s = s and i = "chunk_idx sl"])
      case (present s')
      with False have "write_slice data sl (m, s) =
        (Ok (), (m\<lparr>cm_pending := bt_insert (chunk_idx sl) (Written ?c) (cm_pending m)\<rparr>, s'))"
        by (intro step) auto
      then show ?thesis by (rule staged [OF present(1) _ bytes len])
    next
      case (error e s')
      with False show ?thesis using that(1) [of e s'] by (simp add: write_slice_def Let_def)
    qed
  qed
qed

text \<open>
  The write loop. Whatever happens, the bytes of a prefix of the slices are staged and the rest of
  the file is as before; the prefix is everything when the write succeeds, and not
  empty when anything was staged.
\<close>

lemma write_loop_spec:
  assumes run: "io_forM slices (write_slice data) (m, s) = (r, (m', s'))"
    and m: "cm_store m = st" "cm_wf m"
    and ti: "tiles (cm_chunk_size m) (cm_chunk_base_offset m) offset c (length data) slices"
    and idx: "\<forall>sl \<in> set slices. chunk_idx sl < u64_size"
  shows "view s' = view s \<and> cm_wf m' \<and> same_file m m' \<and> (\<forall>p. r \<noteq> Panic p) \<and>
    (\<exists>n. c \<le> n \<and> n \<le> length data \<and> (r = Ok () \<longrightarrow> n = length data) \<and> (n = c \<longrightarrow> m' = m) \<and>
      (\<forall>p. file_byte m' (view s) p =
         (if offset + c \<le> p \<and> p < offset + n then data ! (p - offset) else file_byte m (view s) p)) \<and>
      (\<forall>p. covered m (view s) p \<or> (offset + c \<le> p \<and> p < offset + n) \<longrightarrow> covered m' (view s) p))"
  using run m ti idx
proof (induction slices arbitrary: m s c)
  case Nil
  then show ?case by (auto intro!: exI [of _ "length data"])
next
  case (Cons sl slices)
  note ti = Cons.prems(4)
  note tile = tiles_slice [OF ti, of sl, simplified]
  have g: "geometry (cm_chunk_size m) (cm_chunk_base_offset m)" by (rule cm_wf_geometry [OF Cons.prems(3)])
  have sl: "chunk_idx sl < u64_size" "0 < slice_len sl" "buf_offset sl + slice_len sl \<le> length data"
    and cap: "chunk_offset sl + slice_len sl \<le> chunk_capacity (cm_chunk_size m) (cm_chunk_base_offset m) (chunk_idx sl)"
    and c: "buf_offset sl = c" "c + slice_len sl \<le> length data"
    using tile Cons.prems(4,5) by auto
  show ?case
  proof (cases rule: write_slice_cases [OF Cons.prems(2,3) sl cap, of s, case_names error staged])
    case (error e s1)
    with Cons.prems show ?thesis by (auto intro!: exI [of _ c])
  next
    case (staged ch s1)
    let ?m1 = "m\<lparr>cm_pending := bt_insert (chunk_idx sl) (Written ch) (cm_pending m)\<rparr>"
    let ?src = "take (slice_len sl) (drop c data)"
    have src: "length ?src = slice_len sl" using c by simp
    have wf1: "cm_wf ?m1" using Cons.prems(3) sl by (rule_tac cm_wf_pending_insert) auto
    have pos: "cm_index m (offset + c + j) = chunk_idx sl \<and> cm_offset m (offset + c + j) = chunk_offset sl + j"
      if "j < slice_len sl" for j
      using position_inside [OF g, of j "offset + c"] tile c that cap by (auto simp: add.assoc)
    have staged_bytes: "byte_or_zero ch j =
        (if chunk_offset sl \<le> j \<and> j < chunk_offset sl + slice_len sl then ?src ! (j - chunk_offset sl)
         else chunk_byte (chunk_at m (view s) (chunk_idx sl)) j)"
      if "j < chunk_capacity (cm_chunk_size m) (cm_chunk_base_offset m) (chunk_idx sl)" for j
      using staged(3) [OF that] c by auto
    note effect = staged_slice_effect [OF g sl(2) src pos staged_bytes staged(4)]
    have byte1: "file_byte ?m1 (view s) p =
        (if offset + c \<le> p \<and> p < offset + c + slice_len sl then data ! (p - offset)
         else file_byte m (view s) p)" for p
      using effect(1) [of p] c by auto
    note cov1 = effect(2)
    from Cons.prems(1) staged have "io_forM slices (write_slice data) (?m1, s1) = (r, (m', s'))" by simp
    from Cons.IH [OF this _ wf1, of "c + slice_len sl"] Cons.prems staged(1) c
    obtain n where *: "view s' = view s" "cm_wf m'" "same_file ?m1 m'" "\<forall>p. r \<noteq> Panic p"
      "c + slice_len sl \<le> n" "n \<le> length data" "r = Ok () \<longrightarrow> n = length data"
      "\<forall>p. file_byte m' (view s) p = (if offset + (c + slice_len sl) \<le> p \<and> p < offset + n
         then data ! (p - offset) else file_byte ?m1 (view s) p)"
      and cov: "\<forall>p. covered ?m1 (view s) p \<or> (offset + (c + slice_len sl) \<le> p \<and> p < offset + n)
         \<longrightarrow> covered m' (view s) p"
      by auto
    then have bytes: "\<forall>p. file_byte m' (view s) p = (if offset + c \<le> p \<and> p < offset + n
         then data ! (p - offset) else file_byte m (view s) p)"
      using byte1 by auto
    have cov': "\<forall>p. covered m (view s) p \<or> (offset + c \<le> p \<and> p < offset + n) \<longrightarrow> covered m' (view s) p"
    proof (intro allI impI)
      fix p assume "covered m (view s) p \<or> (offset + c \<le> p \<and> p < offset + n)"
      then show "covered m' (view s) p"
        using cov1 [of p] cov [rule_format, of p] by (cases "p < offset + c + slice_len sl") auto
    qed
    have "c \<le> n" "n = c \<longrightarrow> m' = m" using *(5) sl(2) by simp_all
    moreover have "same_file m m'" using *(3) by (simp add: same_file_def)
    ultimately show ?thesis using *(1,2,4,6,7) bytes cov' by blast
  qed
qed

lemma cm_write_spec:
  assumes run: "cm_write data offset (m, s) = (r, (m', s'))"
    and m: "cm_store m = st" "cm_wf m" and len: "offset + length data \<le> u64_size"
  shows "view s' = view s \<and> cm_wf m' \<and> same_file m m' \<and> (\<forall>p. r \<noteq> Panic p) \<and>
    (\<exists>n \<le> length data. (r = Ok () \<longrightarrow> n = length data) \<and> (n = 0 \<longrightarrow> m' = m) \<and>
      (\<forall>p. file_byte m' (view s) p =
         (if offset \<le> p \<and> p < offset + n then data ! (p - offset) else file_byte m (view s) p)) \<and>
      (\<forall>p. covered m (view s) p \<or> (offset \<le> p \<and> p < offset + n) \<longrightarrow> covered m' (view s) p))"
proof -
  note g = cm_wf_geometry [OF m(2)]
  obtain slices where sp: "split_into_chunks m (length data) offset = Ok slices"
    and ti: "tiles (cm_chunk_size m) (cm_chunk_base_offset m) offset 0 (length data) slices"
    using split_into_chunks_tiles [OF g len] .
  have "chunk_idx sl < u64_size" if "sl \<in> set slices" for sl
    using tiles_slice [OF ti that] len chunk_index_bound [OF g, of "offset + buf_offset sl"] by simp
  moreover have "io_forM slices (write_slice data) (m, s) = (r, (m', s'))"
    using run sp by (simp add: cm_write_def)
  ultimately show ?thesis using write_loop_spec [OF _ m ti] by fastforce
qed

end

section \<open>Truncating\<close>

text \<open>The effect of a truncation on the chunks.\<close>

definition truncated_chunk :: "'s chunk_manager \<Rightarrow> contents \<Rightarrow> u64 \<Rightarrow> u64 \<Rightarrow> bytes option" where
  "truncated_chunk m v n i =
     (if n = 0 \<or> cm_index m (n - 1) < i then None
      else if i = cm_index m (n - 1) then map_option (take (cm_offset m (n - 1) + 1)) (chunk_at m v i)
      else chunk_at m v i)"

lemma chunk_index_le: "geometry cs base \<Longrightarrow> chunk_index_of cs base p \<le> p"
proof -
  assume g: "geometry cs base"
  show ?thesis
  proof (cases "p < base \<or> base = 0")
    case False
    then have "2 \<le> cs" using g by (auto simp: geometry_def)
    then have "(p - base) div cs \<le> (p - base) div 2" by (simp add: div_le_mono2)
    moreover have "Suc ((p - base) div 2) \<le> p" using False by linarith
    ultimately show ?thesis using False by (simp add: chunk_index_of_def)
  qed (auto simp: chunk_index_of_def)
qed

lemma truncated_bytes:
  assumes g: "geometry (cm_chunk_size m) (cm_chunk_base_offset m)" and same: "same_file m m'"
    and ch: "\<And>i. i < u64_size \<Longrightarrow> chunk_at m' v i = truncated_chunk m v n i" and p: "p < u64_size"
  shows "file_byte m' v p = (if p < n then file_byte m v p else 0)"
    and "covered m' v p \<longleftrightarrow> covered m v p \<and> p < n"
proof -
  let ?i = "cm_index m p" and ?l = "n - 1"
  have at: "chunk_at m' v ?i = truncated_chunk m v n ?i" by (rule ch [OF chunk_index_bound [OF g p]])
  have pos: "cm_index m' p = ?i" "cm_offset m' p = cm_offset m p" using same by (auto simp: same_file_def)
  have ord: "?i \<le> cm_index m ?l" if "p < n" using that by (intro chunk_index_mono [OF g]) simp
  have ord': "cm_index m ?l \<le> ?i" if "\<not> p < n" using that by (intro chunk_index_mono [OF g]) simp
  have off: "p < n \<longleftrightarrow> cm_offset m p < cm_offset m ?l + 1" if "?i = cm_index m ?l" "n \<noteq> 0"
    using same_chunk_order [OF that(1) g] that(2) by auto
  show "file_byte m' v p = (if p < n then file_byte m v p else 0)"
    using ord ord' off unfolding file_byte_def pos at truncated_chunk_def
    by (cases "chunk_at m v ?i") (auto simp: byte_or_zero_take)
  show "covered m' v p \<longleftrightarrow> covered m v p \<and> p < n"
    using ord ord' off unfolding covered_iff pos at truncated_chunk_def
    by (cases "chunk_at m v ?i"; cases "p < n") auto
qed

lemma map_of_deleted [simp]:
  "map_of (rev (map (\<lambda>i. (i, Deleted)) ids)) i = (if i \<in> set ids then Some Deleted else None)"
  by (induction ids) (auto simp: map_add_def)

lemma chunk_at_mark_deleted:
  "chunk_at (mark_chunks_deleted ids m) v i = (if i \<in> set ids then None else chunk_at m v i)"
  by (auto simp: chunk_at_def mark_chunks_deleted_def map_of_bt_extend map_add_def
      split: option.splits pending_chunk.splits)

lemma fst_set_bt_extend: "fst ` set (bt_extend p es) = fst ` set p \<union> fst ` set es"
  by (induction es arbitrary: p) (auto simp: fst_set_bt_insert)

lemma cm_wf_mark_deleted:
  "cm_wf m \<Longrightarrow> \<forall>i \<in> set ids. i < u64_size \<Longrightarrow> cm_wf (mark_chunks_deleted ids m)"
  by (auto simp: cm_wf_def mark_chunks_deleted_def fst_set_bt_extend image_image)

lemma same_file_mark_deleted [simp]: "same_file m (mark_chunks_deleted ids m') \<longleftrightarrow> same_file m m'"
  by (simp add: same_file_def mark_chunks_deleted_def)

context chunk_store_spec
begin

lemma collect_indices_spec:
  assumes m: "cm_store m = st" "cm_file_id m < u64_size" "chunk_keys_ok (cm_file_id m) (view s)"
    and r: "collect_persisted_chunk_indices m n s = (r, s')"
  shows "view s' = view s" and "r \<noteq> Panic p"
    and "r = Ok ids \<Longrightarrow> set ids = {i. n \<le> i \<and> i < u64_size \<and> view s (chunk_key (cm_file_id m) i) \<noteq> None}"
proof -
  let ?f = "cm_file_id m"
  from r m(1) have "io_bind (cs_keys_with_prefix st (chunk_prefix ?f))
      (\<lambda>ks. io_lift (parse_keys_from n ks)) s = (r, s')"
    by (simp add: collect_persisted_chunk_indices_def)
  then have "view s' = view s \<and> r \<noteq> Panic p \<and> (r = Ok ids \<longrightarrow>
     set ids = {i. n \<le> i \<and> i < u64_size \<and> view s (chunk_key ?f i) \<noteq> None})"
  proof (cases rule: io_bind_cases)
    case (ok ks s1)
    have ks: "set ks = {k \<in> dom (view s). prefix (chunk_prefix ?f) k}" using keys_Ok [OF ok(1)] by simp
    then have "\<forall>k \<in> set ks. \<exists>i < u64_size. k = chunk_key ?f i" using m(3) by (auto simp: chunk_keys_ok_def)
    then obtain js where js: "ks = map (chunk_key ?f) js" "\<forall>i \<in> set js. i < u64_size"
      using keys_as_chunk_keys by blast
    have set_js: "i \<in> set js \<longleftrightarrow> i < u64_size \<and> view s (chunk_key ?f i) \<noteq> None" for i
    proof -
      have "i \<in> set js \<longleftrightarrow> i < u64_size \<and> chunk_key ?f i \<in> set ks"
        unfolding js(1) using js(2) by auto
      moreover have "chunk_key ?f i \<in> set ks \<longleftrightarrow> view s (chunk_key ?f i) \<noteq> None"
        unfolding ks using m(2) by (simp add: chunk_prefix_of_key domIff)
      ultimately show ?thesis by blast
    qed
    have r: "r = Ok (filter (\<lambda>i. n \<le> i) js)" "s' = s1"
      using ok(2) parse_keys_chunk_keys [OF m(2) js(2), of n] unfolding js(1) by simp_all
    have "set (filter (\<lambda>i. n \<le> i) js) = {i. n \<le> i \<and> i < u64_size \<and> view s (chunk_key ?f i) \<noteq> None}"
      by (simp add: set_js set_eq_iff conj_ac)
    with r show ?thesis using keys_view [OF ok(1)] by blast
  next
    case (err e)
    then show ?thesis using keys_view by auto
  next
    case (panic q)
    then show ?thesis using keys_no_panic by blast
  qed
  then show "view s' = view s" and "r \<noteq> Panic p"
    and "r = Ok ids \<Longrightarrow> set ids = {i. n \<le> i \<and> i < u64_size \<and> view s (chunk_key ?f i) \<noteq> None}"
    by blast+
qed

lemma read_chunk_cases:
  assumes "cm_store m = st"
  obtains (present) s' where "view s' = view s" and "read_chunk_from_store m i s =
      (Ok (case view s (chunk_key (cm_file_id m) i) of None \<Rightarrow> [] | Some c \<Rightarrow> c), s')"
  | (error) e s' where "view s' = view s" and "read_chunk_from_store m i s = (Err e, s')"
proof (cases rule: get_cases [of "chunk_key (cm_file_id m) i" s])
  case (present s')
  with assms that(1) [of s'] show ?thesis
    by (cases "view s (chunk_key (cm_file_id m) i)") (simp_all add: read_chunk_from_store_def)
next
  case (error e s')
  with assms that(2) [of s' e] show ?thesis by (simp add: read_chunk_from_store_def)
qed

end

text \<open>What the last steps of a truncation leave: the chunks of \<open>truncated_chunk\<close>.\<close>

lemma truncate_to_zero_chunks:
  assumes "set ids = {i. 0 \<le> i \<and> i < u64_size \<and> v (chunk_key (cm_file_id m) i) \<noteq> None}" and "i < u64_size"
  shows "chunk_at (mark_chunks_deleted ids (m\<lparr>cm_pending := []\<rparr>)) v i = truncated_chunk m v 0 i"
proof -
  have "i \<in> set ids \<longleftrightarrow> v (chunk_key (cm_file_id m) i) \<noteq> None" unfolding assms(1) using assms(2) by simp
  then show ?thesis unfolding chunk_at_mark_deleted truncated_chunk_def by (auto simp: chunk_at_def)
qed

lemma shorten_pending_lookup:
  assumes "shortened = (if map_of pend l \<noteq> None then None
     else if len < length persisted then Some (take len persisted) else None)"
  shows "map_of (shorten_pending l len shortened pend) i =
    (if l < i then None
     else if i \<noteq> l then map_of pend i
     else (case map_of pend l of
             Some (Written c) \<Rightarrow> Some (Written (take len c))
           | Some Deleted \<Rightarrow> Some Deleted
           | None \<Rightarrow> map_option Written shortened))"
  using assms
  by (auto simp: shorten_pending_def Let_def split: option.splits pending_chunk.splits)

lemma shorten_pending_wf:
  assumes "bt_wf pend" and "fst ` set pend \<subseteq> B" and "l \<in> B"
  shows "bt_wf (shorten_pending l len sh pend) \<and> fst ` set (shorten_pending l len sh pend) \<subseteq> B"
proof -
  let ?p = "bt_retain (\<lambda>i. i \<le> l) pend"
  have p: "bt_wf ?p \<and> fst ` set ?p \<subseteq> B" using assms by (auto simp: bt_retain_def)
  then have "bt_wf (bt_insert l pc ?p) \<and> fst ` set (bt_insert l pc ?p) \<subseteq> B" for pc
    using assms(3) by (auto simp: fst_set_bt_insert)
  with p show ?thesis
    unfolding shorten_pending_def Let_def by (simp split: option.split pending_chunk.split)
qed

lemma truncate_chunks:
  assumes n: "n \<noteq> 0" and l: "l = cm_index m (n - 1)" "len = cm_offset m (n - 1) + 1"
    and ids: "set ids = {i. l + 1 \<le> i \<and> i < u64_size \<and> v (chunk_key (cm_file_id m) i) \<noteq> None}"
    and sh: "shortened = (if map_of (cm_pending m) l \<noteq> None then None
       else let c = (case v (chunk_key (cm_file_id m) l) of None \<Rightarrow> [] | Some c \<Rightarrow> c)
            in if len < length c then Some (take len c) else None)"
    and i: "i < u64_size"
  shows "chunk_at (mark_chunks_deleted ids
           (m\<lparr>cm_pending := shorten_pending l len shortened (cm_pending m)\<rparr>)) v i = truncated_chunk m v n i"
proof -
  let ?c = "case v (chunk_key (cm_file_id m) l) of None \<Rightarrow> [] | Some c \<Rightarrow> c"
  note look = shorten_pending_lookup [of shortened "cm_pending m" l len ?c, OF sh [unfolded Let_def]]
  have mem: "i \<in> set ids \<longleftrightarrow> l < i \<and> v (chunk_key (cm_file_id m) i) \<noteq> None"
    unfolding ids using i by auto
  consider "l < i" | "i = l" | "i < l" by linarith
  then show ?thesis
  proof cases
    case 1
    with n mem show ?thesis
      unfolding chunk_at_mark_deleted truncated_chunk_def l [symmetric] by (auto simp: chunk_at_def look)
  next
    case 2
    with mem have "i \<notin> set ids" by simp
    moreover have "chunk_at (m\<lparr>cm_pending := shorten_pending l len shortened (cm_pending m)\<rparr>) v l =
      (case map_of (cm_pending m) l of Some (Written c) \<Rightarrow> Some (take len c) | Some Deleted \<Rightarrow> None
       | None \<Rightarrow> (case shortened of Some c \<Rightarrow> Some c | None \<Rightarrow> v (chunk_key (cm_file_id m) l)))"
      by (auto simp: chunk_at_def look split: option.splits pending_chunk.splits)
    ultimately show ?thesis using 2 n
      unfolding chunk_at_mark_deleted truncated_chunk_def l [symmetric]
      by (simp add: chunk_at_def sh Let_def split: option.split pending_chunk.split)
  next
    case 3
    with n mem show ?thesis
      unfolding chunk_at_mark_deleted truncated_chunk_def l [symmetric]
      by (auto simp: chunk_at_def look split: option.splits)
  qed
qed

lemma split_one:
  assumes "geometry (cm_chunk_size m) (cm_chunk_base_offset m)" and "p < u64_size"
  shows "split_into_chunks m 1 p =
    Ok [\<lparr>chunk_idx = cm_index m p, buf_offset = 0, chunk_offset = cm_offset m p, slice_len = 1\<rparr>]"
proof -
  let ?c = "chunk_capacity (cm_chunk_size m) (cm_chunk_base_offset m) (cm_index m p)"
  have "u64_add p 0 = p" using assms(2) by (simp add: u64_add_exact)
  moreover have "min 1 (?c - cm_offset m p) = 1" using chunk_offset_less [OF assms(1), of p] by simp
  ultimately show ?thesis
    by (simp add: split_into_chunks_def split_loop.simps locate_position_eq [OF assms] Let_def)
qed

context chunk_store_spec
begin

text \<open>
  A truncation reads before it changes anything, so a failure leaves the manager as it was; a
  success leaves exactly the bytes below the new size.
\<close>

lemma cm_truncate_zero:
  assumes run: "cm_truncate 0 (m, s) = (r, (m', s'))"
    and m: "cm_store m = st" "cm_wf m" "chunk_keys_ok (cm_file_id m) (view s)"
  shows "view s' = view s \<and> (\<forall>p. r \<noteq> Panic p) \<and> (r \<noteq> Ok () \<longrightarrow> m' = m) \<and>
    cm_wf m' \<and> same_file m m' \<and>
    (r = Ok () \<longrightarrow> (\<forall>i < u64_size. chunk_at m' (view s) i = truncated_chunk m (view s) 0 i))"
proof -
  let ?m0 = "m\<lparr>cm_pending := []\<rparr>"
  have f: "cm_file_id m < u64_size" and wf0: "cm_wf ?m0" using m(2) by (simp_all add: cm_wf_def)
  obtain q s1 where q: "collect_persisted_chunk_indices m 0 s = (q, s1)" by fastforce
  note c = collect_indices_spec [OF m(1) f m(3) q]
  show ?thesis
  proof (cases q)
    case (Ok ids)
    with run q have eq: "r = Ok ()" "m' = mark_chunks_deleted ids ?m0" "s' = s1"
      by (auto simp: cm_truncate_def)
    have "\<forall>i \<in> set ids. i < u64_size" using c(3) [OF Ok] by simp
    with wf0 c(1) truncate_to_zero_chunks [OF c(3) [OF Ok]] show ?thesis
      unfolding eq by (simp add: cm_wf_mark_deleted)
  next
    case (Err e)
    with run q c(1) m(2) show ?thesis by (auto simp: cm_truncate_def)
  next
    case (Panic e)
    with c(2) show ?thesis by blast
  qed
qed

text \<open>The chunk that keeps its beginning is read before anything else happens.\<close>

lemma read_shortened_cases:
  assumes "cm_store m = st"
  obtains (present) s1 where "view s1 = view s"
      and "(if map_of (cm_pending m) l \<noteq> None then io_return None
        else io_bind (io_snd (read_chunk_from_store m l)) (\<lambda>persisted.
          io_return (if len < length persisted then Some (take len persisted) else None))) (m, s)
        = (Ok (if map_of (cm_pending m) l \<noteq> None then None
             else let c = (case view s (chunk_key (cm_file_id m) l) of None \<Rightarrow> [] | Some c \<Rightarrow> c)
             in if len < length c then Some (take len c) else None), (m, s1))"
  | (error) e s1 where "view s1 = view s"
      and "(if map_of (cm_pending m) l \<noteq> None then io_return None
        else io_bind (io_snd (read_chunk_from_store m l)) (\<lambda>persisted.
          io_return (if len < length persisted then Some (take len persisted) else None))) (m, s)
        = (Err e, (m, s1))"
proof (cases "map_of (cm_pending m) l = None")
  case True
  from assms show ?thesis
  proof (cases rule: read_chunk_cases [where s = s and i = l])
    case (present s1)
    with True that(1) [of s1] show ?thesis by (simp add: Let_def)
  next
    case (error e s1)
    with True that(2) [of s1 e] show ?thesis by simp
  qed
next
  case False
  with that(1) [of s] show ?thesis by simp
qed

lemma cm_truncate_nonzero:
  assumes run: "cm_truncate n (m, s) = (r, (m', s'))"
    and m: "cm_store m = st" "cm_wf m" "chunk_keys_ok (cm_file_id m) (view s)" and n: "n < u64_size" "n \<noteq> 0"
  shows "view s' = view s \<and> (\<forall>p. r \<noteq> Panic p) \<and> (r \<noteq> Ok () \<longrightarrow> m' = m) \<and>
    cm_wf m' \<and> same_file m m' \<and>
    (r = Ok () \<longrightarrow> (\<forall>i < u64_size. chunk_at m' (view s) i = truncated_chunk m (view s) n i))"
proof -
  note g = cm_wf_geometry [OF m(2)]
  define l where "l = cm_index m (n - 1)"
  define len where "len = cm_offset m (n - 1) + 1"
  have f: "cm_file_id m < u64_size" using m(2) by (simp add: cm_wf_def)
  have sz: "n - 1 < u64_size" using n by simp
  have lb: "l < u64_size" unfolding l_def by (rule chunk_index_bound [OF g sz])
  have nowrap: "u64_add l 1 = l + 1"
    using chunk_index_le [OF g, of "n - 1"] n unfolding l_def by (intro u64_add_exact) linarith
  define rd :: "('s chunk_manager \<times> 's, bytes option) io" where "rd = (if map_of (cm_pending m) l \<noteq> None then io_return None
       else io_bind (io_snd (read_chunk_from_store m l)) (\<lambda>persisted.
         io_return (if len < length persisted then Some (take len persisted) else None)))"
  have unf: "cm_truncate n (m, s) = io_bind rd (\<lambda>shortened. io_bind (io_snd (collect_persisted_chunk_indices m (l + 1))) (\<lambda>ids.
           io_fst (io_put (mark_chunks_deleted ids
             (m\<lparr>cm_pending := shorten_pending l len shortened (cm_pending m)\<rparr>))))) (m, s)"
    using n(2) by (simp add: cm_truncate_def rd_def Let_def split_one [OF g sz] l_def [symmetric]
        len_def [symmetric] nowrap del: One_nat_def cong: if_cong)
  from m(1) show ?thesis
  proof (cases rule: read_shortened_cases [where s = s and l = l and len = len])
    case (error e s1)
    with run m(2) show ?thesis unfolding unf io_bind_Err [of rd, OF error(2) [folded rd_def]] by auto
  next
    case (present s1)
    define sh where "sh = (if map_of (cm_pending m) l \<noteq> None then None
        else let c = (case view s (chunk_key (cm_file_id m) l) of None \<Rightarrow> [] | Some c \<Rightarrow> c)
             in if len < length c then Some (take len c) else None)"
    note present' = present(2) [folded sh_def rd_def]
    obtain q s2 where q: "collect_persisted_chunk_indices m (l + 1) s1 = (q, s2)" by fastforce
    note c = collect_indices_spec [OF m(1) f _ q, unfolded present(1), OF m(3)]
    let ?m1 = "m\<lparr>cm_pending := shorten_pending l len sh (cm_pending m)\<rparr>"
    have wf1: "cm_wf ?m1"
      using m(2) shorten_pending_wf [of "cm_pending m" "{..< u64_size}" l len sh] lb by (auto simp: cm_wf_def)
    have eq: "(r, (m', s')) = (case q of Ok ids \<Rightarrow> (Ok (), (mark_chunks_deleted ids ?m1, s2))
        | Err e \<Rightarrow> (Err e, (m, s2)) | Panic e \<Rightarrow> (Panic e, (m, s2)))"
      using run q unfolding unf io_bind_Ok [of rd, OF present'] by (cases q) auto
    show ?thesis
    proof (cases q)
      case (Ok ids)
      have "\<forall>i \<in> set ids. i < u64_size" using c(3) [OF Ok] by simp
      with wf1 c(1) Ok eq truncate_chunks [OF n(2) l_def len_def c(3) [OF Ok] sh_def] show ?thesis
        by (simp add: cm_wf_mark_deleted)
    next
      case (Err e)
      with eq c(1) m(2) show ?thesis by auto
    next
      case (Panic e)
      with c(2) show ?thesis by blast
    qed
  qed
qed

lemma cm_truncate_spec:
  assumes run: "cm_truncate n (m, s) = (r, (m', s'))"
    and m: "cm_store m = st" "cm_wf m" "chunk_keys_ok (cm_file_id m) (view s)" and n: "n < u64_size"
  shows "view s' = view s \<and> (\<forall>p. r \<noteq> Panic p) \<and> (r \<noteq> Ok () \<longrightarrow> m' = m) \<and>
    cm_wf m' \<and> same_file m m' \<and>
    (r = Ok () \<longrightarrow> (\<forall>p < u64_size.
       file_byte m' (view s) p = (if p < n then file_byte m (view s) p else 0) \<and>
       (covered m' (view s) p \<longleftrightarrow> covered m (view s) p \<and> p < n)))"
proof -
  have "view s' = view s \<and> (\<forall>p. r \<noteq> Panic p) \<and> (r \<noteq> Ok () \<longrightarrow> m' = m) \<and>
    cm_wf m' \<and> same_file m m' \<and>
    (r = Ok () \<longrightarrow> (\<forall>i < u64_size. chunk_at m' (view s) i = truncated_chunk m (view s) n i))"
    using cm_truncate_zero [of m s r m' s'] cm_truncate_nonzero [OF run m n] run m by (cases "n = 0") auto
  with truncated_bytes [OF cm_wf_geometry [OF m(2)], of m' "view s" n] show ?thesis by auto
qed

end

section \<open>Flushing\<close>

lemma batch_key_pending_op [simp]: "batch_key (pending_op f e) = chunk_key f (fst e)"
  by (cases "(f, e)" rule: pending_op.cases) auto

lemma apply_pending:
  assumes "distinct (map fst pend)" and "\<forall>i \<in> fst ` set pend. i < u64_size" and "i < u64_size"
  shows "apply_batch (map (pending_op f) pend) v (chunk_key f i) =
    (case map_of pend i of Some (Written c) \<Rightarrow> Some c | Some Deleted \<Rightarrow> None | None \<Rightarrow> v (chunk_key f i))"
  using assms
proof (induction pend arbitrary: v)
  case (Cons e pend)
  have head: "apply_op (pending_op f e) v (chunk_key f i) = (if fst e = i
      then (case snd e of Written c \<Rightarrow> Some c | Deleted \<Rightarrow> None) else v (chunk_key f i))"
    using Cons.prems by (cases "(f, e)" rule: pending_op.cases) auto
  show ?case
  proof (cases "fst e = i")
    case True
    with Cons.prems have "map_of pend i = None" by (auto simp: map_of_eq_None_iff)
    with Cons True head show ?thesis by (cases "snd e") auto
  next
    case False
    with Cons head show ?thesis by (auto split: option.splits pending_chunk.splits)
  qed
qed simp

text \<open>The contents of the store after a flush of \<open>m\<close> on top of a batch for other keys.\<close>

lemma flush_other_keys:
  assumes "\<And>i. k \<noteq> chunk_key (cm_file_id m) i"
  shows "apply_batch (add_pending_to_batch m b) v k = apply_batch b v k"
proof -
  have "k \<notin> batch_key ` set (map (pending_op (cm_file_id m)) (cm_pending m))" using assms by force
  then show ?thesis by (simp add: add_pending_to_batch_def apply_batch_other del: set_map)
qed

lemma flush_chunk_at:
  assumes "cm_wf m" and "i < u64_size"
  shows "apply_batch (add_pending_to_batch m b) v (chunk_key (cm_file_id m) i) = chunk_at m (apply_batch b v) i"
  using assms
  by (simp add: add_pending_to_batch_def apply_pending cm_wf_def bt_wf_distinct chunk_at_def)

lemma mark_flushed_simps [simp]:
  "cm_pending (mark_flushed m) = []" "cm_store (mark_flushed m) = cm_store m"
  "cm_file_id (mark_flushed m) = cm_file_id m" "cm_chunk_size (mark_flushed m) = cm_chunk_size m"
  "cm_chunk_base_offset (mark_flushed m) = cm_chunk_base_offset m"
  by (simp_all add: mark_flushed_def)

lemma cm_wf_mark_flushed [simp]: "cm_wf m \<Longrightarrow> cm_wf (mark_flushed m)"
  by (simp add: cm_wf_def)

lemma flush_keeps_file:
  assumes m: "cm_wf m" and p: "p < u64_size"
    and b: "\<And>i. apply_batch b v (chunk_key (cm_file_id m) i) = v (chunk_key (cm_file_id m) i)"
  shows "file_byte (mark_flushed m) (apply_batch (add_pending_to_batch m b) v) p = file_byte m v p"
    and "covered (mark_flushed m) (apply_batch (add_pending_to_batch m b) v) p \<longleftrightarrow> covered m v p"
proof -
  have "cm_index m p < u64_size" by (rule chunk_index_bound [OF cm_wf_geometry [OF m] p])
  moreover have "chunk_at m (apply_batch b v) i = chunk_at m v i" for i
    by (simp add: chunk_at_def b split: option.split)
  ultimately have at: "chunk_at (mark_flushed m) (apply_batch (add_pending_to_batch m b) v) (cm_index m p)
      = chunk_at m v (cm_index m p)"
    using flush_chunk_at [OF m, of "cm_index m p" b v] by (simp add: chunk_at_def [of "mark_flushed m"])
  then show "file_byte (mark_flushed m) (apply_batch (add_pending_to_batch m b) v) p = file_byte m v p"
    and "covered (mark_flushed m) (apply_batch (add_pending_to_batch m b) v) p \<longleftrightarrow> covered m v p"
    by (simp_all add: file_byte_def covered_iff)
qed

lemma flush_chunk_keys_ok:
  assumes "cm_wf m" and "chunk_keys_ok f v" and "f < u64_size"
    and "\<And>k. prefix (chunk_prefix f) k \<Longrightarrow> apply_batch b v k = v k"
  shows "chunk_keys_ok f (apply_batch (add_pending_to_batch m b) v)"
  unfolding chunk_keys_ok_def
proof (intro ballI impI)
  fix k assume k: "k \<in> dom (apply_batch (add_pending_to_batch m b) v)" "prefix (chunk_prefix f) k"
  show "\<exists>i < u64_size. k = chunk_key f i"
  proof (cases "k \<in> batch_key ` set (map (pending_op (cm_file_id m)) (cm_pending m))")
    case True
    then obtain i where "k = chunk_key (cm_file_id m) i" "i < u64_size" using assms(1) by (auto simp: cm_wf_def)
    with k(2) assms(1,3) show ?thesis by (auto simp: chunk_prefix_of_key cm_wf_def)
  next
    case False
    with k assms(4) have "k \<in> dom v"
      by (auto simp: add_pending_to_batch_def apply_batch_other domIff simp del: set_map)
    with assms(2) k(2) show ?thesis by (simp add: chunk_keys_ok_def)
  qed
qed

end
