(* ===== verification/Flags.thy ===== *)
theory Flags
  imports Errors
begin

text \<open>
  The access a file is opened with (\<open>rust/src/flags.rs\<close>): the flag record, its five standard values,
  the check of the combinations and the two access checks that every handle operation starts with.
\<close>

record FileOpenFlags =
  fl_read :: bool
  fl_write :: bool
  fl_create :: bool
  fl_append :: bool
  fl_truncate_existing :: bool

definition flags_read_only :: FileOpenFlags where
  "flags_read_only = \<lparr>fl_read = True, fl_write = False, fl_create = False, fl_append = False,
     fl_truncate_existing = False\<rparr>"

definition flags_read_write :: FileOpenFlags where
  "flags_read_write = \<lparr>fl_read = True, fl_write = True, fl_create = False, fl_append = False,
     fl_truncate_existing = False\<rparr>"

definition flags_open_or_create :: FileOpenFlags where
  "flags_open_or_create = \<lparr>fl_read = True, fl_write = True, fl_create = True, fl_append = False,
     fl_truncate_existing = False\<rparr>"

definition flags_create_or_truncate :: FileOpenFlags where
  "flags_create_or_truncate = \<lparr>fl_read = False, fl_write = True, fl_create = True, fl_append = False,
     fl_truncate_existing = True\<rparr>"

definition flags_append :: FileOpenFlags where
  "flags_append = \<lparr>fl_read = False, fl_write = True, fl_create = True, fl_append = True,
     fl_truncate_existing = False\<rparr>"

definition flags_validate :: "FileOpenFlags \<Rightarrow> unit outcome" where
  "flags_validate f =
     (let invalid = (\<lambda>reason. Err (invalid_argument (''invalid file open flags: '' @ reason))) in
      if \<not> fl_read f \<and> \<not> fl_write f then invalid ''at least one of read or write must be set''
      else if fl_create f \<and> \<not> fl_write f then invalid ''create requires write access''
      else if fl_append f \<and> \<not> fl_write f then invalid ''append requires write access''
      else if fl_truncate_existing f \<and> \<not> fl_create f then invalid ''truncate existing requires create''
      else Ok ())"

definition flags_ensure :: "bool \<Rightarrow> string \<Rightarrow> u64 \<Rightarrow> unit outcome" where
  "flags_ensure granted operation file_id =
     (if granted then Ok ()
      else Err (invalid_argument (''cannot '' @ operation @ '' file_id '' @ show_nat file_id
                                  @ '': not opened for that access'')))"

definition ensure_readable :: "FileOpenFlags \<Rightarrow> u64 \<Rightarrow> unit outcome" where
  "ensure_readable f file_id = flags_ensure (fl_read f) ''read'' file_id"

definition ensure_writable :: "FileOpenFlags \<Rightarrow> u64 \<Rightarrow> unit outcome" where
  "ensure_writable f file_id =
     (if fl_write f then Ok ()
      else Err (read_only_violation (''cannot write to file_id '' @ show_nat file_id
                                     @ '': not opened for that access'')))"

text \<open>Which combinations are accepted, and that every one of them grants some access.\<close>

definition flags_wf :: "FileOpenFlags \<Rightarrow> bool" where
  "flags_wf f \<longleftrightarrow> (fl_read f \<or> fl_write f) \<and> (fl_create f \<or> fl_append f \<longrightarrow> fl_write f)
     \<and> (fl_truncate_existing f \<longrightarrow> fl_create f)"

lemma flags_validate_eq_Ok [simp]: "flags_validate f = Ok u \<longleftrightarrow> flags_wf f"
  by (auto simp: flags_validate_def flags_wf_def Let_def)

lemma flags_validate_no_panic [simp]: "flags_validate f \<noteq> Panic p"
  by (simp add: flags_validate_def Let_def)

lemma ensure_no_panic [simp]: "ensure_readable f i \<noteq> Panic p" "ensure_writable f i \<noteq> Panic p"
  by (simp_all add: ensure_readable_def ensure_writable_def flags_ensure_def)

lemma ensure_readable_Ok [simp]: "ensure_readable f i = Ok u \<longleftrightarrow> fl_read f"
  by (simp add: ensure_readable_def flags_ensure_def)

lemma ensure_writable_Ok [simp]: "ensure_writable f i = Ok u \<longleftrightarrow> fl_write f"
  by (simp add: ensure_writable_def)

lemma standard_flags_wf [simp]:
  "flags_wf flags_read_only" "flags_wf flags_read_write" "flags_wf flags_open_or_create"
  "flags_wf flags_create_or_truncate" "flags_wf flags_append"
  by (simp_all add: flags_wf_def flags_read_only_def flags_read_write_def flags_open_or_create_def
      flags_create_or_truncate_def flags_append_def)

end
