(* ===== verification/File_Metadata.thy ===== *)
theory File_Metadata
  imports Errors
begin

text \<open>
  The metadata record of a file (\<open>rust/src/file_metadata.rs\<close>, \<open>rust/src/util.rs\<close>). The message type and
  its encoder are generated by prost from \<open>proto/metadata.proto\<close>, so the codec is an argument of the
  operations that use it and the locale \<open>metadata_codec\<close> states what they rely on: decoding what was
  encoded gives the record back. \<open>Proto_Codec\<close> gives the instance for the wire format.

  The system clock is an argument too: \<open>now\<close> is the number of milliseconds since the epoch, negative
  for a clock before it.
\<close>

definition current_time_millis :: "int \<Rightarrow> u64" where
  "current_time_millis now = min (nat now) (u64_size - 1)"

record FileMetadata =
  md_size :: u64
  md_modified_at_ms :: u64
  md_chunk_size :: u64
  md_chunk_base_offset :: u64

definition DEFAULT_CHUNK_SIZE :: u64 where
  "DEFAULT_CHUNK_SIZE = 256 * 1024"

definition DEFAULT_CHUNK_BASE_OFFSET :: u64 where
  "DEFAULT_CHUNK_BASE_OFFSET = 3 * 4096"

record codec =
  encode_to_vec :: "FileMetadata \<Rightarrow> bytes"
  decode :: "bytes \<Rightarrow> string + FileMetadata"

definition file_metadata_new :: "int \<Rightarrow> FileMetadata" where
  "file_metadata_new now =
     \<lparr>md_size = 0, md_modified_at_ms = current_time_millis now,
      md_chunk_size = DEFAULT_CHUNK_SIZE, md_chunk_base_offset = DEFAULT_CHUNK_BASE_OFFSET\<rparr>"

definition encode_to_bytes :: "codec \<Rightarrow> FileMetadata \<Rightarrow> bytes" where
  "encode_to_bytes P md = encode_to_vec P md"

definition decode_from_bytes :: "codec \<Rightarrow> bytes \<Rightarrow> FileMetadata outcome" where
  "decode_from_bytes P bs =
     (case decode P bs of Inl e \<Rightarrow> Err (from_decode_error e) | Inr md \<Rightarrow> Ok md)"

definition validated_chunk_size :: "FileMetadata \<Rightarrow> u64 \<Rightarrow> usize outcome" where
  "validated_chunk_size md file_id =
     (let invalid = (\<lambda>reason.
        invalid_argument (''invalid chunk size for file_id '' @ show_nat file_id @ '': '' @ reason)) in
      if md_chunk_size md = 0 then Err (invalid ''must be non-zero'')
      else case usize_try_from (md_chunk_size md) of
        None \<Rightarrow> Err (invalid (show_nat (md_chunk_size md) @ '' exceeds usize''))
      | Some chunk_size \<Rightarrow>
          if md_chunk_size md \<le> md_chunk_base_offset md
          then Err (invalid_argument (''invalid chunk base offset for file_id '' @ show_nat file_id @ '': ''
                    @ show_nat (md_chunk_base_offset md) @ '' must be less than '' @ show_nat (md_chunk_size md)))
          else Ok chunk_size)"

section \<open>The values of a record\<close>

text \<open>Every field of a record of the program is a \<open>u64\<close>.\<close>

definition metadata_u64 :: "FileMetadata \<Rightarrow> bool" where
  "metadata_u64 md \<longleftrightarrow> md_size md < u64_size \<and> md_modified_at_ms md < u64_size
     \<and> md_chunk_size md < u64_size \<and> md_chunk_base_offset md < u64_size"

lemma current_time_millis_bound [simp]: "current_time_millis now < u64_size"
  by (simp add: current_time_millis_def min_less_iff_disj)

lemma file_metadata_new_u64 [simp]: "metadata_u64 (file_metadata_new now)"
  by (simp add: metadata_u64_def file_metadata_new_def DEFAULT_CHUNK_SIZE_def
      DEFAULT_CHUNK_BASE_OFFSET_def) (simp add: u64_size_def)

lemma validated_chunk_size_eq_Ok:
  "validated_chunk_size md file_id = Ok cs \<longleftrightarrow>
     cs = md_chunk_size md \<and> 0 < cs \<and> md_chunk_base_offset md < cs \<and> cs < u64_size"
  by (auto simp: validated_chunk_size_def usize_try_from_def Let_def)

lemma validated_chunk_size_no_panic [simp]: "validated_chunk_size md file_id \<noteq> Panic p"
  by (simp add: validated_chunk_size_def Let_def split: option.split)

lemma new_file_chunk_size: "validated_chunk_size (file_metadata_new now) file_id = Ok DEFAULT_CHUNK_SIZE"
  by (simp add: validated_chunk_size_eq_Ok file_metadata_new_def DEFAULT_CHUNK_SIZE_def
      DEFAULT_CHUNK_BASE_OFFSET_def) (simp add: u64_size_def)

locale metadata_codec =
  fixes P :: codec
  assumes decode_encode: "metadata_u64 md \<Longrightarrow> decode P (encode_to_vec P md) = Inr md"
begin

lemma decode_from_encoded: "metadata_u64 md \<Longrightarrow> decode_from_bytes P (encode_to_bytes P md) = Ok md"
  by (simp add: decode_from_bytes_def encode_to_bytes_def decode_encode)

text \<open>Two records are stored as the same bytes only if they are equal.\<close>

lemma encode_inj:
  "metadata_u64 a \<Longrightarrow> metadata_u64 b \<Longrightarrow> encode_to_bytes P a = encode_to_bytes P b \<longleftrightarrow> a = b"
  by (metis decode_from_encoded outcome.inject(1))

end

lemma decode_from_bytes_no_panic [simp]: "decode_from_bytes P bs \<noteq> Panic p"
  by (simp add: decode_from_bytes_def split: sum.split)

end
