(* ===== verification/File_Handle.thy ===== *)
theory File_Handle
  imports Chunk_Manager_Updates Flags File_Metadata
begin

text \<open>
  A file handle (\<open>rust/src/file_handle.rs\<close>): positional and sequential reads and writes, truncation and
  sync over a chunk manager. The state of an operation is the handle and the world of the store; an
  operation that fills a buffer has the buffer in its state too. SlateDB (\<open>S\<close>), the metadata codec
  (\<open>P\<close>) and the clock (\<open>now\<close>) are arguments of the operations that use them.
\<close>

section \<open>State\<close>

datatype ('db, 'rd) slate_file_client = ReadWrite 'db | ReadOnly 'rd

record ('s, 'db, 'rd) file_handle =
  client :: "('db, 'rd) slate_file_client"
  fh_file_id :: u64
  position :: u64
  fh_size :: u64
  modified_at_ms :: u64
  chunks :: "'s chunk_manager"
  metadata_dirty :: bool
  fh_flags :: FileOpenFlags

definition client_store ::
  "('s, 'db, 'rd, 'tx) slatedb \<Rightarrow> ('db, 'rd) slate_file_client \<Rightarrow> 's chunk_store" where
  "client_store S c = (case c of
     ReadWrite db \<Rightarrow> slatedb_chunk_store S db
   | ReadOnly reader \<Rightarrow> slatedb_reader_chunk_store S reader)"

definition client_writer :: "('db, 'rd) slate_file_client \<Rightarrow> u64 \<Rightarrow> 'db outcome" where
  "client_writer c file_id = (case c of
     ReadWrite db \<Rightarrow> Ok db
   | ReadOnly _ \<Rightarrow> Err (read_only_violation
       (''cannot sync file_id '' @ show_nat file_id @ '' through a read-only SlateDB client'')))"

definition with_chunk_store_internal ::
  "('db, 'rd) slate_file_client \<Rightarrow> 's chunk_store \<Rightarrow> u64 \<Rightarrow> FileMetadata \<Rightarrow> FileOpenFlags
     \<Rightarrow> ('s, 'db, 'rd) file_handle outcome" where
  "with_chunk_store_internal c store file_id md fl =
     o_bind (flags_validate fl) (\<lambda>_.
     o_bind (case c of
         ReadOnly _ \<Rightarrow> o_bind (ensure_readable fl file_id) (\<lambda>_.
           if fl_write fl
           then Err (read_only_violation ''read-only SlateDB client cannot create a writable file handle'')
           else Ok ())
       | ReadWrite _ \<Rightarrow> Ok ()) (\<lambda>_.
     o_bind (validated_chunk_size md file_id) (\<lambda>chunk_size.
     Ok \<lparr>client = c, fh_file_id = file_id,
         position = (if fl_append fl then md_size md else 0),
         fh_size = md_size md, modified_at_ms = md_modified_at_ms md,
         chunks = chunk_manager_new store file_id chunk_size (md_chunk_base_offset md),
         metadata_dirty = False, fh_flags = fl\<rparr>)))"

definition file_handle_new ::
  "('s, 'db, 'rd, 'tx) slatedb \<Rightarrow> ('db, 'rd) slate_file_client \<Rightarrow> u64 \<Rightarrow> FileMetadata \<Rightarrow> FileOpenFlags
     \<Rightarrow> ('s, 'db, 'rd) file_handle outcome" where
  "file_handle_new S c file_id md fl = with_chunk_store_internal c (client_store S c) file_id md fl"

definition set_metadata_dirty :: "int \<Rightarrow> ('s, 'db, 'rd) file_handle \<Rightarrow> ('s, 'db, 'rd) file_handle" where
  "set_metadata_dirty now h = h\<lparr>modified_at_ms := current_time_millis now, metadata_dirty := True\<rparr>"

definition handle_metadata :: "('s, 'db, 'rd) file_handle \<Rightarrow> FileMetadata" where
  "handle_metadata h =
     \<lparr>md_size = fh_size h, md_modified_at_ms = modified_at_ms h,
      md_chunk_size = cm_chunk_size (chunks h), md_chunk_base_offset = cm_chunk_base_offset (chunks h)\<rparr>"

definition write_overflow :: "('s, 'db, 'rd) file_handle \<Rightarrow> error" where
  "write_overflow h = invalid_argument (''write overflow for file_id '' @ show_nat (fh_file_id h))"

section \<open>Positional reads and writes\<close>

text \<open>Running an operation on the first bytes of a buffer, as \<open>&mut buf[..n]\<close> does, and on the chunk
  manager of a handle.\<close>

definition io_prefix :: "nat \<Rightarrow> (bytes \<times> 's, 'a) io \<Rightarrow> (bytes \<times> 's, 'a) io" where
  "io_prefix n m = (\<lambda>(buf, s). case m (take n buf, s) of (r, (buf', s')) \<Rightarrow> (r, (buf' @ drop n buf, s')))"

definition io_chunks ::
  "('s chunk_manager \<times> 's, 'a) io \<Rightarrow> (('s, 'db, 'rd) file_handle \<times> 's, 'a) io" where
  "io_chunks m = (\<lambda>(h, s). case m (chunks h, s) of (r, (c, s')) \<Rightarrow> (r, (h\<lparr>chunks := c\<rparr>, s')))"

definition pread :: "('s, 'db, 'rd) file_handle \<Rightarrow> u64 \<Rightarrow> (bytes \<times> 's, usize) io" where
  "pread h offset =
     io_bind (io_lift (ensure_readable (fh_flags h) (fh_file_id h))) (\<lambda>_.
     io_bind io_get (\<lambda>(buf, _).
       if buf = [] \<or> fh_size h \<le> offset then io_return 0
       else let bytes_to_read =
              min (case usize_try_from (fh_size h - offset) of Some n \<Rightarrow> n | None \<Rightarrow> u64_size - 1)
                  (length buf) in
         io_bind (io_prefix bytes_to_read (cm_read (chunks h) offset)) (\<lambda>_. io_return bytes_to_read)))"

definition pwrite :: "int \<Rightarrow> bytes \<Rightarrow> u64 \<Rightarrow> (('s, 'db, 'rd) file_handle \<times> 's, unit) io" where
  "pwrite now data offset =
     io_bind io_get (\<lambda>(h, _).
     io_bind (io_lift (ensure_writable (fh_flags h) (fh_file_id h))) (\<lambda>_.
       if data = [] then io_return ()
       else case checked_add offset (length data) of
         None \<Rightarrow> io_lift (Err (write_overflow h))
       | Some end_offset \<Rightarrow>
           io_bind (io_chunks (cm_write data offset)) (\<lambda>_.
           io_bind io_get (\<lambda>(h, _).
           io_fst (io_put (set_metadata_dirty now
             (if fh_size h < end_offset then h\<lparr>fh_size := end_offset\<rparr> else h)))))))"

section \<open>Sequential reads and writes\<close>

text \<open>\<open>usize::try_from(..).unwrap()\<close> is a panic branch; on a 64-bit target it is dead.\<close>

definition fh_read :: "(('s, 'db, 'rd) file_handle \<times> bytes \<times> 's, usize) io" where
  "fh_read =
     io_bind io_get (\<lambda>(h, buf, _).
       case usize_try_from (saturating_sub (fh_size h) (position h)) of
         None \<Rightarrow> io_lift (Panic ''called `Result::unwrap()` on an `Err` value'')
       | Some left \<Rightarrow>
           let available = min left (length buf) in
           if available = 0 then io_return 0
           else io_bind (io_snd (io_prefix available (pread h (position h)))) (\<lambda>bytes_read.
                io_bind (io_fst (io_put (h\<lparr>position := u64_add (position h) bytes_read\<rparr>))) (\<lambda>_.
                io_return bytes_read)))"

definition fh_write :: "int \<Rightarrow> bytes \<Rightarrow> (('s, 'db, 'rd) file_handle \<times> 's, usize) io" where
  "fh_write now data =
     io_bind io_get (\<lambda>(h, _).
       let offset = (if fl_append (fh_flags h) then fh_size h else position h) in
       io_bind (pwrite now data offset) (\<lambda>_.
       io_bind io_get (\<lambda>(h, _).
       case checked_add offset (length data) of
         None \<Rightarrow> io_lift (Err (write_overflow h))
       | Some p \<Rightarrow> io_bind (io_fst (io_put (h\<lparr>position := p\<rparr>))) (\<lambda>_. io_return (length data)))))"

definition seek :: "u64 \<Rightarrow> ('s, 'db, 'rd) file_handle \<Rightarrow> ('s, 'db, 'rd) file_handle" where
  "seek p h = h\<lparr>position := p\<rparr>"

definition seek_position :: "('s, 'db, 'rd) file_handle \<Rightarrow> u64" where
  "seek_position h = position h"

definition reset :: "('s, 'db, 'rd) file_handle \<Rightarrow> ('s, 'db, 'rd) file_handle" where
  "reset h = h\<lparr>position := 0\<rparr>"

definition file_size :: "('s, 'db, 'rd) file_handle \<Rightarrow> u64" where
  "file_size h = fh_size h"

definition get_last_modified_time :: "('s, 'db, 'rd) file_handle \<Rightarrow> u64" where
  "get_last_modified_time h = modified_at_ms h"

section \<open>Sync, truncate, close\<close>

definition sync_batch :: "codec \<Rightarrow> ('s, 'db, 'rd) file_handle \<Rightarrow> write_batch" where
  "sync_batch P h =
     add_pending_to_batch (chunks h) []
     @ [BatchPut (metadata_key (fh_file_id h)) (encode_to_bytes P (handle_metadata h))]"

definition sync ::
  "('s, 'db, 'rd, 'tx) slatedb \<Rightarrow> codec \<Rightarrow> (('s, 'db, 'rd) file_handle \<times> 's, unit) io" where
  "sync S P =
     io_bind io_get (\<lambda>(h, _).
       if \<not> has_pending_changes (chunks h) \<and> \<not> metadata_dirty h then io_return ()
       else
         io_bind (io_lift (client_writer (client h) (fh_file_id h))) (\<lambda>db.
         io_bind (io_snd (slate (db_write S db (sync_batch P h)))) (\<lambda>_.
         io_bind (io_snd (slate (db_flush S db))) (\<lambda>_.
         io_fst (io_put (h\<lparr>chunks := mark_flushed (chunks h), metadata_dirty := False\<rparr>))))))"

definition fh_truncate :: "int \<Rightarrow> u64 \<Rightarrow> (('s, 'db, 'rd) file_handle \<times> 's, unit) io" where
  "fh_truncate now new_size =
     io_bind io_get (\<lambda>(h, _).
     io_bind (io_lift (ensure_writable (fh_flags h) (fh_file_id h))) (\<lambda>_.
       if new_size = fh_size h then io_return ()
       else io_bind (if new_size < fh_size h then io_chunks (cm_truncate new_size) else io_return ()) (\<lambda>_.
            io_bind io_get (\<lambda>(h, _).
            io_fst (io_put (set_metadata_dirty now (h\<lparr>fh_size := new_size\<rparr>)))))))"

definition fh_close ::
  "('s, 'db, 'rd, 'tx) slatedb \<Rightarrow> codec \<Rightarrow> (('s, 'db, 'rd) file_handle \<times> 's, unit) io" where
  "fh_close S P = sync S P"

lemma io_zoom_chunks_simps [simp, io_simps]:
  "io_chunks m (h, s) = (fst (m (chunks h, s)),
     (h\<lparr>chunks := fst (snd (m (chunks h, s)))\<rparr>, snd (snd (m (chunks h, s)))))"
  "io_prefix n q (buf, s) = (fst (q (take n buf, s)),
     (fst (snd (q (take n buf, s))) @ drop n buf, snd (snd (q (take n buf, s)))))"
  by (simp_all add: io_chunks_def io_prefix_def split: prod.splits)

end
