(* ===== verification/Database_Metadata.thy ===== *)
theory Database_Metadata
  imports Chunk_Store File_Metadata
begin

text \<open>
  The catalog of a database (\<open>rust/src/database_metadata.rs\<close>): a path maps to a file id, a file id to its
  metadata, and a counter allocates ids. Changes go through serializable transactions of SlateDB. The
  functions that only read take the \<open>get\<close> of their client, since the source is generic in it.
\<close>

section \<open>File ids as stored\<close>

text \<open>\<open>u64::to_be_bytes\<close> and \<open>u64::from_be_bytes\<close>.\<close>

fun be_bytes :: "nat \<Rightarrow> nat \<Rightarrow> bytes" where
  "be_bytes 0 n = []"
| "be_bytes (Suc k) n = be_bytes k (n div 256) @ [of_nat (n mod 256)]"

definition to_be_bytes :: "u64 \<Rightarrow> bytes" where
  "to_be_bytes n = be_bytes 8 n"

definition from_be_bytes :: "bytes \<Rightarrow> u64" where
  "from_be_bytes bs = foldl (\<lambda>acc b. 256 * acc + unat b) 0 bs"

definition decode_file_id :: "bytes \<Rightarrow> string \<Rightarrow> u64 outcome" where
  "decode_file_id bs rec =
     (if length bs \<noteq> 8 then Err (metadata_decode (rec @ '' must contain an 8-byte file ID''))
      else let file_id = from_be_bytes bs in
        if file_id = 0 then Err (metadata_decode (rec @ '' contains reserved file ID 0''))
        else Ok file_id)"

definition validate_path :: "path \<Rightarrow> unit outcome" where
  "validate_path p = (if p = [] then Err (invalid_argument ''file path must not be empty'') else Ok ())"

section \<open>Reading the catalog\<close>

definition find_file ::
  "codec \<Rightarrow> (key \<Rightarrow> 's \<Rightarrow> (slatedb_error + bytes option) \<times> 's) \<Rightarrow> path \<Rightarrow> ('s, (u64 \<times> FileMetadata) option) io" where
  "find_file P get p =
     io_bind (slate (get (path_key p))) (\<lambda>found. case found of
       None \<Rightarrow> io_return None
     | Some file_id_bytes \<Rightarrow>
         io_bind (io_lift (decode_file_id file_id_bytes ''path mapping'')) (\<lambda>file_id.
         io_bind (slate (get (metadata_key file_id))) (\<lambda>stored.
         io_bind (io_lift (case stored of
             None \<Rightarrow> Err (metadata_decode (''metadata is missing for file_id '' @ show_nat file_id))
           | Some bs \<Rightarrow> decode_from_bytes P bs)) (\<lambda>md.
         io_return (Some (file_id, md))))))"

definition dm_file_exists ::
  "(key \<Rightarrow> 's \<Rightarrow> (slatedb_error + bytes option) \<times> 's) \<Rightarrow> path \<Rightarrow> ('s, bool) io" where
  "dm_file_exists get p =
     io_bind (io_lift (validate_path p)) (\<lambda>_.
     io_bind (slate (get (path_key p))) (\<lambda>found. io_return (found \<noteq> None)))"

definition dm_open_file ::
  "codec \<Rightarrow> (key \<Rightarrow> 's \<Rightarrow> (slatedb_error + bytes option) \<times> 's) \<Rightarrow> path \<Rightarrow> ('s, u64 \<times> FileMetadata) io" where
  "dm_open_file P get p =
     io_bind (io_lift (validate_path p)) (\<lambda>_.
     io_bind (find_file P get p) (\<lambda>found.
     io_lift (case found of None \<Rightarrow> Err (file_not_found p) | Some x \<Rightarrow> Ok x)))"

section \<open>Changing the catalog\<close>

text \<open>The loop that deletes what a scan of the transaction delivers.\<close>

fun delete_scanned :: "('s, 'db, 'rd, 'tx) slatedb \<Rightarrow> 'tx \<Rightarrow> scan_iter \<Rightarrow> 'tx outcome" where
  "delete_scanned S tx [] = Ok tx"
| "delete_scanned S tx (Inl e # it) = Err (from_slatedb_error e)"
| "delete_scanned S tx (Inr kv # it) =
     o_bind (from_slate (tx_delete S tx (fst kv))) (\<lambda>tx. delete_scanned S tx it)"

definition delete_chunks :: "('s, 'db, 'rd, 'tx) slatedb \<Rightarrow> 'tx \<Rightarrow> u64 \<Rightarrow> ('s, 'tx) io" where
  "delete_chunks S tx file_id =
     io_bind (slate (tx_scan_prefix S tx (chunk_prefix file_id))) (\<lambda>it. io_lift (delete_scanned S tx it))"

definition dm_remove_file :: "('s, 'db, 'rd, 'tx) slatedb \<Rightarrow> 'db \<Rightarrow> path \<Rightarrow> ('s, unit) io" where
  "dm_remove_file S db p =
     io_bind (io_lift (validate_path p)) (\<lambda>_.
     io_bind (slate (db_begin S db)) (\<lambda>tx.
     io_bind (slate (tx_get S tx (path_key p))) (\<lambda>found.
     io_bind (io_lift (case found of
         None \<Rightarrow> Err (file_not_found p)
       | Some bs \<Rightarrow> decode_file_id bs ''path mapping'')) (\<lambda>file_id.
     io_bind (io_lift (from_slate (tx_delete S tx (path_key p)))) (\<lambda>tx.
     io_bind (io_lift (from_slate (tx_delete S tx (metadata_key file_id)))) (\<lambda>tx.
     io_bind (delete_chunks S tx file_id) (\<lambda>tx.
     slate (tx_commit S tx))))))))"

definition dm_move_file :: "('s, 'db, 'rd, 'tx) slatedb \<Rightarrow> 'db \<Rightarrow> path \<Rightarrow> path \<Rightarrow> ('s, unit) io" where
  "dm_move_file S db src target =
     io_bind (io_lift (validate_path src)) (\<lambda>_.
     io_bind (io_lift (validate_path target)) (\<lambda>_.
     if src = target then io_return ()
     else
       io_bind (slate (db_begin S db)) (\<lambda>tx.
       io_bind (slate (tx_get S tx (path_key src))) (\<lambda>found.
       io_bind (io_lift (case found of
           None \<Rightarrow> Err (file_not_found src)
         | Some bs \<Rightarrow> decode_file_id bs ''source path mapping'')) (\<lambda>source_file_id.
       io_bind (slate (tx_get S tx (path_key target))) (\<lambda>at_target.
       io_bind (case at_target of
           None \<Rightarrow> io_return tx
         | Some bs \<Rightarrow>
             io_bind (io_lift (decode_file_id bs ''target path mapping'')) (\<lambda>target_file_id.
             if target_file_id \<noteq> source_file_id
             then io_bind (io_lift (from_slate (tx_delete S tx (metadata_key target_file_id)))) (\<lambda>tx.
                  delete_chunks S tx target_file_id)
             else io_return tx)) (\<lambda>tx.
       io_bind (io_lift (from_slate (tx_delete S tx (path_key src)))) (\<lambda>tx.
       io_bind (io_lift (from_slate (tx_put S tx (path_key target) (to_be_bytes source_file_id)))) (\<lambda>tx.
       slate (tx_commit S tx))))))))))"

definition allocate_file ::
  "('s, 'db, 'rd, 'tx) slatedb \<Rightarrow> codec \<Rightarrow> int \<Rightarrow> 'tx \<Rightarrow> path \<Rightarrow> ('s, u64 \<times> FileMetadata) io" where
  "allocate_file S P now tx p =
     io_bind (slate (tx_get S tx NEXT_FILE_ID_KEY)) (\<lambda>found.
     io_bind (io_lift (case found of
         Some bs \<Rightarrow> decode_file_id bs ''next file ID''
       | None \<Rightarrow> Ok 1)) (\<lambda>file_id.
     io_bind (io_lift (case checked_add file_id 1 of
         None \<Rightarrow> Err (metadata_decode ''file ID space is exhausted'')
       | Some n \<Rightarrow> Ok n)) (\<lambda>next_file_id.
     let md = file_metadata_new now in
     io_bind (io_lift (from_slate (tx_put S tx (path_key p) (to_be_bytes file_id)))) (\<lambda>tx.
     io_bind (io_lift (from_slate (tx_put S tx (metadata_key file_id) (encode_to_bytes P md)))) (\<lambda>tx.
     io_bind (io_lift (from_slate (tx_put S tx NEXT_FILE_ID_KEY (to_be_bytes next_file_id)))) (\<lambda>tx.
     io_bind (slate (tx_commit S tx)) (\<lambda>_.
     io_return (file_id, md))))))))"

definition prepare_file_for_open ::
  "('s, 'db, 'rd, 'tx) slatedb \<Rightarrow> codec \<Rightarrow> int \<Rightarrow> 'db \<Rightarrow> path \<Rightarrow> bool \<Rightarrow> bool \<Rightarrow> ('s, u64 \<times> FileMetadata) io" where
  "prepare_file_for_open S P now db p create truncate_existing =
     io_bind (io_lift (validate_path p)) (\<lambda>_.
     io_bind (slate (db_begin S db)) (\<lambda>tx.
     io_bind (find_file P (tx_get S tx) p) (\<lambda>found. case found of
       Some (file_id, md) \<Rightarrow>
         if truncate_existing
         then io_bind (delete_chunks S tx file_id) (\<lambda>tx.
              let md = file_metadata_new now in
              io_bind (io_lift (from_slate (tx_put S tx (metadata_key file_id) (encode_to_bytes P md)))) (\<lambda>tx.
              io_bind (slate (tx_commit S tx)) (\<lambda>_.
              io_return (file_id, md))))
         else io_return (file_id, md)
     | None \<Rightarrow>
         if \<not> create then io_lift (Err (file_not_found p))
         else allocate_file S P now tx p)))"

section \<open>Round trips of file ids\<close>

lemma length_be_bytes [simp]: "length (be_bytes k n) = k"
  by (induction k arbitrary: n) auto

lemma foldl_be_bytes: "n < 256 ^ k \<Longrightarrow> foldl (\<lambda>acc b. 256 * acc + unat b) 0 (be_bytes k n) = n"
proof (induction k arbitrary: n)
  case (Suc k)
  then have "n div 256 < 256 ^ k" by (simp add: less_mult_imp_div_less mult.commute)
  with Suc.IH have "foldl (\<lambda>acc b. 256 * acc + unat b) 0 (be_bytes k (n div 256)) = n div 256" .
  moreover have "unat (of_nat (n mod 256) :: byte) = n mod 256" by (rule unat_of_nat_byte) simp
  ultimately show ?case by simp
qed simp

lemma from_to_be_bytes: "n < u64_size \<Longrightarrow> from_be_bytes (to_be_bytes n) = n"
  unfolding from_be_bytes_def to_be_bytes_def by (rule foldl_be_bytes) (simp add: u64_size_def)

lemma decode_file_id_to_be_bytes:
  "n < u64_size \<Longrightarrow> n \<noteq> 0 \<Longrightarrow> decode_file_id (to_be_bytes n) rec = Ok n"
  by (simp add: decode_file_id_def Let_def from_to_be_bytes) (simp add: to_be_bytes_def)

lemma from_be_bytes_bound: "length bs = 8 \<Longrightarrow> from_be_bytes bs < u64_size"
proof -
  have "foldl (\<lambda>acc b. 256 * acc + unat b) 0 bs < 256 ^ length bs" for bs :: bytes
  proof (induction bs rule: rev_induct)
    case (snoc b bs)
    have "unat b < 256" by (rule order_less_le_trans [OF unsigned_less]) simp
    with snoc show ?case by simp
  qed simp
  from this [of bs] show "length bs = 8 \<Longrightarrow> ?thesis" by (simp add: from_be_bytes_def u64_size_def)
qed

lemma decode_file_id_Ok:
  "decode_file_id bs rec = Ok n \<Longrightarrow> 0 < n \<and> n < u64_size"
  by (auto simp: decode_file_id_def Let_def from_be_bytes_bound split: if_splits)

lemma decode_file_id_no_panic [simp]: "decode_file_id bs rec \<noteq> Panic p"
  by (simp add: decode_file_id_def Let_def)

lemma decode_file_id_record: "decode_file_id bs rec = Ok n \<longleftrightarrow> decode_file_id bs rec' = Ok n"
  by (simp add: decode_file_id_def Let_def)

lemma to_be_bytes_inj: "m < u64_size \<Longrightarrow> n < u64_size \<Longrightarrow> to_be_bytes m = to_be_bytes n \<longleftrightarrow> m = n"
  by (metis from_to_be_bytes)

end
