(* ===== verification/Cache.thy ===== *)
theory Cache
  imports Errors
begin

text \<open>
  The cache configuration and the cache statistics (\<open>rust/src/cache.rs\<close>). The caches themselves and the
  metrics recorder belong to SlateDB and foyer: their default options and the lookup of a recorded metric
  are arguments; a cache that is built is represented by the options it was built with.
\<close>

record CacheConfig =
  block_cache_size_bytes :: u64
  metadata_cache_size_bytes :: u64
  cache_shards :: "usize option"
  persistent_cache_path :: "string option"
  persistent_cache_size_bytes :: usize
  persistent_cache_part_size_bytes :: usize
  persistent_cache_on_flush :: bool
  persistent_cache_on_compaction :: bool

text \<open>\<open>DEFAULT_BLOCK_CACHE_CAPACITY\<close> and \<open>DEFAULT_META_CACHE_CAPACITY\<close> are constants of SlateDB.\<close>

definition cache_config_default :: "u64 \<Rightarrow> u64 \<Rightarrow> CacheConfig" where
  "cache_config_default block_capacity meta_capacity =
     \<lparr>block_cache_size_bytes = block_capacity, metadata_cache_size_bytes = meta_capacity,
      cache_shards = None, persistent_cache_path = None,
      persistent_cache_size_bytes = 16 * 1024 * 1024 * 1024,
      persistent_cache_part_size_bytes = 4 * 1024 * 1024,
      persistent_cache_on_flush = False, persistent_cache_on_compaction = False\<rparr>"

record ObjectStoreCacheOptions =
  root_folder :: "string option"
  max_cache_size_bytes :: "usize option"
  part_size_bytes :: usize
  cache_on_flush :: bool
  cache_on_compaction :: bool

definition object_store_cache_options ::
  "ObjectStoreCacheOptions \<Rightarrow> CacheConfig \<Rightarrow> ObjectStoreCacheOptions" where
  "object_store_cache_options default_options c =
     (case persistent_cache_path c of
        None \<Rightarrow> default_options
      | Some p \<Rightarrow> default_options\<lparr>root_folder := Some p,
          max_cache_size_bytes := Some (persistent_cache_size_bytes c),
          part_size_bytes := persistent_cache_part_size_bytes c,
          cache_on_flush := persistent_cache_on_flush c,
          cache_on_compaction := persistent_cache_on_compaction c\<rparr>)"

record FoyerCacheOptions =
  max_capacity :: u64
  shards :: usize

record SplitCache =
  sc_block_cache :: "FoyerCacheOptions option"
  sc_meta_cache :: "FoyerCacheOptions option"

definition build_foyer_cache :: "usize \<Rightarrow> u64 \<Rightarrow> usize option \<Rightarrow> FoyerCacheOptions option" where
  "build_foyer_cache default_shards capacity sh =
     (if capacity = 0 then None
      else Some \<lparr>max_capacity = capacity, shards = (case sh of Some n \<Rightarrow> n | None \<Rightarrow> default_shards)\<rparr>)"

definition build_db_cache :: "usize \<Rightarrow> CacheConfig \<Rightarrow> SplitCache option" where
  "build_db_cache default_shards c =
     (if block_cache_size_bytes c = 0 \<and> metadata_cache_size_bytes c = 0 then None
      else Some \<lparr>sc_block_cache = build_foyer_cache default_shards (block_cache_size_bytes c) (cache_shards c),
                 sc_meta_cache = build_foyer_cache default_shards (metadata_cache_size_bytes c) (cache_shards c)\<rparr>)"

section \<open>Statistics\<close>

datatype metric_value = Counter u64 | Gauge int | OtherMetric

type_synonym metrics = "string \<Rightarrow> (string \<times> string) list \<Rightarrow> metric_value option"

definition metric_counter :: "metrics \<Rightarrow> string \<Rightarrow> (string \<times> string) list \<Rightarrow> u64" where
  "metric_counter ms name labels = (case ms name labels of Some (Counter v) \<Rightarrow> v | _ \<Rightarrow> 0)"

text \<open>A gauge is an \<open>i64\<close>; a negative one does not convert to \<open>u64\<close>.\<close>

definition metric_gauge :: "metrics \<Rightarrow> string \<Rightarrow> (string \<times> string) list \<Rightarrow> u64" where
  "metric_gauge ms name labels = (case ms name labels of Some (Gauge v) \<Rightarrow> if v < 0 then 0 else nat v | _ \<Rightarrow> 0)"

record CacheStats =
  st_block_cache_hits :: u64
  st_block_cache_misses :: u64
  st_metadata_cache_hits :: u64
  st_metadata_cache_misses :: u64
  st_persistent_cache_hits :: u64
  st_persistent_cache_misses :: u64
  st_persistent_cache_entries :: u64
  st_persistent_cache_size_bytes :: u64
  st_persistent_cache_evictions :: u64
  st_persistent_cache_evicted_bytes :: u64

definition cache_stats :: "metrics \<Rightarrow> CacheStats" where
  "cache_stats ms =
     (let db_access = (\<lambda>entry_kind result.
            metric_counter ms ''slatedb.db_cache.access_count''
              [(''entry_kind'', entry_kind), (''result'', result)]);
          metadata = (\<lambda>result. foldl (\<lambda>acc k. u64_add acc (db_access k result)) 0 [''filter'', ''index'', ''stats'']);
          persistent_hits = metric_counter ms ''slatedb.object_store_cache.part_hit_count'' [];
          persistent_accesses = metric_counter ms ''slatedb.object_store_cache.part_access_count'' []
      in \<lparr>st_block_cache_hits = db_access ''data_block'' ''hit'',
          st_block_cache_misses = db_access ''data_block'' ''miss'',
          st_metadata_cache_hits = metadata ''hit'',
          st_metadata_cache_misses = metadata ''miss'',
          st_persistent_cache_hits = persistent_hits,
          st_persistent_cache_misses = saturating_sub persistent_accesses persistent_hits,
          st_persistent_cache_entries = metric_gauge ms ''slatedb.object_store_cache.cache_keys'' [],
          st_persistent_cache_size_bytes = metric_gauge ms ''slatedb.object_store_cache.cache_bytes'' [],
          st_persistent_cache_evictions = metric_counter ms ''slatedb.object_store_cache.evicted_keys'' [],
          st_persistent_cache_evicted_bytes = metric_counter ms ''slatedb.object_store_cache.evicted_bytes'' []\<rparr>)"

section \<open>What a configuration enables\<close>

lemma build_db_cache_None [simp]:
  "build_db_cache n c = None \<longleftrightarrow> block_cache_size_bytes c = 0 \<and> metadata_cache_size_bytes c = 0"
  by (simp add: build_db_cache_def)

lemma build_db_cache_parts:
  assumes "build_db_cache n c = Some sc"
  shows "map_option max_capacity (sc_block_cache sc) =
      (if block_cache_size_bytes c = 0 then None else Some (block_cache_size_bytes c))"
    and "map_option max_capacity (sc_meta_cache sc) =
      (if metadata_cache_size_bytes c = 0 then None else Some (metadata_cache_size_bytes c))"
  using assms by (auto simp: build_db_cache_def build_foyer_cache_def split: if_splits)

end
