(* ===== verification/File_System.thy ===== *)
theory File_System
  imports File_Handle Database_Metadata Cache
begin

unbundle bit_operations_syntax

text \<open>
  The filesystem (\<open>rust/src/fs.rs\<close>): it owns one SlateDB per database group, opens readers and writers
  on demand and closes them. Building and closing a \<open>Db\<close> or a \<open>DbReader\<close> is SlateDB's: the record
  \<open>slate_builder\<close> holds those calls, and a builder is the record of what the source sets on it. The map
  of open databases is an association list; the order in which a \<open>HashMap\<close> is drained is unspecified,
  the model drains it in the order of the list. The state of an operation is the filesystem and the
  world of the store.
\<close>

section \<open>Naming of databases\<close>

definition PREFIX :: string where
  "PREFIX = ''duckdb_objfs:''"

definition NAME :: string where
  "NAME = ''SlateDBFileSystem''"

definition DATABASE_COMPANION_SUFFIXES :: "string list" where
  "DATABASE_COMPANION_SUFFIXES = [''.wal'', ''.wal.checkpoint'', ''.wal.recovery'']"

definition strip_suffix :: "string \<Rightarrow> string \<Rightarrow> string option" where
  "strip_suffix s suf =
     (if length suf \<le> length s \<and> drop (length s - length suf) s = suf
      then Some (take (length s - length suf) s) else None)"

fun group_loop :: "path \<Rightarrow> string list \<Rightarrow> string" where
  "group_loop p [] = p"
| "group_loop p (suf # sufs) =
     (case strip_suffix p suf of
        Some database \<Rightarrow> if database \<noteq> [] \<and> last database \<noteq> CHR ''/'' then database else group_loop p sufs
      | None \<Rightarrow> group_loop p sufs)"

definition database_group :: "path \<Rightarrow> string" where
  "database_group p = group_loop p DATABASE_COMPANION_SUFFIXES"

definition can_handle :: "path \<Rightarrow> bool" where
  "can_handle p = prefix PREFIX p"

text \<open>\<open>str::replace\<close> of a one-character pattern.\<close>

definition replace_char :: "char \<Rightarrow> string \<Rightarrow> string \<Rightarrow> string" where
  "replace_char c by s = concat (map (\<lambda>x. if x = c then by else [x]) s)"

definition flatten_group :: "string \<Rightarrow> string" where
  "flatten_group g = replace_char (CHR ''/'') ''%2F'' (replace_char (CHR ''%'') ''%25'' g)"

text \<open>64-bit FNV-1a.\<close>

definition fnv_step :: "64 word \<Rightarrow> char \<Rightarrow> 64 word" where
  "fnv_step h c = (h XOR of_nat (of_char c)) * 0x100000001b3"

definition stable_hash :: "string \<Rightarrow> 64 word" where
  "stable_hash s = foldl fnv_step 0xcbf29ce484222325 s"

section \<open>State\<close>

record db_builder =
  b_path :: string
  b_object_store_cache_options :: ObjectStoreCacheOptions
  b_db_cache :: "(SplitCache \<times> 64 word) option"

record ('s, 'db, 'rd) slate_builder =
  build_db :: "db_builder \<Rightarrow> 's \<Rightarrow> (slatedb_error + 'db) \<times> 's"
  build_reader :: "db_builder \<Rightarrow> 's \<Rightarrow> (slatedb_error + 'rd) \<times> 's"
  close_db :: "'db \<Rightarrow> 's \<Rightarrow> (slatedb_error + unit) \<times> 's"
  close_reader :: "'rd \<Rightarrow> 's \<Rightarrow> (slatedb_error + unit) \<times> 's"
  close_cache :: "SplitCache \<Rightarrow> 's \<Rightarrow> (slatedb_error + unit) \<times> 's"
  cache_options_default :: ObjectStoreCacheOptions
  foyer_default_shards :: usize

record ('db, 'rd) slatedb_client =
  read_write :: "'db option"
  reader :: "'rd option"

definition client_default :: "('db, 'rd) slatedb_client" where
  "client_default = \<lparr>read_write = None, reader = None\<rparr>"

record ('db, 'rd) file_system =
  database_path :: string
  store_location :: string
  cache_config :: CacheConfig
  db_cache :: "SplitCache option"
  databases :: "(string \<times> ('db, 'rd) slatedb_client) list"
  closed :: bool

text \<open>What an OpenDAL operator says about itself.\<close>

record operator_info =
  op_scheme :: string
  op_name :: string
  op_root :: string

definition open_with_cache_config ::
  "('s, 'db, 'rd) slate_builder \<Rightarrow> string \<Rightarrow> operator_info \<Rightarrow> CacheConfig \<Rightarrow> ('db, 'rd) file_system outcome" where
  "open_with_cache_config B dbpath info c =
     (if dbpath = [] then Err (invalid_argument ''database path must not be empty'')
      else Ok \<lparr>database_path = dbpath,
               store_location = op_scheme info @ ''://'' @ op_name info @ op_root info,
               cache_config = c, db_cache = build_db_cache (foyer_default_shards B) c,
               databases = [], closed = False\<rparr>)"

definition filesystem_closed :: error where
  "filesystem_closed = invalid_argument ''filesystem is closed''"

definition slatedb_path :: "('db, 'rd) file_system \<Rightarrow> string \<Rightarrow> string" where
  "slatedb_path fs g = database_path fs @ ''/'' @ flatten_group g"

definition db_cache_id :: "('db, 'rd) file_system \<Rightarrow> string \<Rightarrow> 64 word" where
  "db_cache_id fs g = stable_hash (store_location fs @ ''|'' @ slatedb_path fs g)"

section \<open>Opening clients\<close>

definition fs_builder :: "('s, 'db, 'rd) slate_builder \<Rightarrow> ('db, 'rd) file_system \<Rightarrow> string \<Rightarrow> db_builder" where
  "fs_builder B fs g =
     \<lparr>b_path = slatedb_path fs g,
      b_object_store_cache_options = object_store_cache_options (cache_options_default B) (cache_config fs),
      b_db_cache = map_option (\<lambda>c. (c, db_cache_id fs g)) (db_cache fs)\<rparr>"

definition open_writer ::
  "('s, 'db, 'rd) slate_builder \<Rightarrow> ('db, 'rd) file_system \<Rightarrow> string \<Rightarrow> ('s, 'db) io" where
  "open_writer B fs g = slate (build_db B (fs_builder B fs g))"

definition contains :: "string \<Rightarrow> string \<Rightarrow> bool" where
  "contains needle hay = list_ex (prefix needle) (suffixes hay)"

definition never_written :: "slatedb_error \<Rightarrow> bool" where
  "never_written e \<longleftrightarrow> kind e = Data \<and> contains ''failed to find latest transactional object'' (text_of e)"

definition open_reader ::
  "('s, 'db, 'rd) slate_builder \<Rightarrow> ('db, 'rd) file_system \<Rightarrow> string \<Rightarrow> ('s, 'rd option) io" where
  "open_reader B fs g = (\<lambda>s. case build_reader B (fs_builder B fs g) s of
     (Inr rd, s') \<Rightarrow> (Ok (Some rd), s')
   | (Inl e, s') \<Rightarrow> if never_written e then (Ok None, s') else (Err (from_slatedb_error e), s'))"

definition client_for_group ::
  "string \<Rightarrow> (('db, 'rd) file_system \<times> 's, ('db, 'rd) slatedb_client) io" where
  "client_for_group g =
     io_bind io_get (\<lambda>(fs, _).
       case map_of (databases fs) g of
         Some c \<Rightarrow> io_return c
       | None \<Rightarrow> io_bind (io_fst (io_put (fs\<lparr>databases := databases fs @ [(g, client_default)]\<rparr>)))
                   (\<lambda>_. io_return client_default))"

definition set_client ::
  "string \<Rightarrow> ('db, 'rd) slatedb_client \<Rightarrow> ('db, 'rd) file_system \<Rightarrow> ('db, 'rd) file_system" where
  "set_client g c fs = fs\<lparr>databases := map (\<lambda>e. if fst e = g then (g, c) else e) (databases fs)\<rparr>"

definition open_reader_for ::
  "('s, 'db, 'rd) slate_builder \<Rightarrow> path \<Rightarrow> string \<Rightarrow> ('db, 'rd) slatedb_client
     \<Rightarrow> (('db, 'rd) file_system \<times> 's, ('db, 'rd) slatedb_client) io" where
  "open_reader_for B p g c =
     io_bind io_get (\<lambda>(fs, _).
     io_bind (io_snd (open_reader B fs g)) (\<lambda>found.
     case found of
       None \<Rightarrow> io_lift (Err (file_not_found p))
     | Some rd \<Rightarrow>
         let c' = c\<lparr>reader := Some rd\<rparr> in
         io_bind (io_fst (io_put (set_client g c' fs))) (\<lambda>_. io_return c')))"

definition read_client ::
  "('s, 'db, 'rd) slate_builder \<Rightarrow> path \<Rightarrow> (('db, 'rd) file_system \<times> 's, ('db, 'rd) slatedb_client) io" where
  "read_client B p =
     io_bind io_get (\<lambda>(fs, _).
       if closed fs then io_lift (Err filesystem_closed)
       else
         let g = database_group p in
         io_bind (client_for_group g) (\<lambda>c.
         if read_write c \<noteq> None \<or> reader c \<noteq> None then io_return c
         else open_reader_for B p g c))"

definition write_db ::
  "('s, 'db, 'rd) slate_builder \<Rightarrow> path \<Rightarrow> bool \<Rightarrow> (('db, 'rd) file_system \<times> 's, 'db) io" where
  "write_db B p create =
     io_bind io_get (\<lambda>(fs, _).
       if closed fs then io_lift (Err filesystem_closed)
       else
         let g = database_group p in
         io_bind (client_for_group g) (\<lambda>c.
         case read_write c of
           Some db \<Rightarrow> io_return db
         | None \<Rightarrow>
             io_bind (if \<not> create \<and> reader c = None then open_reader_for B p g c else io_return c) (\<lambda>c.
             io_bind io_get (\<lambda>(fs, _).
             io_bind (io_snd (open_writer B fs g)) (\<lambda>db.
             io_bind (io_fst (io_put (set_client g (c\<lparr>read_write := Some db\<rparr>) fs))) (\<lambda>_.
             io_return db))))))"

section \<open>The operations on paths\<close>

definition open_write_handle ::
  "('s, 'db, 'rd) slate_builder \<Rightarrow> ('s, 'db, 'rd, 'tx) slatedb \<Rightarrow> codec \<Rightarrow> int \<Rightarrow> path \<Rightarrow> FileOpenFlags
     \<Rightarrow> (('db, 'rd) file_system \<times> 's, ('s, 'db, 'rd) file_handle) io" where
  "open_write_handle B S P now p fl =
     io_bind (write_db B p (fl_create fl)) (\<lambda>db.
     io_bind (io_snd (prepare_file_for_open S P now db p (fl_create fl) (fl_truncate_existing fl))) (\<lambda>(file_id, md).
     io_lift (file_handle_new S (ReadWrite db) file_id md fl)))"

definition open_read_handle ::
  "('s, 'db, 'rd) slate_builder \<Rightarrow> ('s, 'db, 'rd, 'tx) slatedb \<Rightarrow> codec \<Rightarrow> path \<Rightarrow> FileOpenFlags
     \<Rightarrow> (('db, 'rd) file_system \<times> 's, ('s, 'db, 'rd) file_handle) io" where
  "open_read_handle B S P p fl =
     io_bind (read_client B p) (\<lambda>c.
     case read_write c of
       Some db \<Rightarrow>
         io_bind (io_snd (dm_open_file P (db_get S db) p)) (\<lambda>(file_id, md).
         io_lift (file_handle_new S (ReadWrite db) file_id md fl))
     | None \<Rightarrow> (case reader c of
         None \<Rightarrow> io_lift (Panic ''read client must contain a reader or writer'')
       | Some rd \<Rightarrow>
           io_bind (io_snd (dm_open_file P (rd_get S rd) p)) (\<lambda>(file_id, md).
           io_lift (file_handle_new S (ReadOnly rd) file_id md fl))))"

definition fs_open_file ::
  "('s, 'db, 'rd) slate_builder \<Rightarrow> ('s, 'db, 'rd, 'tx) slatedb \<Rightarrow> codec \<Rightarrow> int \<Rightarrow> path \<Rightarrow> FileOpenFlags
     \<Rightarrow> (('db, 'rd) file_system \<times> 's, ('s, 'db, 'rd) file_handle) io" where
  "fs_open_file B S P now p fl =
     io_bind (io_lift (flags_validate fl)) (\<lambda>_.
     if fl_write fl then open_write_handle B S P now p fl else open_read_handle B S P p fl)"

definition fs_file_exists ::
  "('s, 'db, 'rd) slate_builder \<Rightarrow> ('s, 'db, 'rd, 'tx) slatedb \<Rightarrow> path \<Rightarrow> (('db, 'rd) file_system \<times> 's, bool) io" where
  "fs_file_exists B S p = (\<lambda>st. case read_client B p st of
     (Ok c, st') \<Rightarrow> (case read_write c of
         Some db \<Rightarrow> io_snd (dm_file_exists (db_get S db) p) st'
       | None \<Rightarrow> (case reader c of
           Some rd \<Rightarrow> io_snd (dm_file_exists (rd_get S rd) p) st'
         | None \<Rightarrow> (Panic ''internal error: entered unreachable code'', st')))
   | (Err e, st') \<Rightarrow> (case e of FileNotFound _ \<Rightarrow> (Ok False, st') | _ \<Rightarrow> (Err e, st'))
   | (Panic q, st') \<Rightarrow> (Panic q, st'))"

definition fs_remove_file ::
  "('s, 'db, 'rd) slate_builder \<Rightarrow> ('s, 'db, 'rd, 'tx) slatedb \<Rightarrow> path \<Rightarrow> (('db, 'rd) file_system \<times> 's, unit) io" where
  "fs_remove_file B S p =
     io_bind (write_db B p False) (\<lambda>db. io_snd (dm_remove_file S db p))"

definition fs_move_file ::
  "('s, 'db, 'rd) slate_builder \<Rightarrow> ('s, 'db, 'rd, 'tx) slatedb \<Rightarrow> path \<Rightarrow> path \<Rightarrow> (('db, 'rd) file_system \<times> 's, unit) io" where
  "fs_move_file B S src target =
     (if database_group src \<noteq> database_group target
      then io_lift (Err (invalid_argument (''cannot move '' @ [char_of (39 :: nat)] @ src @ [char_of (39 :: nat)]
             @ '' to '' @ [char_of (39 :: nat)] @ target @ [char_of (39 :: nat)]
             @ '': files of different databases are stored separately'')))
      else io_bind (write_db B src False) (\<lambda>db. io_snd (dm_move_file S db src target)))"

section \<open>Closing\<close>

text \<open>The first error is kept; every client is closed all the same.\<close>

definition keep_first :: "unit outcome \<Rightarrow> slatedb_error + unit \<Rightarrow> unit outcome" where
  "keep_first result r = (case result of Ok _ \<Rightarrow> from_slate r | _ \<Rightarrow> result)"

definition close_client ::
  "('s, 'db, 'rd) slate_builder \<Rightarrow> ('db, 'rd) slatedb_client \<Rightarrow> unit outcome \<times> 's \<Rightarrow> unit outcome \<times> 's" where
  "close_client B c st =
     (let st1 = (case read_write c of
            None \<Rightarrow> st
          | Some db \<Rightarrow> (case close_db B db (snd st) of (r, s') \<Rightarrow> (keep_first (fst st) r, s')))
      in case reader c of
           None \<Rightarrow> st1
         | Some rd \<Rightarrow> (case close_reader B rd (snd st1) of (r, s') \<Rightarrow> (keep_first (fst st1) r, s')))"

definition fs_close :: "('s, 'db, 'rd) slate_builder \<Rightarrow> (('db, 'rd) file_system \<times> 's, unit) io" where
  "fs_close B = (\<lambda>(fs, s).
     let st = foldl (\<lambda>st e. close_client B (snd e) st) (Ok (), s) (databases fs);
         st' = (case db_cache fs of
            None \<Rightarrow> st
          | Some c \<Rightarrow> (case close_cache B c (snd st) of (r, s') \<Rightarrow> (keep_first (fst st) r, s')))
     in (fst st', (fs\<lparr>closed := True, databases := [], db_cache := None\<rparr>, snd st')))"

section \<open>Configuration of an S3 store\<close>

record S3StorageConfig =
  s3_bucket :: string
  s3_root :: "string option"
  s3_endpoint :: "string option"
  s3_region :: "string option"
  s3_key_id :: "string option"
  s3_secret :: "string option"
  s3_session_token :: "string option"
  s3_use_ssl :: bool
  s3_virtual_host_style :: bool

text \<open>What is set on OpenDAL's S3 builder; \<open>None\<close> or \<open>False\<close> where a setter is not called.\<close>

record s3_builder =
  sb_bucket :: string
  sb_root :: "string option"
  sb_endpoint :: "string option"
  sb_region :: "string option"
  sb_access_key_id :: "string option"
  sb_secret_access_key :: "string option"
  sb_session_token :: "string option"
  sb_skip_signature :: bool
  sb_disable_config_load :: bool
  sb_disable_ec2_metadata :: bool
  sb_virtual_host_style :: bool

definition build_s3_operator :: "S3StorageConfig \<Rightarrow> (s3_builder \<Rightarrow> string + 'o) \<Rightarrow> 'o outcome" where
  "build_s3_operator c operator_new =
     (if s3_bucket c = [] then Err (invalid_argument ''S3 bucket must not be empty'')
      else if (s3_key_id c \<noteq> None) \<noteq> (s3_secret c \<noteq> None)
      then Err (invalid_argument ''S3 key ID and secret must be provided together'')
      else if s3_session_token c \<noteq> None \<and> s3_key_id c = None
      then Err (invalid_argument ''S3 session token requires a key ID and secret'')
      else
        let endpoint = map_option (\<lambda>e. if contains ''://'' e then e
                         else if s3_use_ssl c then ''https://'' @ e else ''http://'' @ e) (s3_endpoint c);
            signed = s3_key_id c \<noteq> None \<and> s3_secret c \<noteq> None;
            builder = \<lparr>sb_bucket = s3_bucket c, sb_root = s3_root c, sb_endpoint = endpoint,
              sb_region = s3_region c,
              sb_access_key_id = (if signed then s3_key_id c else None),
              sb_secret_access_key = (if signed then s3_secret c else None),
              sb_session_token = (if signed then s3_session_token c else None),
              sb_skip_signature = (\<not> signed),
              sb_disable_config_load = True, sb_disable_ec2_metadata = True,
              sb_virtual_host_style = s3_virtual_host_style c\<rparr>
        in case operator_new builder of
             Inr o' \<Rightarrow> Ok o'
           | Inl e \<Rightarrow> Err (io_with_source ''failed to initialize OpenDAL S3 storage'' e))"

end
