(* ===== verification/File_Handle_Spec.thy ===== *)
theory File_Handle_Spec
  imports File_Handle
begin

text \<open>
  What a handle promises: it is a byte array. \<open>file_bytes h v\<close> are the bytes of the file a handle shows
  over a store with contents \<open>v\<close>; reads return parts of it, writes and truncations act on it as
  \<open>spec_write\<close> and \<open>resize\<close> do. The part of the chunks beyond the size has to be zero for that
  (\<open>zero_tail\<close>); successful operations keep it so.
\<close>

section \<open>Abstraction\<close>

definition file_bytes :: "('s, 'db, 'rd) file_handle \<Rightarrow> contents \<Rightarrow> bytes" where
  "file_bytes h v = map (file_byte (chunks h) v) [0 ..< fh_size h]"

definition spec_write :: "bytes \<Rightarrow> u64 \<Rightarrow> bytes \<Rightarrow> bytes" where
  "spec_write file offset data =
     (if data = [] then file
      else overwrite (resize file (max (length file) (offset + length data)) 0) offset data)"

definition zero_tail :: "('s, 'db, 'rd) file_handle \<Rightarrow> contents \<Rightarrow> bool" where
  "zero_tail h v \<longleftrightarrow> (\<forall>p < u64_size. fh_size h \<le> p \<longrightarrow> file_byte (chunks h) v p = 0)"

text \<open>Every position of the file has its byte in a chunk: no holes.\<close>

definition dense :: "('s, 'db, 'rd) file_handle \<Rightarrow> contents \<Rightarrow> bool" where
  "dense h v \<longleftrightarrow> (\<forall>p < fh_size h. covered (chunks h) v p)"

definition fh_wf :: "'s chunk_store \<Rightarrow> ('s, 'db, 'rd) file_handle \<Rightarrow> bool" where
  "fh_wf st h \<longleftrightarrow> cm_store (chunks h) = st \<and> cm_wf (chunks h) \<and> cm_file_id (chunks h) = fh_file_id h
     \<and> fh_size h < u64_size \<and> modified_at_ms h < u64_size
     \<and> (\<not> fl_write (fh_flags h) \<longrightarrow> cm_pending (chunks h) = [] \<and> \<not> metadata_dirty h)"

definition same_handle :: "('s, 'db, 'rd) file_handle \<Rightarrow> ('s, 'db, 'rd) file_handle \<Rightarrow> bool" where
  "same_handle h h' \<longleftrightarrow> client h' = client h \<and> fh_file_id h' = fh_file_id h \<and> fh_flags h' = fh_flags h
     \<and> same_file (chunks h) (chunks h')"

text \<open>Where a sequential write goes.\<close>

abbreviation write_offset :: "('s, 'db, 'rd) file_handle \<Rightarrow> u64" where
  "write_offset h \<equiv> (if fl_append (fh_flags h) then fh_size h else position h)"

lemma same_handle_refl [simp]: "same_handle h h"
  by (simp add: same_handle_def)

lemma same_handle_trans: "same_handle h h' \<Longrightarrow> same_handle h' h'' \<Longrightarrow> same_handle h h''"
  by (auto simp: same_handle_def intro: same_file_trans)

lemma length_file_bytes [simp]: "length (file_bytes h v) = fh_size h"
  by (simp add: file_bytes_def)

lemma nth_file_bytes [simp]: "p < fh_size h \<Longrightarrow> file_bytes h v ! p = file_byte (chunks h) v p"
  by (simp add: file_bytes_def)

lemma drop_take_file_bytes:
  "offset + n \<le> fh_size h \<Longrightarrow>
   take n (drop offset (file_bytes h v)) = map (file_byte (chunks h) v) [offset ..< offset + n]"
  by (auto simp: file_bytes_def take_map drop_map)

lemma length_spec_write:
  "length (spec_write f offset data) = (if data = [] then length f else max (length f) (offset + length data))"
  by (simp add: spec_write_def)

lemma nth_spec_write:
  "p < length (spec_write f offset data) \<Longrightarrow> spec_write f offset data ! p =
     (if offset \<le> p \<and> p < offset + length data then data ! (p - offset)
      else if p < length f then f ! p else 0)"
  by (auto simp: spec_write_def length_spec_write nth_overwrite nth_resize)

text \<open>The bytes of a handle after a change, from the bytes at its positions.\<close>

lemma file_bytes_spec_write:
  assumes "data \<noteq> []" and "fh_size h' = max (fh_size h) (offset + length data)" and "fh_size h' < u64_size"
    and "\<And>p. file_byte (chunks h') v p =
      (if offset \<le> p \<and> p < offset + length data then data ! (p - offset) else file_byte (chunks h) v p)"
    and "zero_tail h v"
  shows "file_bytes h' v = spec_write (file_bytes h v) offset data"
proof (rule nth_equalityI)
  show "length (file_bytes h' v) = length (spec_write (file_bytes h v) offset data)"
    using assms(1,2) by (simp add: length_spec_write)
  fix p assume "p < length (file_bytes h' v)"
  with assms show "file_bytes h' v ! p = spec_write (file_bytes h v) offset data ! p"
    by (auto simp: nth_spec_write length_spec_write zero_tail_def)
qed

lemma file_bytes_resize:
  assumes "fh_size h' = n" and "n < u64_size"
    and "\<And>p. p < n \<Longrightarrow> file_byte (chunks h') v p = (if p < fh_size h then file_byte (chunks h) v p else 0)"
  shows "file_bytes h' v = resize (file_bytes h v) n 0"
  using assms by (intro nth_equalityI) (auto simp: nth_resize)

section \<open>Operations over a store\<close>

context chunk_store_spec
begin

text \<open>A positional read never changes what the store shows and returns a part of the file.\<close>

lemma pread_spec:
  assumes run: "pread h offset (buf, s) = (r, (buf', s'))"
    and h: "fh_wf st h" and keys: "chunk_keys_ok (fh_file_id h) (view s)"
  shows "view s' = view s \<and> length buf' = length buf \<and>
    (case r of
       Ok n \<Rightarrow> fl_read (fh_flags h) \<and> n = min (length buf) (fh_size h - offset) \<and>
              buf' = take n (drop offset (file_bytes h (view s))) @ drop n buf \<and>
              (offset < fh_size h \<and> buf \<noteq> [] \<longrightarrow> readable_at (chunks h) (view s) offset)
     | Err e \<Rightarrow> if fl_read (fh_flags h) then offset < fh_size h \<and> buf \<noteq> []
              else code e = CodeInvalidArgument \<and> buf' = buf
     | Panic _ \<Rightarrow> offset < fh_size h \<and> buf \<noteq> [] \<and> \<not> readable_at (chunks h) (view s) offset)"
proof (cases "ensure_readable (fh_flags h) (fh_file_id h)")
  case (Ok u)
  then have rd: "fl_read (fh_flags h)" by simp
  show ?thesis
  proof (cases "buf = [] \<or> fh_size h \<le> offset")
    case True
    with run Ok rd show ?thesis by (auto simp: pread_def)
  next
    case False
    define n where "n = min (fh_size h - offset) (length buf)"
    have sz: "fh_size h < u64_size" using h by (simp add: fh_wf_def)
    then have n: "0 < n" "offset + n \<le> fh_size h" "n \<le> length buf" "length (take n buf) = n"
      using False by (auto simp: n_def)
    obtain q b1 s1 where q: "cm_read (chunks h) offset (take n buf, s) = (q, (b1, s1))"
      by (metis prod.collapse)
    have m: "cm_store (chunks h) = st" "cm_wf (chunks h)" "chunk_keys_ok (cm_file_id (chunks h)) (view s)"
      using h keys by (auto simp: fh_wf_def)
    note c = cm_read_cases [OF m _ _ q, unfolded n(4)]
    have "usize_try_from (fh_size h - offset) = Some (fh_size h - offset)"
      using sz by (simp add: usize_try_from_def)
    with run Ok False q have eq: "(r, (buf', s')) =
        (case q of Ok _ \<Rightarrow> (Ok n, (b1 @ drop n buf, s1)) | Err e \<Rightarrow> (Err e, (b1 @ drop n buf, s1))
         | Panic e \<Rightarrow> (Panic e, (b1 @ drop n buf, s1)))"
      by (simp add: pread_def n_def [symmetric] Let_def io_bind_def split: outcome.splits)
    have c': "view s1 = view s" "length b1 = n" using c n sz by (auto split: outcome.splits)
    have "n = min (length buf) (fh_size h - offset)" by (simp add: n_def min.commute)
    then show ?thesis
      using c n sz eq c' rd drop_take_file_bytes [OF n(2), of "view s"] False by (cases q) auto
  qed
next
  case (Err e)
  with run show ?thesis
    by (auto simp: pread_def ensure_readable_def flags_ensure_def invalid_argument_def code_def split: if_splits)
next
  case (Panic e)
  then show ?thesis by simp
qed

text \<open>
  A positional write. Without permission, or with a range beyond the address space, nothing changes.
  If the store fails part way the size and the metadata are as before and a prefix of the data may be
  in place. If it succeeds, the handle shows the written file.
\<close>

lemma pwrite_spec:
  assumes run: "pwrite now data offset (h, s) = (r, (h', s'))" and h: "fh_wf st h"
  shows "view s' = view s \<and> fh_wf st h' \<and> same_handle h h' \<and> position h' = position h \<and> (\<forall>p. r \<noteq> Panic p) \<and>
    (\<exists>n \<le> length data.
       (\<forall>p. file_byte (chunks h') (view s) p = (if offset \<le> p \<and> p < offset + n then data ! (p - offset)
          else file_byte (chunks h) (view s) p)) \<and>
       (\<forall>p. covered (chunks h) (view s) p \<or> (offset \<le> p \<and> p < offset + n) \<longrightarrow>
          covered (chunks h') (view s) p) \<and>
       (r = Ok () \<longrightarrow> n = length data \<and> fl_write (fh_flags h) \<and> (data \<noteq> [] \<longrightarrow>
          offset + length data < u64_size \<and> fh_size h' = max (fh_size h) (offset + length data)) \<and>
          (data = [] \<longrightarrow> h' = h)) \<and>
       (r \<noteq> Ok () \<longrightarrow> fh_size h' = fh_size h \<and> modified_at_ms h' = modified_at_ms h \<and>
          metadata_dirty h' = metadata_dirty h \<and> (n = 0 \<longrightarrow> chunks h' = chunks h)))"
proof (cases "fl_write (fh_flags h) \<and> data \<noteq> [] \<and> offset + length data < u64_size")
  case False
  have "r = Ok () \<longleftrightarrow> fl_write (fh_flags h) \<and> data = []" "h' = h" "s' = s" "\<forall>p. r \<noteq> Panic p"
    using run False
    by (auto simp: pwrite_def ensure_writable_def checked_add_def split: if_splits option.splits)
  with h show ?thesis by (intro conjI exI [of _ 0]) auto
next
  case True
  obtain q m' s1 where q: "cm_write data offset (chunks h, s) = (q, (m', s1))" by (metis prod.collapse)
  have m: "cm_store (chunks h) = st" "cm_wf (chunks h)" using h by (auto simp: fh_wf_def)
  obtain n where c: "view s1 = view s" "cm_wf m'" "same_file (chunks h) m'" "\<forall>p. q \<noteq> Panic p" "n \<le> length data"
    "q = Ok () \<longrightarrow> n = length data" "n = 0 \<longrightarrow> m' = chunks h"
    "\<forall>p. file_byte m' (view s) p = (if offset \<le> p \<and> p < offset + n then data ! (p - offset)
       else file_byte (chunks h) (view s) p)"
    "\<forall>p. covered (chunks h) (view s) p \<or> (offset \<le> p \<and> p < offset + n) \<longrightarrow> covered m' (view s) p"
    using cm_write_spec [OF q m] True by auto
  let ?h1 = "h\<lparr>chunks := m'\<rparr>"
  let ?h2 = "set_metadata_dirty now
     (if fh_size h < offset + length data then ?h1\<lparr>fh_size := offset + length data\<rparr> else ?h1)"
  have eq: "(r, (h', s')) = (case q of Ok _ \<Rightarrow> (Ok (), (?h2, s1)) | Err e \<Rightarrow> (Err e, (?h1, s1))
      | Panic e \<Rightarrow> (Panic e, (?h1, s1)))"
    using run True q by (cases q) (auto simp: pwrite_def ensure_writable_def checked_add_def)
  show ?thesis
  proof (cases q)
    case (Ok u)
    with eq have "r = Ok ()" "h' = ?h2" "s' = s1" by auto
    moreover have "fh_size ?h2 = max (fh_size h) (offset + length data)" "chunks ?h2 = m'"
      by (auto simp: set_metadata_dirty_def)
    ultimately show ?thesis using h c Ok True
      by (intro conjI exI [of _ n]) (auto simp: fh_wf_def same_handle_def same_file_def set_metadata_dirty_def)
  next
    case (Err e)
    with eq have "r = Err e" "h' = ?h1" "s' = s1" by auto
    then show ?thesis using h c Err True
      by (intro conjI exI [of _ n]) (auto simp: fh_wf_def same_handle_def same_file_def)
  next
    case (Panic e)
    with c(4) show ?thesis by blast
  qed
qed

text \<open>A write that starts inside the file or at its end leaves no hole.\<close>

lemma pwrite_dense:
  assumes run: "pwrite now data offset (h, s) = (Ok (), (h', s'))" and h: "fh_wf st h"
    and d: "dense h (view s)" "offset \<le> fh_size h"
  shows "dense h' (view s)"
proof (cases "data = []")
  case True
  with pwrite_spec [OF run h] d(1) show ?thesis by auto
next
  case False
  with pwrite_spec [OF run h] have n: "fh_size h' = max (fh_size h) (offset + length data)"
    and cov: "\<And>p. covered (chunks h) (view s) p \<or> (offset \<le> p \<and> p < offset + length data) \<Longrightarrow>
       covered (chunks h') (view s) p"
    by auto
  show ?thesis unfolding dense_def
  proof (intro allI impI)
    fix p assume "p < fh_size h'"
    with n d(2) have "p < fh_size h \<or> (offset \<le> p \<and> p < offset + length data)" by auto
    with d(1) show "covered (chunks h') (view s) p" by (intro cov) (auto simp: dense_def)
  qed
qed

text \<open>The refinement: a successful write is the write of the abstract file.\<close>

lemma pwrite_refines:
  assumes run: "pwrite now data offset (h, s) = (Ok (), (h', s'))" and h: "fh_wf st h" "zero_tail h (view s)"
  shows "view s' = view s \<and> file_bytes h' (view s) = spec_write (file_bytes h (view s)) offset data \<and>
    zero_tail h' (view s) \<and> (dense h (view s) \<and> offset \<le> fh_size h \<longrightarrow> dense h' (view s))"
proof (cases "data = []")
  case True
  with pwrite_spec [OF run h(1)] h(2) show ?thesis by (auto simp: spec_write_def)
next
  case False
  with pwrite_spec [OF run h(1)] have *: "view s' = view s" "fh_size h' = max (fh_size h) (offset + length data)"
    "fh_wf st h'" and byte: "\<And>p. file_byte (chunks h') (view s) p =
       (if offset \<le> p \<and> p < offset + length data then data ! (p - offset) else file_byte (chunks h) (view s) p)"
    by auto
  from *(3) have "fh_size h' < u64_size" by (simp add: fh_wf_def)
  from file_bytes_spec_write [OF False *(2) this byte h(2)]
  have "file_bytes h' (view s) = spec_write (file_bytes h (view s)) offset data" .
  moreover have "zero_tail h' (view s)" using h(2) *(2) by (simp add: zero_tail_def byte)
  ultimately show ?thesis using *(1) pwrite_dense [OF run h(1)] by blast
qed

text \<open>Truncation, both ways. A failure changes nothing at all.\<close>

lemma fh_truncate_spec:
  assumes run: "fh_truncate now n (h, s) = (r, (h', s'))"
    and h: "fh_wf st h" and keys: "chunk_keys_ok (fh_file_id h) (view s)" and n: "n < u64_size"
  shows "view s' = view s \<and> fh_wf st h' \<and> same_handle h h' \<and> position h' = position h \<and> (\<forall>p. r \<noteq> Panic p) \<and>
    (r \<noteq> Ok () \<longrightarrow> h' = h) \<and>
    (r = Ok () \<longrightarrow> fl_write (fh_flags h) \<and> fh_size h' = n \<and>
       (\<forall>p < u64_size. (p < n \<or> n < fh_size h \<longrightarrow> file_byte (chunks h') (view s) p =
             (if p < n then file_byte (chunks h) (view s) p else 0))) \<and>
       (fh_size h \<le> n \<longrightarrow> chunks h' = chunks h) \<and>
       (\<forall>p < n. p < fh_size h \<longrightarrow> covered (chunks h) (view s) p \<longrightarrow> covered (chunks h') (view s) p))"
proof (cases "fl_write (fh_flags h) \<and> n \<noteq> fh_size h")
  case False
  have "r = Ok () \<longleftrightarrow> fl_write (fh_flags h)" "h' = h" "s' = s" "\<forall>p. r \<noteq> Panic p"
    using run False by (auto simp: fh_truncate_def ensure_writable_def split: if_splits)
  with False h show ?thesis by (intro conjI) auto
next
  case True
  show ?thesis
  proof (cases "n < fh_size h")
    case grow: False
    with run True have "r = Ok ()" "h' = set_metadata_dirty now (h\<lparr>fh_size := n\<rparr>)" "s' = s"
      by (auto simp: fh_truncate_def ensure_writable_def)
    with h n True grow show ?thesis
      by (auto simp: fh_wf_def same_handle_def set_metadata_dirty_def)
  next
    case shrink: True
    obtain q m' s1 where q: "cm_truncate n (chunks h, s) = (q, (m', s1))" by (metis prod.collapse)
    have m: "cm_store (chunks h) = st" "cm_wf (chunks h)" "chunk_keys_ok (cm_file_id (chunks h)) (view s)"
      using h keys by (auto simp: fh_wf_def)
    note c = cm_truncate_spec [OF q m n]
    have eq: "(r, (h', s')) = (case q of Ok _ \<Rightarrow> (Ok (), (set_metadata_dirty now (h\<lparr>chunks := m', fh_size := n\<rparr>), s1))
        | Err e \<Rightarrow> (Err e, (h\<lparr>chunks := m'\<rparr>, s1)) | Panic e \<Rightarrow> (Panic e, (h\<lparr>chunks := m'\<rparr>, s1)))"
      using run True shrink q by (cases q) (auto simp: fh_truncate_def ensure_writable_def)
    show ?thesis
    proof (cases q)
      case (Ok u)
      with eq c h n True shrink show ?thesis
        by (auto simp: fh_wf_def same_handle_def same_file_def set_metadata_dirty_def)
    next
      case (Err e)
      then have "h\<lparr>chunks := m'\<rparr> = h" using c by simp
      with Err eq c h show ?thesis by auto
    next
      case (Panic e)
      with c show ?thesis by blast
    qed
  qed
qed

lemma fh_truncate_dense:
  assumes run: "fh_truncate now n (h, s) = (Ok (), (h', s'))" and h: "fh_wf st h" "dense h (view s)"
    and keys: "chunk_keys_ok (fh_file_id h) (view s)" and n: "n \<le> fh_size h"
  shows "dense h' (view s)"
proof -
  have "n < u64_size" using h(1) n by (simp add: fh_wf_def)
  from fh_truncate_spec [OF run h(1) keys this] h(2) n show ?thesis by (auto simp: dense_def)
qed

text \<open>Growing only sets the size: the chunks and the store are left alone, so it cannot fail.\<close>

lemma fh_truncate_grow:
  assumes "fl_write (fh_flags h)" and "fh_size h \<le> n"
  shows "\<exists>h'. fh_truncate now n (h, s) = (Ok (), (h', s)) \<and> chunks h' = chunks h \<and> fh_size h' = n"
  using assms by (auto simp: fh_truncate_def ensure_writable_def set_metadata_dirty_def)

lemma fh_truncate_refines:
  assumes run: "fh_truncate now n (h, s) = (Ok (), (h', s'))"
    and h: "fh_wf st h" "zero_tail h (view s)" and keys: "chunk_keys_ok (fh_file_id h) (view s)" and n: "n < u64_size"
  shows "view s' = view s \<and> file_bytes h' (view s) = resize (file_bytes h (view s)) n 0 \<and>
    zero_tail h' (view s) \<and> (dense h (view s) \<and> n \<le> fh_size h \<longrightarrow> dense h' (view s))"
proof -
  note t = fh_truncate_spec [OF run h(1) keys n]
  have byte: "file_byte (chunks h') (view s) p = (if p < n \<and> p < fh_size h then file_byte (chunks h) (view s) p else 0)"
    if "p < u64_size" for p
  proof (cases "n < fh_size h")
    case True
    then show ?thesis using t that by auto
  next
    case False
    then have "chunks h' = chunks h" using t by simp
    then show ?thesis using h(2) that False by (auto simp: zero_tail_def)
  qed
  have "fh_size h' = n" using t by simp
  then have "file_bytes h' (view s) = resize (file_bytes h (view s)) n 0"
    using n byte by (intro file_bytes_resize) auto
  moreover have "zero_tail h' (view s)" using byte \<open>fh_size h' = n\<close> by (simp add: zero_tail_def)
  moreover have "dense h' (view s)" if "dense h (view s)" "n \<le> fh_size h"
    using that t by (auto simp: dense_def)
  ultimately show ?thesis using t by blast
qed

text \<open>Sequential reads and writes move the position by what they transferred.\<close>

lemma fh_read_spec:
  assumes run: "fh_read (h, (buf, s)) = (r, (h', (buf', s')))"
    and h: "fh_wf st h" and keys: "chunk_keys_ok (fh_file_id h) (view s)"
  shows "view s' = view s \<and> length buf' = length buf \<and>
    (case r of
       Ok n \<Rightarrow> n = min (length buf) (fh_size h - position h) \<and> h' = h\<lparr>position := position h + n\<rparr> \<and>
              buf' = take n (drop (position h) (file_bytes h (view s))) @ drop n buf
     | Err e \<Rightarrow> h' = h
     | Panic _ \<Rightarrow> h' = h \<and> position h < fh_size h \<and> buf \<noteq> [] \<and> \<not> readable_at (chunks h) (view s) (position h))"
proof -
  have sz: "fh_size h < u64_size" using h by (simp add: fh_wf_def)
  then have conv: "usize_try_from (fh_size h - position h) = Some (fh_size h - position h)"
    by (simp add: usize_try_from_def)
  define n where "n = min (fh_size h - position h) (length buf)"
  show ?thesis
  proof (cases "n = 0")
    case True
    with run conv show ?thesis
      by (auto simp: fh_read_def saturating_sub_def n_def)
  next
    case False
    obtain q b1 s1 where q: "pread h (position h) (take n buf, s) = (q, (b1, s1))" by (metis prod.collapse)
    note c = pread_spec [OF q h keys]
    have n: "length (take n buf) = n" "min n (fh_size h - position h) = n" "n = min (length buf) (fh_size h - position h)"
      by (auto simp: n_def)
    have add: "u64_add (position h) n = position h + n" using sz False by (intro u64_add_exact) (auto simp: n_def)
    have "(r, (h', (buf', s'))) = (case q of
        Ok k \<Rightarrow> (Ok k, (h\<lparr>position := u64_add (position h) k\<rparr>, (b1 @ drop n buf, s1)))
      | Err e \<Rightarrow> (Err e, (h, (b1 @ drop n buf, s1))) | Panic e \<Rightarrow> (Panic e, (h, (b1 @ drop n buf, s1))))"
      using run conv False q by (cases q) (auto simp: fh_read_def saturating_sub_def n_def [symmetric] Let_def)
    with c n add False show ?thesis by (cases q) auto
  qed
qed

lemma fh_write_spec:
  assumes run: "fh_write now data (h, s) = (r, (h', s'))" and h: "fh_wf st h"
  obtains h1 where "pwrite now data (write_offset h) (h, s) = (case r of Ok _ \<Rightarrow> Ok () | Err e \<Rightarrow> Err e | Panic p \<Rightarrow> Panic p, (h1, s'))"
      and "(\<exists>n. r = Ok n \<and> n = length data \<and> h' = h1\<lparr>position := write_offset h + length data\<rparr>) \<or>
           (\<exists>e. r = Err e \<and> h' = h1)"
  | "data = []" "h' = h" "s' = s" "r = Err (write_overflow h)" "u64_size \<le> write_offset h"
proof -
  obtain q h1 s1 where q: "pwrite now data (write_offset h) (h, s) = (q, (h1, s1))" by (metis prod.collapse)
  note c = pwrite_spec [OF q h]
  show ?thesis
  proof (cases q)
    case (Ok u)
    show ?thesis
    proof (cases "data = [] \<and> u64_size \<le> write_offset h")
      case True
      with c Ok have "h1 = h" by auto
      moreover from q Ok True this have "s1 = s"
        by (auto simp: pwrite_def ensure_writable_def split: if_splits)
      ultimately show ?thesis using run q Ok True that(2)
        by (simp add: fh_write_def Let_def checked_add_def split: if_splits)
    next
      case False
      with c Ok have "write_offset h + length data < u64_size" by (cases "data = []") auto
      with run q Ok that(1) [of h1] show ?thesis
        by (auto simp: fh_write_def Let_def checked_add_def)
    qed
  next
    case (Err e)
    with run q that(1) [of h1] show ?thesis by (auto simp: fh_write_def Let_def)
  next
    case (Panic e)
    with c show ?thesis by blast
  qed
qed

lemma fh_write_refines:
  assumes run: "fh_write now data (h, s) = (Ok n, (h', s'))" and h: "fh_wf st h" "zero_tail h (view s)"
  shows "view s' = view s \<and> fh_wf st h' \<and> same_handle h h' \<and> n = length data \<and>
    position h' = write_offset h + length data \<and>
    file_bytes h' (view s) = spec_write (file_bytes h (view s)) (write_offset h) data \<and> zero_tail h' (view s) \<and>
    (dense h (view s) \<and> write_offset h \<le> fh_size h \<longrightarrow> dense h' (view s))"
  using run h(1)
proof (cases rule: fh_write_spec)
  case (1 h1)
  then have pw: "pwrite now data (write_offset h) (h, s) = (Ok (), (h1, s'))"
    and h': "h' = h1\<lparr>position := write_offset h + length data\<rparr>" "n = length data" by auto
  have "file_bytes h' v = file_bytes h1 v" "zero_tail h' v = zero_tail h1 v" "dense h' v = dense h1 v"
    "fh_wf st h' = fh_wf st h1" "same_handle h h' = same_handle h h1" for v
    unfolding h' by (simp_all add: file_bytes_def zero_tail_def dense_def fh_wf_def same_handle_def)
  with pwrite_refines [OF pw h] pwrite_spec [OF pw h(1)] h' show ?thesis by simp
qed simp

end

end
