(* ===== verification/Proto_Codec.thy ===== *)
theory Proto_Codec
  imports File_Metadata
begin

text \<open>
  An instance of the codec: the protobuf wire format of the message in \<open>proto/metadata.proto\<close>, four
  \<open>uint64\<close> fields numbered 1 to 4, each written as a tag and a base-128 varint unless it is zero. It
  shows that the law of \<open>metadata_codec\<close> can hold; the theorems take any codec with that law.
\<close>

fun put_varint :: "nat \<Rightarrow> bytes" where
  "put_varint n = (if n < 128 then [of_nat n] else of_nat (128 + n mod 128) # put_varint (n div 128))"

declare put_varint.simps [simp del]

fun get_varint :: "bytes \<Rightarrow> (nat \<times> bytes) option" where
  "get_varint [] = None"
| "get_varint (b # bs) =
     (if unat b < 128 then Some (unat b, bs)
      else case get_varint bs of
        None \<Rightarrow> None
      | Some (n, rest) \<Rightarrow> Some (unat b - 128 + 128 * n, rest))"

definition put_field :: "nat \<Rightarrow> u64 \<Rightarrow> bytes" where
  "put_field tag v = (if v = 0 then [] else of_nat (8 * tag) # put_varint v)"

definition proto_encode :: "FileMetadata \<Rightarrow> bytes" where
  "proto_encode md = put_field 1 (md_size md) @ put_field 2 (md_modified_at_ms md)
     @ put_field 3 (md_chunk_size md) @ put_field 4 (md_chunk_base_offset md)"

definition set_field :: "nat \<Rightarrow> u64 \<Rightarrow> FileMetadata \<Rightarrow> FileMetadata" where
  "set_field tag v md =
     (if tag = 8 then md\<lparr>md_size := v\<rparr> else if tag = 16 then md\<lparr>md_modified_at_ms := v\<rparr>
      else if tag = 24 then md\<lparr>md_chunk_size := v\<rparr>
      else if tag = 32 then md\<lparr>md_chunk_base_offset := v\<rparr> else md)"

lemma get_varint_shorter: "get_varint bs = Some (n, rest) \<Longrightarrow> length rest < length bs"
  by (induction bs arbitrary: n rest rule: get_varint.induct)
    (force split: if_splits option.splits prod.splits)+

function decode_fields :: "FileMetadata \<Rightarrow> bytes \<Rightarrow> string + FileMetadata" where
  "decode_fields md [] = Inr md"
| "decode_fields md (b # bs) =
     (if unat b mod 8 \<noteq> 0 \<or> 128 \<le> unat b then Inl ''invalid wire type''
      else case get_varint bs of
        None \<Rightarrow> Inl ''buffer underflow''
      | Some (v, rest) \<Rightarrow> decode_fields (set_field (unat b) (v mod u64_size) md) rest)"
  by pat_completeness auto
termination
  by (relation "measure (\<lambda>(md, bs). length bs)") (auto dest: get_varint_shorter)

definition proto_codec :: codec where
  "proto_codec = \<lparr>encode_to_vec = proto_encode,
     decode = decode_fields \<lparr>md_size = 0, md_modified_at_ms = 0, md_chunk_size = 0, md_chunk_base_offset = 0\<rparr>\<rparr>"

lemma get_put_varint: "get_varint (put_varint n @ rest) = Some (n, rest)"
proof (induction n rule: put_varint.induct)
  case (1 n)
  have b: "unat (of_nat (128 + n mod 128) :: byte) = 128 + n mod 128"
    by (rule unat_of_nat_byte) (use mod_less_divisor [of 128 n] in linarith)
  have s: "unat (of_nat n :: byte) = n" if "n < 128" using that by (intro unat_of_nat_byte) simp
  show ?case
  proof (cases "n < 128")
    case True
    then show ?thesis by (simp add: put_varint.simps [of n] s)
  next
    case False
    with 1 b show ?thesis by (simp add: put_varint.simps [of n])
  qed
qed

lemma decode_put_field:
  assumes "tag \<in> {1, 2, 3, 4}" and "v < u64_size"
  shows "decode_fields md (put_field tag v @ rest) =
    decode_fields (if v = 0 then md else set_field (8 * tag) v md) rest"
proof (cases "v = 0")
  case False
  have "unat (of_nat (8 * tag) :: byte) = 8 * tag" using assms(1) by (intro unat_of_nat_byte) auto
  with False assms show ?thesis by (auto simp: put_field_def get_put_varint)
qed (simp add: put_field_def)

interpretation proto: metadata_codec proto_codec
proof
  fix md assume "metadata_u64 md"
  then show "decode proto_codec (encode_to_vec proto_codec md) = Inr md"
    using decode_put_field [of 4 "md_chunk_base_offset md" _ "[]"]
    by (cases md) (simp add: proto_codec_def proto_encode_def metadata_u64_def decode_put_field set_field_def)
qed

end
