(* ===== verification/File_Handle_Sync.thy ===== *)
theory File_Handle_Sync
  imports File_Handle_Spec Proto_Codec
begin

text \<open>
  Sync over the database: one batch holds the staged chunks and the metadata, so the store shows the
  file before or after a sync and nothing between. The file a handle shows does not depend on whether
  a sync succeeded, and a handle opened on the synced metadata shows the same file.
\<close>

lemma sync_batch_other:
  assumes "\<And>i. k \<noteq> chunk_key (fh_file_id h) i" and "k \<noteq> metadata_key (fh_file_id h)"
    and "cm_file_id (chunks h) = fh_file_id h"
  shows "apply_batch (sync_batch P h) v k = v k"
  using assms flush_other_keys [of k "chunks h" "[]" v] by (simp add: sync_batch_def)

lemma sync_batch_metadata:
  "apply_batch (sync_batch P h) v (metadata_key (fh_file_id h)) = Some (encode_to_bytes P (handle_metadata h))"
  by (simp add: sync_batch_def)

lemma sync_batch_chunk:
  assumes "cm_wf (chunks h)" and "cm_file_id (chunks h) = fh_file_id h" and "i < u64_size"
  shows "apply_batch (sync_batch P h) v (chunk_key (fh_file_id h) i) = chunk_at (chunks h) v i"
  using flush_chunk_at [OF assms(1,3), of "[]" v] assms(2) by (simp add: sync_batch_def)

text \<open>Applying the batch does not change what the handle shows, with its staged chunks or without.\<close>

lemma sync_batch_chunk_at:
  assumes "cm_wf (chunks h)" and "cm_file_id (chunks h) = fh_file_id h" and "i < u64_size"
  shows "chunk_at (mark_flushed (chunks h)) (apply_batch (sync_batch P h) v) i = chunk_at (chunks h) v i"
    and "chunk_at (chunks h) (apply_batch (sync_batch P h) v) i = chunk_at (chunks h) v i"
  using sync_batch_chunk [OF assms, of P v] assms(2)
  by (auto simp: chunk_at_def split: option.splits pending_chunk.splits)

definition shows_same :: "('s, 'db, 'rd) file_handle \<Rightarrow> contents \<Rightarrow> ('s, 'db, 'rd) file_handle \<Rightarrow> contents \<Rightarrow> bool" where
  "shows_same h v h' v' \<longleftrightarrow> fh_size h' = fh_size h \<and>
     (\<forall>p < u64_size. file_byte (chunks h') v' p = file_byte (chunks h) v p \<and>
        (covered (chunks h') v' p \<longleftrightarrow> covered (chunks h) v p))"

lemma shows_same_refl [simp]: "shows_same h v h v"
  by (simp add: shows_same_def)

lemma shows_sameD:
  assumes "shows_same h v h' v'" and "fh_size h < u64_size"
  shows "file_bytes h' v' = file_bytes h v" and "zero_tail h' v' \<longleftrightarrow> zero_tail h v"
    and "dense h' v' \<longleftrightarrow> dense h v"
  using assms by (auto simp: shows_same_def file_bytes_def zero_tail_def dense_def)

lemma shows_sameI:
  assumes g: "geometry (cm_chunk_size (chunks h)) (cm_chunk_base_offset (chunks h))"
    and "same_file (chunks h) (chunks h')" and "fh_size h' = fh_size h"
    and "\<And>i. i < u64_size \<Longrightarrow> chunk_at (chunks h') v' i = chunk_at (chunks h) v i"
  shows "shows_same h v h' v'"
  using assms chunk_index_bound [OF g]
  by (simp add: shows_same_def file_byte_def covered_iff same_file_def)

lemma handle_metadata_u64: "fh_wf st h \<Longrightarrow> metadata_u64 (handle_metadata h)"
  by (auto simp: fh_wf_def metadata_u64_def handle_metadata_def cm_wf_def geometry_def)

lemma sync_batch_keys_ok:
  assumes "cm_wf (chunks h)" and "chunk_keys_ok f v" and "f < u64_size"
  shows "chunk_keys_ok f (apply_batch (sync_batch P h) v)"
proof -
  have "chunk_keys_ok f (apply_batch (add_pending_to_batch (chunks h) []) v)"
    using assms by (intro flush_chunk_keys_ok) auto
  then show ?thesis by (auto simp: sync_batch_def chunk_keys_ok_def split: if_splits)
qed

section \<open>Sync\<close>

sublocale slate_db \<subseteq> wr: chunk_store_spec "slatedb_chunk_store S db" "view db" for db
  unfolding slatedb_chunk_store_def by (rule rw.client.chunk_store_spec_axioms)

context slate_db
begin

lemma sync_spec:
  assumes run: "sync S P (h, s) = (r, (h', s'))"
    and h: "fh_wf (slatedb_chunk_store S db) h" "client h = ReadWrite db"
  shows "(\<forall>p. r \<noteq> Panic p) \<and> (r \<noteq> Ok () \<longrightarrow> h' = h) \<and>
    (view db s' = view db s \<or> view db s' = apply_batch (sync_batch P h) (view db s)) \<and>
    (\<forall>d. d \<noteq> db \<longrightarrow> view d s' = view d s) \<and>
    (r = Ok () \<longrightarrow> (cm_pending (chunks h) = [] \<and> \<not> metadata_dirty h \<and> h' = h \<and> s' = s) \<or>
       (h' = h\<lparr>chunks := mark_flushed (chunks h), metadata_dirty := False\<rparr> \<and>
        view db s' = apply_batch (sync_batch P h) (view db s) \<and> durable db s' = view db s'))"
proof (cases "cm_pending (chunks h) = [] \<and> \<not> metadata_dirty h")
  case True
  with run show ?thesis by (auto simp: sync_def has_pending_changes_def)
next
  case False
  obtain q s1 where w: "db_write S db (sync_batch P h) s = (q, s1)" by fastforce
  obtain q2 s2 where f: "db_flush S db s1 = (q2, s2)" by fastforce
  have run': "(r, (h', s')) = (case q of
      Inl e \<Rightarrow> (Err (from_slatedb_error e), (h, s1))
    | Inr _ \<Rightarrow> (case q2 of Inl e \<Rightarrow> (Err (from_slatedb_error e), (h, s2))
        | Inr _ \<Rightarrow> (Ok (), (h\<lparr>chunks := mark_flushed (chunks h), metadata_dirty := False\<rparr>, s2))))"
    using run False h(2) w f
    by (auto simp: sync_def has_pending_changes_def client_writer_def slate_def io_bind_def split: sum.splits)
  show ?thesis
  proof (cases q)
    case (Inl e)
    with run' write_atomic [OF w] write_other [OF w] show ?thesis by auto
  next
    case (Inr u)
    have v2: "view db s2 = apply_batch (sync_batch P h) (view db s)"
      using write_ok [OF w [unfolded Inr]] flush_view [OF f] by simp
    have other: "view d s2 = view d s" if "d \<noteq> db" for d
      using write_other [OF w that] flush_view [OF f] by simp
    show ?thesis
    proof (cases q2)
      case (Inl e)
      with run' Inr v2 other show ?thesis by auto
    next
      case (Inr u2)
      with run' \<open>q = Inr u\<close> v2 other flush_durable [OF f [unfolded Inr]] show ?thesis by auto
    qed
  qed
qed

text \<open>Whatever a sync returns, the handle still shows the same file, and is well-formed.\<close>

lemma sync_keeps_file:
  assumes run: "sync S P (h, s) = (r, (h', s'))"
    and h: "fh_wf (slatedb_chunk_store S db) h" "client h = ReadWrite db"
  shows "shows_same h (view db s) h' (view db s') \<and> fh_wf (slatedb_chunk_store S db) h' \<and> same_handle h h'
    \<and> position h' = position h"
proof -
  have wf: "cm_wf (chunks h)" "cm_file_id (chunks h) = fh_file_id h" using h(1) by (auto simp: fh_wf_def)
  note g = cm_wf_geometry [OF wf(1)]
  note at = sync_batch_chunk_at [OF wf, of _ P "view db s"]
  let ?h2 = "h\<lparr>chunks := mark_flushed (chunks h), metadata_dirty := False\<rparr>"
  consider "h' = h" "view db s' = view db s" | "h' = h" "view db s' = apply_batch (sync_batch P h) (view db s)"
    | "h' = ?h2" "view db s' = apply_batch (sync_batch P h) (view db s)"
    using sync_spec [OF run h] by (cases r) auto
  then show ?thesis
  proof cases
    case 1
    with h show ?thesis by simp
  next
    case 2
    with h show ?thesis using shows_sameI [OF g, of h "view db s'" "view db s"] at(2) by simp
  next
    case 3
    have "shows_same h (view db s) ?h2 (view db s')"
      using at(1) 3(2) by (intro shows_sameI [OF g]) (simp_all add: same_file_def)
    with 3 h(1) wf show ?thesis by (simp add: fh_wf_def same_handle_def same_file_def)
  qed
qed

text \<open>Sync touches no key of any other file.\<close>

lemma sync_other_keys:
  assumes run: "sync S P (h, s) = (r, (h', s'))"
    and h: "fh_wf (slatedb_chunk_store S db) h" "client h = ReadWrite db"
    and k: "\<And>i. k \<noteq> chunk_key (fh_file_id h) i" "k \<noteq> metadata_key (fh_file_id h)"
  shows "view db s' k = view db s k"
proof -
  have "cm_file_id (chunks h) = fh_file_id h" using h(1) by (simp add: fh_wf_def)
  from sync_batch_other [OF k this] have "apply_batch (sync_batch P h) (view db s) k = view db s k" .
  moreover have "view db s' = view db s \<or> view db s' = apply_batch (sync_batch P h) (view db s)"
    using sync_spec [OF run h] by blast
  ultimately show ?thesis by metis
qed

end

section \<open>Opening\<close>

lemma with_chunk_store_Ok:
  assumes "with_chunk_store_internal c st file_id md fl = Ok h"
    and "file_id < u64_size" and "metadata_u64 md"
  shows "fh_wf st h" and "client h = c" and "fh_file_id h = file_id" and "fh_flags h = fl" and "flags_wf fl"
    and "fh_size h = md_size md" and "handle_metadata h = md"
    and "position h = (if fl_append fl then md_size md else 0)"
    and "(\<exists>rd. c = ReadOnly rd) \<Longrightarrow> fl_read fl \<and> \<not> fl_write fl"
    and "chunks h = chunk_manager_new st file_id (md_chunk_size md) (md_chunk_base_offset md)"
  using assms
  by (auto simp: with_chunk_store_internal_def o_bind_eq_Ok validated_chunk_size_eq_Ok fh_wf_def cm_wf_def
      chunk_manager_new_def geometry_def metadata_u64_def handle_metadata_def
      split: slate_file_client.splits if_splits)

lemma with_chunk_store_no_panic: "with_chunk_store_internal c st file_id md fl \<noteq> Panic p"
  by (auto simp: with_chunk_store_internal_def o_bind_def split: outcome.splits slate_file_client.splits)

text \<open>A handle opened on the metadata another handle synced shows the same file.\<close>

lemma reopen_shows_same:
  assumes h: "fh_wf st h" and md: "handle_metadata h2 = handle_metadata h"
    and h2: "cm_pending (chunks h2) = []" "cm_file_id (chunks h2) = fh_file_id h"
  shows "shows_same h v h2 (apply_batch (sync_batch P h) v)"
proof -
  have wf: "cm_wf (chunks h)" "cm_file_id (chunks h) = fh_file_id h" using h by (auto simp: fh_wf_def)
  have same: "fh_size h2 = fh_size h" "cm_chunk_size (chunks h2) = cm_chunk_size (chunks h)"
    "cm_chunk_base_offset (chunks h2) = cm_chunk_base_offset (chunks h)"
    using md by (simp_all add: handle_metadata_def)
  have "chunk_at (chunks h2) (apply_batch (sync_batch P h) v) i = chunk_at (chunks h) v i"
    if "i < u64_size" for i
    using sync_batch_chunk [OF wf that, of P v] h2 by (simp add: chunk_at_def)
  then show ?thesis
    using chunk_index_bound [OF cm_wf_geometry [OF wf(1)]] same
    by (simp add: shows_same_def file_byte_def covered_iff)
qed

end
