(* ===== verification/File_Session.thy ===== *)
theory File_Session
  imports File_Handle_Sync
begin

text \<open>
  A session: the operations a client applies to one handle, in the order it applies them. \<open>exec_op\<close> runs
  one operation of \<open>file_handle.rs\<close>; \<open>spec_op\<close> is the abstract machine it refines, a byte array and a
  position. \<open>session\<close> is the step relation in which any operation may also fail.
\<close>

datatype file_op =
    Pread usize u64 | Pwrite bytes u64 | Read usize | Write bytes
  | Seek u64 | Reset | Truncate u64 | Sync

definition read_result :: "usize outcome \<times> (bytes \<times> 's) \<Rightarrow> bytes outcome \<times> 's" where
  "read_result q = (case q of
     (Ok n, (buf, s)) \<Rightarrow> (Ok (take n buf), s)
   | (Err e, (buf, s)) \<Rightarrow> (Err e, s)
   | (Panic p, (buf, s)) \<Rightarrow> (Panic p, s))"

definition no_output :: "('s, 'a) io \<Rightarrow> ('s, bytes) io" where
  "no_output m = io_bind m (\<lambda>_. io_return [])"

fun exec_op ::
  "('s, 'db, 'rd, 'tx) slatedb \<Rightarrow> codec \<Rightarrow> int \<times> file_op \<Rightarrow> (('s, 'db, 'rd) file_handle \<times> 's, bytes) io" where
  "exec_op S P (now, Pread n offset) = (\<lambda>(h, s).
     case read_result (pread h offset (replicate n 0, s)) of (r, s') \<Rightarrow> (r, (h, s')))"
| "exec_op S P (now, Read n) = (\<lambda>(h, s).
     case fh_read (h, (replicate n 0, s)) of (q, (h', bs)) \<Rightarrow>
       (case read_result (q, bs) of (r, s') \<Rightarrow> (r, (h', s'))))"
| "exec_op S P (now, Pwrite data offset) = no_output (pwrite now data offset)"
| "exec_op S P (now, Write data) = no_output (fh_write now data)"
| "exec_op S P (now, Seek p) = (\<lambda>(h, s). (Ok [], (seek p h, s)))"
| "exec_op S P (now, Reset) = (\<lambda>(h, s). (Ok [], (reset h, s)))"
| "exec_op S P (now, Truncate n) = no_output (fh_truncate now n)"
| "exec_op S P (now, Sync) = no_output (sync S P)"

definition spec_read :: "bytes \<Rightarrow> u64 \<Rightarrow> usize \<Rightarrow> bytes" where
  "spec_read file offset n = take n (drop offset file)"

fun spec_op :: "bool \<Rightarrow> file_op \<Rightarrow> bytes \<times> u64 \<Rightarrow> bytes \<times> (bytes \<times> u64)" where
  "spec_op app (Pread n offset) (file, pos) = (spec_read file offset n, (file, pos))"
| "spec_op app (Read n) (file, pos) =
     (spec_read file pos n, (file, pos + min n (length file - pos)))"
| "spec_op app (Pwrite data offset) (file, pos) = ([], (spec_write file offset data, pos))"
| "spec_op app (Write data) (file, pos) =
     (let offset = (if app then length file else pos)
      in ([], (spec_write file offset data, offset + length data)))"
| "spec_op app (Seek p) (file, pos) = ([], (file, p))"
| "spec_op app Reset (file, pos) = ([], (file, 0))"
| "spec_op app (Truncate n) (file, pos) = ([], (resize file n 0, pos))"
| "spec_op app Sync (file, pos) = ([], (file, pos))"

fun spec_run :: "bool \<Rightarrow> file_op list \<Rightarrow> bytes \<times> u64 \<Rightarrow> bytes list \<times> (bytes \<times> u64)" where
  "spec_run app [] a = ([], a)"
| "spec_run app (x # xs) a =
     (case spec_op app x a of (out, a') \<Rightarrow>
       case spec_run app xs a' of (outs, a'') \<Rightarrow> (out # outs, a''))"

definition exec_ops ::
  "('s, 'db, 'rd, 'tx) slatedb \<Rightarrow> codec \<Rightarrow> (int \<times> file_op) list
     \<Rightarrow> (('s, 'db, 'rd) file_handle \<times> 's, bytes list) io" where
  "exec_ops S P ops = io_mapM (exec_op S P) ops"

text \<open>The sizes of an operation are \<open>u64\<close> values.\<close>

fun op_u64 :: "file_op \<Rightarrow> bool" where
  "op_u64 (Truncate n) \<longleftrightarrow> n < u64_size"
| "op_u64 op \<longleftrightarrow> True"

definition abs_handle :: "('s, 'db, 'rd) file_handle \<Rightarrow> contents \<Rightarrow> bytes \<times> u64" where
  "abs_handle h v = (file_bytes h v, position h)"

inductive session ::
  "('s, 'db, 'rd, 'tx) slatedb \<Rightarrow> codec \<Rightarrow> ('s, 'db, 'rd) file_handle \<times> 's
     \<Rightarrow> ('s, 'db, 'rd) file_handle \<times> 's \<Rightarrow> bool"
  for S :: "('s, 'db, 'rd, 'tx) slatedb" and P :: codec and c :: "('s, 'db, 'rd) file_handle \<times> 's" where
  session_start: "session S P c c"
| session_step: "session S P c (h, s) \<Longrightarrow> op_u64 op \<Longrightarrow> exec_op S P (now, op) (h, s) = (r, (h', s')) \<Longrightarrow>
    session S P c (h', s')"

inductive_cases session_cases: "session S P c (h, s)"

section \<open>One operation\<close>

text \<open>What a writing client relies on between two operations.\<close>

definition handle_inv ::
  "('s, 'db, 'rd, 'tx) slatedb \<Rightarrow> 'db \<Rightarrow> ('s, 'db, 'rd) file_handle \<Rightarrow> contents \<Rightarrow> bool" where
  "handle_inv S db h v \<longleftrightarrow> fh_wf (slatedb_chunk_store S db) h \<and> client h = ReadWrite db
     \<and> fh_file_id h < u64_size \<and> chunk_keys_ok (fh_file_id h) v"

lemma read_result_eq_Ok:
  "read_result (q, (buf, s)) = (Ok out, s') \<longleftrightarrow> (\<exists>n. q = Ok n \<and> out = take n buf \<and> s' = s)"
  by (auto simp: read_result_def split: outcome.splits)

lemma read_result_state: "read_result (q, (buf, s)) = (r, s') \<Longrightarrow> s' = s"
  by (auto simp: read_result_def split: outcome.splits)

lemma no_output_eq: "no_output m c = (r, c') \<longleftrightarrow>
  (\<exists>q. m c = (q, c') \<and> r = (case q of Ok _ \<Rightarrow> Ok [] | Err e \<Rightarrow> Err e | Panic p \<Rightarrow> Panic p))"
  by (cases "m c"; cases "fst (m c)") (auto simp: no_output_def)

lemma no_output_eq_Ok: "no_output m c = (Ok out, c') \<longleftrightarrow> out = [] \<and> (\<exists>x. m c = (Ok x, c'))"
  by (auto simp: no_output_def io_bind_eq_Ok)

lemma fh_wf_position [simp]: "fh_wf st (h\<lparr>position := p\<rparr>) = fh_wf st h"
  by (simp add: fh_wf_def)

lemma handle_inv_position [simp]: "handle_inv S db (h\<lparr>position := p\<rparr>) v = handle_inv S db h v"
  by (simp add: handle_inv_def)

lemma same_handle_position [simp]: "same_handle h (h'\<lparr>position := p\<rparr>) = same_handle h h'"
  by (simp add: same_handle_def)

lemma shown_position [simp]:
  "file_bytes (h\<lparr>position := p\<rparr>) v = file_bytes h v" "zero_tail (h\<lparr>position := p\<rparr>) v = zero_tail h v"
  "dense (h\<lparr>position := p\<rparr>) v = dense h v"
  by (simp_all add: file_bytes_def zero_tail_def dense_def)

lemma handle_inv_next:
  assumes "handle_inv S db h v" and "same_handle h h'" and "fh_wf (slatedb_chunk_store S db) h'"
    and "chunk_keys_ok (fh_file_id h) v'"
  shows "handle_inv S db h' v'"
  using assms by (simp add: handle_inv_def same_handle_def)

context slate_db
begin

lemma read_op_state:
  assumes "exec_op S P (now, op) (h, s) = (r, (h', s'))" and "op \<in> {Pread n offset, Read n}"
    and "handle_inv S db h (view db s)"
  shows "view db s' = view db s \<and> (\<exists>p. h' = h\<lparr>position := p\<rparr>)"
proof -
  have h: "fh_wf (slatedb_chunk_store S db) h" "chunk_keys_ok (fh_file_id h) (view db s)"
    using assms(3) by (auto simp: handle_inv_def)
  consider "op = Pread n offset" | "op = Read n" using assms(2) by auto
  then show ?thesis
  proof cases
    case 1
    obtain q buf s1 where q: "pread h offset (replicate n 0, s) = (q, (buf, s1))" by (metis prod.collapse)
    with assms(1) 1 have "h' = h" "s' = s1" by (auto split: prod.splits dest: read_result_state)
    with wr.pread_spec [OF q h] show ?thesis by (auto intro!: exI [of _ "position h"])
  next
    case 2
    obtain q h1 buf s1 where q: "fh_read (h, (replicate n 0, s)) = (q, (h1, (buf, s1)))" by (metis prod.collapse)
    with assms(1) 2 have "h' = h1" "s' = s1" by (auto split: prod.splits dest: read_result_state)
    moreover have "\<exists>p. h1 = h\<lparr>position := p\<rparr>"
      using wr.fh_read_spec [OF q h] by (cases q) (auto intro: exI [of _ "position h"])
    ultimately show ?thesis using wr.fh_read_spec [OF q h] by auto
  qed
qed

lemma write_op_state:
  assumes "exec_op S P (now, op) (h, s) = (r, (h', s'))" and "op \<in> {Pwrite data offset, Write data}"
    and "handle_inv S db h (view db s)"
  shows "view db s' = view db s \<and> fh_wf (slatedb_chunk_store S db) h' \<and> same_handle h h' \<and> (\<forall>p. r \<noteq> Panic p)"
proof -
  have h: "fh_wf (slatedb_chunk_store S db) h" using assms(3) by (simp add: handle_inv_def)
  consider "op = Pwrite data offset" | "op = Write data" using assms(2) by auto
  then show ?thesis
  proof cases
    case 1
    with assms(1) obtain q where q: "pwrite now data offset (h, s) = (q, (h', s'))"
      and r: "r = (case q of Ok _ \<Rightarrow> Ok [] | Err e \<Rightarrow> Err e | Panic p \<Rightarrow> Panic p)" by (auto simp: no_output_eq)
    from wr.pwrite_spec [OF q h] r show ?thesis by (cases q) auto
  next
    case 2
    with assms(1) obtain q where q: "fh_write now data (h, s) = (q, (h', s'))"
      and r: "r = (case q of Ok _ \<Rightarrow> Ok [] | Err e \<Rightarrow> Err e | Panic p \<Rightarrow> Panic p)" by (auto simp: no_output_eq)
    from q h show ?thesis
    proof (cases rule: wr.fh_write_spec)
      case (1 h1)
      from wr.pwrite_spec [OF 1(1) h] 1(2) r show ?thesis by (cases q) auto
    next
      case 2
      with h r show ?thesis by simp
    qed
  qed
qed

text \<open>The invariant of a session, and what no operation touches, whether it succeeds or not.\<close>

lemma exec_op_inv:
  assumes run: "exec_op S P (now, op) (h, s) = (r, (h', s'))" and inv: "handle_inv S db h (view db s)"
    and op: "op_u64 op"
  shows "handle_inv S db h' (view db s') \<and> same_handle h h' \<and>
    (op \<noteq> Sync \<or> \<not> fl_write (fh_flags h) \<longrightarrow> view db s' = view db s) \<and>
    (\<forall>k. (\<forall>i. k \<noteq> chunk_key (fh_file_id h) i) \<and> k \<noteq> metadata_key (fh_file_id h) \<longrightarrow> view db s' k = view db s k)"
proof -
  have h: "fh_wf (slatedb_chunk_store S db) h" "chunk_keys_ok (fh_file_id h) (view db s)" "client h = ReadWrite db"
    "fh_file_id h < u64_size"
    using inv by (auto simp: handle_inv_def)
  have quiet: ?thesis if "view db s' = view db s" "same_handle h h'" "fh_wf (slatedb_chunk_store S db) h'"
    using that handle_inv_next [OF inv that(2,3)] h(2) by simp
  show ?thesis
  proof (cases op)
    case (Pread n offset)
    with read_op_state [OF run _ inv, of n offset] h show ?thesis by (intro quiet) auto
  next
    case (Read n)
    with read_op_state [OF run _ inv, of n] h show ?thesis by (intro quiet) auto
  next
    case (Pwrite data offset)
    with write_op_state [OF run _ inv, of data offset] show ?thesis by (intro quiet) auto
  next
    case (Write data)
    with write_op_state [OF run _ inv, of data] show ?thesis by (intro quiet) auto
  next
    case (Seek p)
    with run h(1) show ?thesis by (intro quiet) (auto simp: seek_def)
  next
    case Reset
    with run h(1) show ?thesis by (intro quiet) (auto simp: reset_def)
  next
    case (Truncate n)
    with run obtain q where q: "fh_truncate now n (h, s) = (q, (h', s'))" by (auto simp: no_output_eq)
    from wr.fh_truncate_spec [OF q h(1,2)] op Truncate show ?thesis by (intro quiet) auto
  next
    case Sync
    with run obtain q where q: "sync S P (h, s) = (q, (h', s'))" by (auto simp: no_output_eq)
    have "view db s' = view db s \<or> view db s' = apply_batch (sync_batch P h) (view db s)"
      using sync_spec [OF q h(1,3)] by blast
    moreover have "chunk_keys_ok (fh_file_id h) (apply_batch (sync_batch P h) (view db s))"
      using h by (intro sync_batch_keys_ok) (auto simp: fh_wf_def)
    ultimately have "chunk_keys_ok (fh_file_id h) (view db s')" using h(2) by auto
    moreover have "view db s' = view db s" if "\<not> fl_write (fh_flags h)"
      using q that h(1) by (auto simp: sync_def fh_wf_def has_pending_changes_def)
    moreover note sync_keeps_file [OF q h(1,3)]
    ultimately show ?thesis
      using handle_inv_next [OF inv, of h' "view db s'"] sync_other_keys [OF q h(1,3)] Sync by auto
  qed
qed

text \<open>The simulation: an operation that succeeds does what the abstract machine does.\<close>

lemma exec_op_refines:
  assumes run: "exec_op S P (now, op) (h, s) = (Ok out, (h', s'))" and inv: "handle_inv S db h (view db s)"
    and op: "op_u64 op" and zero: "zero_tail h (view db s)"
  shows "zero_tail h' (view db s') \<and>
    spec_op (fl_append (fh_flags h)) op (abs_handle h (view db s)) = (out, abs_handle h' (view db s'))"
proof -
  have h: "fh_wf (slatedb_chunk_store S db) h" "chunk_keys_ok (fh_file_id h) (view db s)" "client h = ReadWrite db"
    using inv by (auto simp: handle_inv_def)
  have part: "take (min n (length f - i)) (drop i f) = take n (drop i f)" for n i and f :: bytes
    by (simp add: min_def)
  show ?thesis
  proof (cases op)
    case (Pread n offset)
    obtain q buf s1 where q: "pread h offset (replicate n 0, s) = (q, (buf, s1))" by (metis prod.collapse)
    with run Pread obtain k where "q = Ok k" "out = take k buf" "h' = h" "s' = s1"
      by (auto simp: read_result_eq_Ok split: prod.splits)
    with wr.pread_spec [OF q h(1,2)] zero Pread show ?thesis
      using part [of n "file_bytes h (view db s)"] by (simp add: abs_handle_def spec_read_def)
  next
    case (Read n)
    obtain q h1 buf s1 where q: "fh_read (h, (replicate n 0, s)) = (q, (h1, (buf, s1)))" by (metis prod.collapse)
    with run Read obtain k where "q = Ok k" "out = take k buf" "h' = h1" "s' = s1"
      by (auto simp: read_result_eq_Ok split: prod.splits)
    with wr.fh_read_spec [OF q h(1,2)] zero Read show ?thesis
      using part [of n "file_bytes h (view db s)"] by (simp add: abs_handle_def spec_read_def)
  next
    case (Pwrite data offset)
    with run have q: "pwrite now data offset (h, s) = (Ok (), (h', s'))" and "out = []"
      by (auto simp: no_output_eq_Ok)
    with wr.pwrite_refines [OF q h(1) zero] wr.pwrite_spec [OF q h(1)] Pwrite show ?thesis
      by (simp add: abs_handle_def)
  next
    case (Write data)
    with run obtain k where q: "fh_write now data (h, s) = (Ok k, (h', s'))" and "out = []"
      by (auto simp: no_output_eq_Ok)
    with wr.fh_write_refines [OF q h(1) zero] Write show ?thesis
      by (simp add: abs_handle_def Let_def)
  next
    case (Seek p)
    with run zero show ?thesis by (auto simp: seek_def abs_handle_def)
  next
    case Reset
    with run zero show ?thesis by (auto simp: reset_def abs_handle_def)
  next
    case (Truncate n)
    with run have q: "fh_truncate now n (h, s) = (Ok (), (h', s'))" and "out = []"
      by (auto simp: no_output_eq_Ok)
    with wr.fh_truncate_refines [OF q h(1) zero h(2)] wr.fh_truncate_spec [OF q h(1,2)] op Truncate
    show ?thesis by (simp add: abs_handle_def)
  next
    case Sync
    with run have q: "sync S P (h, s) = (Ok (), (h', s'))" and "out = []"
      by (auto simp: no_output_eq_Ok)
    have "fh_size h < u64_size" using h(1) by (simp add: fh_wf_def)
    with \<open>out = []\<close> zero Sync sync_keeps_file [OF q h(1,3)] shows_sameD [of h "view db s" h' "view db s'"]
    show ?thesis by (simp add: abs_handle_def)
  qed
qed

lemma exec_ops_refines:
  assumes "exec_ops S P ops (h, s) = (Ok outs, (h', s'))" and "handle_inv S db h (view db s)"
    and "\<forall>op \<in> snd ` set ops. op_u64 op" and "zero_tail h (view db s)"
  shows "handle_inv S db h' (view db s') \<and> zero_tail h' (view db s') \<and> same_handle h h' \<and>
    spec_run (fl_append (fh_flags h)) (map snd ops) (abs_handle h (view db s)) = (outs, abs_handle h' (view db s'))"
  using assms
proof (induction ops arbitrary: h s outs)
  case (Cons x ops)
  obtain now op where x: "x = (now, op)" by (cases x)
  from Cons.prems(1) obtain out h1 s1 outs1 where 1: "exec_op S P (now, op) (h, s) = (Ok out, (h1, s1))"
    and 2: "exec_ops S P ops (h1, s1) = (Ok outs1, (h', s'))" and outs: "outs = out # outs1"
    by (auto simp: exec_ops_def x io_bind_eq_Ok)
  have op: "op_u64 op" using Cons.prems(3) x by simp
  note i = exec_op_inv [OF 1 Cons.prems(2) op] and r = exec_op_refines [OF 1 Cons.prems(2) op Cons.prems(4)]
  have "fl_append (fh_flags h1) = fl_append (fh_flags h)" using i by (simp add: same_handle_def)
  with Cons.IH [OF 2] i r Cons.prems(3) outs x show ?case by (auto intro: same_handle_trans)
qed (auto simp: exec_ops_def)

lemma session_inv:
  assumes "session S P (h, s) c" and "handle_inv S db h (view db s)"
  shows "handle_inv S db (fst c) (view db (snd c)) \<and> same_handle h (fst c) \<and>
    (\<not> fl_write (fh_flags h) \<longrightarrow> view db (snd c) = view db s) \<and>
    (\<forall>k. (\<forall>i. k \<noteq> chunk_key (fh_file_id h) i) \<and> k \<noteq> metadata_key (fh_file_id h) \<longrightarrow>
       view db (snd c) k = view db s k)"
  using assms
proof (induction rule: session.induct)
  case (session_step h1 s1 op now r h2 s2)
  then have ih: "handle_inv S db h1 (view db s1)" "same_handle h h1" by auto
  note st = exec_op_inv [OF session_step.hyps(3) ih(1) session_step.hyps(2)]
  have "fh_flags h1 = fh_flags h" "fh_file_id h1 = fh_file_id h" using ih(2) by (auto simp: same_handle_def)
  with st session_step ih same_handle_trans [OF ih(2)] show ?case by simp
qed simp

end

end
