(* ===== verification/Database_Metadata_Spec.thy ===== *)
theory Database_Metadata_Spec
  imports Database_Metadata Chunk_Manager_Spec
begin

text \<open>
  What the catalog promises. \<open>catalog v\<close> is the mapping from paths to file ids that contents \<open>v\<close> hold;
  \<open>db_wf\<close> says that the contents are those of a file system: every path has metadata, no two paths
  share an id, no metadata or chunk is without a path, and the counter is above every id. Each
  operation is given as a function on contents, and keeps \<open>db_wf\<close>.
\<close>

section \<open>Catalog and invariant\<close>

definition catalog :: "contents \<Rightarrow> path \<rightharpoonup> u64" where
  "catalog v p = (case v (path_key p) of
     None \<Rightarrow> None
   | Some bs \<Rightarrow> (case decode_file_id bs ''path mapping'' of Ok file_id \<Rightarrow> Some file_id | _ \<Rightarrow> None))"

definition next_file_id :: "contents \<Rightarrow> u64" where
  "next_file_id v = (case v NEXT_FILE_ID_KEY of
     None \<Rightarrow> 1
   | Some bs \<Rightarrow> (case decode_file_id bs ''next file ID'' of Ok n \<Rightarrow> n | _ \<Rightarrow> 0))"

definition metadata_of :: "codec \<Rightarrow> contents \<Rightarrow> u64 \<Rightarrow> FileMetadata option" where
  "metadata_of P v file_id = (case v (metadata_key file_id) of
     None \<Rightarrow> None
   | Some bs \<Rightarrow> (case decode P bs of Inl _ \<Rightarrow> None | Inr md \<Rightarrow> Some md))"

text \<open>Metadata the file handle accepts.\<close>

definition metadata_ok :: "FileMetadata \<Rightarrow> bool" where
  "metadata_ok md \<longleftrightarrow> metadata_u64 md \<and> geometry (md_chunk_size md) (md_chunk_base_offset md)"

definition db_wf :: "codec \<Rightarrow> contents \<Rightarrow> bool" where
  "db_wf P v \<longleftrightarrow>
     (\<forall>p. v (path_key p) \<noteq> None \<longrightarrow> catalog v p \<noteq> None)
   \<and> (\<forall>p q f. catalog v p = Some f \<and> catalog v q = Some f \<longrightarrow> p = q)
   \<and> (\<forall>p f. catalog v p = Some f \<longrightarrow> (\<exists>md. metadata_of P v f = Some md \<and> metadata_ok md))
   \<and> (\<forall>f < u64_size. v (metadata_key f) \<noteq> None \<longrightarrow> f \<in> ran (catalog v))
   \<and> (\<forall>f < u64_size. \<forall>k. v k \<noteq> None \<and> prefix (chunk_prefix f) k \<longrightarrow> f \<in> ran (catalog v))
   \<and> (\<forall>f \<in> ran (catalog v). chunk_keys_ok f v)
   \<and> 0 < next_file_id v \<and> (\<forall>f \<in> ran (catalog v). f < next_file_id v)"

lemma catalog_bound: "catalog v p = Some f \<Longrightarrow> 0 < f \<and> f < u64_size"
  by (auto simp: catalog_def split: option.splits outcome.splits dest: decode_file_id_Ok)

lemma metadata_ok_new [simp]: "metadata_ok (file_metadata_new now)"
  by (simp add: metadata_ok_def)
    (simp add: geometry_def file_metadata_new_def DEFAULT_CHUNK_SIZE_def DEFAULT_CHUNK_BASE_OFFSET_def u64_size_def)

lemma db_wf_path: "db_wf P v \<Longrightarrow> v (path_key p) \<noteq> None \<Longrightarrow> catalog v p \<noteq> None"
  by (simp add: db_wf_def)

lemma db_wf_inj: "db_wf P v \<Longrightarrow> catalog v p = Some f \<Longrightarrow> catalog v q = Some f \<Longrightarrow> p = q"
  unfolding db_wf_def by blast

lemma db_wf_metadata: "db_wf P v \<Longrightarrow> catalog v p = Some f \<Longrightarrow> \<exists>md. metadata_of P v f = Some md \<and> metadata_ok md"
  unfolding db_wf_def by blast

lemma db_wf_orphans:
  "db_wf P v \<Longrightarrow> f < u64_size \<Longrightarrow> v k \<noteq> None \<Longrightarrow> k = metadata_key f \<or> prefix (chunk_prefix f) k \<Longrightarrow>
   f \<in> ran (catalog v)"
  unfolding db_wf_def by blast

lemma db_wf_chunk_keys: "db_wf P v \<Longrightarrow> f \<in> ran (catalog v) \<Longrightarrow> chunk_keys_ok f v"
  unfolding db_wf_def by blast

lemma db_wf_next: "db_wf P v \<Longrightarrow> 0 < next_file_id v" "db_wf P v \<Longrightarrow> catalog v p = Some f \<Longrightarrow> f < next_file_id v"
  unfolding db_wf_def by (blast, blast intro: ranI)

lemma db_wf_empty: "db_wf P Map.empty"
  by (simp add: db_wf_def catalog_def ran_def next_file_id_def)

section \<open>The operations on contents\<close>

definition is_file_key :: "u64 \<Rightarrow> key \<Rightarrow> bool" where
  "is_file_key f k \<longleftrightarrow> k = metadata_key f \<or> prefix (chunk_prefix f) k"

definition without_file :: "u64 \<Rightarrow> contents \<Rightarrow> contents" where
  "without_file f v k = (if is_file_key f k then None else v k)"

definition removed :: "path \<Rightarrow> u64 \<Rightarrow> contents \<Rightarrow> contents" where
  "removed p f v = (without_file f v)(path_key p := None)"

definition moved :: "path \<Rightarrow> path \<Rightarrow> u64 \<Rightarrow> contents \<Rightarrow> contents" where
  "moved src target f v =
     ((case catalog v target of None \<Rightarrow> v | Some g \<Rightarrow> if g = f then v else without_file g v)
       (path_key src := None))(path_key target \<mapsto> to_be_bytes f)"

definition cleared :: "codec \<Rightarrow> u64 \<Rightarrow> FileMetadata \<Rightarrow> contents \<Rightarrow> contents" where
  "cleared P f md v = (\<lambda>k. if prefix (chunk_prefix f) k then None else v k)(metadata_key f \<mapsto> encode_to_bytes P md)"

definition created :: "codec \<Rightarrow> path \<Rightarrow> FileMetadata \<Rightarrow> contents \<Rightarrow> contents" where
  "created P p md v = v(path_key p \<mapsto> to_be_bytes (next_file_id v),
     metadata_key (next_file_id v) \<mapsto> encode_to_bytes P md,
     NEXT_FILE_ID_KEY \<mapsto> to_be_bytes (next_file_id v + 1))"

lemma file_key_others [simp]:
  "\<not> is_file_key f (path_key p)" "f < u64_size \<Longrightarrow> \<not> is_file_key f NEXT_FILE_ID_KEY"
  "\<not> is_file_key f (chunk_key g i) \<or> prefix (chunk_prefix f) (chunk_key g i)"
  by (auto simp: is_file_key_def)

lemma apply_deletes: "apply_batch (map BatchDelete ks) v k = (if k \<in> set ks then None else v k)"
  by (induction ks arbitrary: v) auto

lemma chunk_prefix_unique:
  assumes "prefix (chunk_prefix f) k" and "prefix (chunk_prefix g) k" and "f < u64_size" and "g < u64_size"
  shows "f = g"
proof -
  have "length (chunk_prefix f) = length (chunk_prefix g)" using assms(3,4) by (simp add: key_defs)
  with prefix_same_cases [OF assms(1,2)] have "chunk_prefix f = chunk_prefix g"
    by (auto simp: prefix_def)
  with assms(3,4) show ?thesis by (simp add: key_defs)
qed

section \<open>Reading\<close>

text \<open>
  A client that can look keys up: \<open>R s\<close> are the contents it answers from and \<open>W s\<close> is what a lookup
  must not change. A database, a reader and a transaction are such clients.
\<close>

locale kv_reader =
  fixes get :: "key \<Rightarrow> 's \<Rightarrow> (slatedb_error + bytes option) \<times> 's"
    and R :: "'s \<Rightarrow> contents"
    and W :: "'s \<Rightarrow> 'w"
  assumes get_answer: "get k s = (Inr ov, s') \<Longrightarrow> ov = R s k"
    and get_same: "get k s = (q, s') \<Longrightarrow> R s' = R s \<and> W s' = W s"
begin

lemma lookup_cases:
  obtains (answer) s' where "slate (get k) s = (Ok (R s k), s')" and "R s' = R s" and "W s' = W s"
  | (failure) e s' where "slate (get k) s = (Err (from_slatedb_error e), s')" and "R s' = R s" and "W s' = W s"
proof (cases "get k s")
  case (Pair q s')
  with get_same [OF Pair] get_answer that show ?thesis by (cases q) (auto simp: slate_def)
qed

text \<open>Finding a file: what it returns, and that over a well-formed database only the store can fail.\<close>

lemma find_file_spec:
  assumes run: "find_file P get p s = (r, s')"
  shows "R s' = R s \<and> W s' = W s \<and>
    (case r of
       Ok None \<Rightarrow> R s (path_key p) = None
     | Ok (Some (f, md)) \<Rightarrow> catalog (R s) p = Some f \<and> metadata_of P (R s) f = Some md
     | Err e \<Rightarrow> db_wf P (R s) \<longrightarrow> code e = CodeSlateDb
     | Panic _ \<Rightarrow> False)"
proof (cases rule: lookup_cases [of "path_key p" s])
  case (failure e s1)
  with run show ?thesis by (auto simp: find_file_def code_def from_slatedb_error_def Let_def)
next
  case (answer s1)
  show ?thesis
  proof (cases "R s (path_key p)")
    case None
    with run answer show ?thesis by (auto simp: find_file_def)
  next
    case (Some bs)
    show ?thesis
    proof (cases "decode_file_id bs ''path mapping''")
      case (Ok f)
      with Some have cat: "catalog (R s) p = Some f" by (simp add: catalog_def)
      then have md: "\<exists>md. metadata_of P (R s) f = Some md" if "db_wf P (R s)"
        using db_wf_metadata [OF that] by blast
      show ?thesis
      proof (cases rule: lookup_cases [of "metadata_key f" s1])
        case 2: (failure e s2)
        with run answer Some Ok show ?thesis
          by (auto simp: find_file_def code_def from_slatedb_error_def Let_def)
      next
        case 2: (answer s2)
        with run answer Some Ok cat md show ?thesis
          by (auto simp: find_file_def metadata_of_def decode_from_bytes_def split: option.splits sum.splits)
      qed
    next
      case (Err e)
      with Some have "catalog (R s) p = None" by (simp add: catalog_def)
      with Some have "\<not> db_wf P (R s)" unfolding db_wf_def by (metis option.distinct(1))
      with run answer Some Err show ?thesis by (auto simp: find_file_def)
    qed simp
  qed
qed

lemma dm_open_file_spec:
  assumes run: "dm_open_file P get p s = (r, s')"
  shows "R s' = R s \<and> W s' = W s \<and>
    (case r of
       Ok (f, md) \<Rightarrow> p \<noteq> [] \<and> catalog (R s) p = Some f \<and> metadata_of P (R s) f = Some md
     | Err e \<Rightarrow> (code e = CodeFileNotFound \<and> e = file_not_found p \<and> R s (path_key p) = None)
         \<or> (p = [] \<and> code e = CodeInvalidArgument) \<or> (db_wf P (R s) \<longrightarrow> code e = CodeSlateDb)
     | Panic _ \<Rightarrow> False)"
proof (cases "p = []")
  case True
  with run show ?thesis by (auto simp: dm_open_file_def validate_path_def invalid_argument_def code_def)
next
  case False
  obtain q s1 where q: "find_file P get p s = (q, s1)" by fastforce
  note f = find_file_spec [OF q]
  show ?thesis
  proof (cases q)
    case (Ok found)
    with run q f False show ?thesis
      by (cases found) (auto simp: dm_open_file_def validate_path_def file_not_found_def code_def)
  next
    case (Err e)
    with run q f False show ?thesis by (auto simp: dm_open_file_def validate_path_def)
  next
    case (Panic e)
    with f show ?thesis by simp
  qed
qed

lemma dm_file_exists_spec:
  assumes run: "dm_file_exists get p s = (r, s')"
  shows "R s' = R s \<and> W s' = W s \<and>
    (case r of
       Ok b \<Rightarrow> p \<noteq> [] \<and> (b \<longleftrightarrow> R s (path_key p) \<noteq> None)
     | Err e \<Rightarrow> p = [] \<and> code e = CodeInvalidArgument \<or> code e = CodeSlateDb
     | Panic _ \<Rightarrow> False)"
proof (cases rule: lookup_cases [of "path_key p" s])
  case (answer s1)
  with run show ?thesis
    by (auto simp: dm_file_exists_def validate_path_def invalid_argument_def code_def split: if_splits)
next
  case (failure e s1)
  with run show ?thesis
    by (auto simp: dm_file_exists_def validate_path_def invalid_argument_def code_def from_slatedb_error_def Let_def
        split: if_splits)
qed

end

sublocale slate_reads \<subseteq> kv: kv_reader get view view
  by unfold_locales (auto dest: get_value get_view)

sublocale slate_tx \<subseteq> txr: kv_reader "tx_get S tx" "\<lambda>_. apply_batch (tx_writes tx) (tx_snapshot tx)" "\<lambda>s d. view d s"
  for tx
  by unfold_locales (auto dest: tx_get_value tx_reads_view)

section \<open>Transactions\<close>

context slate_tx
begin

text \<open>
  A transaction begun on database \<open>db\<close> when it held \<open>v\<close>, which now sees \<open>w\<close>, in a world where the
  database still holds \<open>v\<close>.
\<close>

definition in_tx :: "'db \<Rightarrow> contents \<Rightarrow> contents \<Rightarrow> 'tx \<Rightarrow> bool" where
  "in_tx db v w tx \<longleftrightarrow> tx_db tx = db \<and> tx_snapshot tx = v \<and> apply_batch (tx_writes tx) v = w"

abbreviation slate_failure :: "error \<Rightarrow> bool" where
  "slate_failure e \<equiv> code e = CodeSlateDb"

lemma slate_failure_from [simp]: "slate_failure (from_slatedb_error e)"
  by (simp add: from_slatedb_error_def code_def Let_def)

lemma begin_sat:
  "io_sat (slate (db_begin S db)) s (\<lambda>r s'. (\<forall>d. view d s' = view d s) \<and>
     (case r of Ok tx \<Rightarrow> in_tx db (view db s) (view db s) tx | Err e \<Rightarrow> slate_failure e | Panic _ \<Rightarrow> False))"
proof (rule io_satI)
  fix r s' assume "slate (db_begin S db) s = (r, s')"
  then obtain q where q: "db_begin S db s = (q, s')" "r = from_slate q" by (auto simp: slate_def split: prod.splits)
  with begin_view [OF q(1)] begin_tx [of db s] show "(\<forall>d. view d s' = view d s) \<and>
     (case r of Ok tx \<Rightarrow> in_tx db (view db s) (view db s) tx | Err e \<Rightarrow> slate_failure e | Panic _ \<Rightarrow> False)"
    by (cases q) (auto simp: in_tx_def)
qed

lemma get_sat:
  assumes "in_tx db v w tx"
  shows "io_sat (slate (tx_get S tx k)) s (\<lambda>r s'. (\<forall>d. view d s' = view d s) \<and>
     (case r of Ok ov \<Rightarrow> ov = w k | Err e \<Rightarrow> slate_failure e | Panic _ \<Rightarrow> False))"
proof (rule io_satI)
  fix r s' assume run: "slate (tx_get S tx k) s = (r, s')"
  show "(\<forall>d. view d s' = view d s) \<and>
     (case r of Ok ov \<Rightarrow> ov = w k | Err e \<Rightarrow> slate_failure e | Panic _ \<Rightarrow> False)"
  proof (cases rule: txr.lookup_cases [of tx k s])
    case (answer s1)
    with run assms fun_cong [OF answer(3)] show ?thesis by (auto simp: in_tx_def)
  next
    case (failure e s1)
    with run fun_cong [OF failure(3)] show ?thesis by auto
  qed
qed

lemma tx_delete_Ok: "in_tx db v w tx \<Longrightarrow> from_slate (tx_delete S tx k) = Ok tx' \<Longrightarrow> in_tx db v (w(k := None)) tx'"
  using tx_delete_state [of tx k tx'] by (auto simp: in_tx_def)

lemma tx_put_Ok: "in_tx db v w tx \<Longrightarrow> from_slate (tx_put S tx k x) = Ok tx' \<Longrightarrow> in_tx db v (w(k \<mapsto> x)) tx'"
  using tx_put_state [of tx k x tx'] by (auto simp: in_tx_def)

lemma from_slate_Err: "from_slate q = Err e \<Longrightarrow> slate_failure e"
  by (cases q) auto

lemma delete_scanned_spec:
  assumes "delete_scanned S tx it = Ok tx'" and "in_tx db v w tx"
  shows "\<exists>kvs. it = map Inr kvs \<and> in_tx db v (\<lambda>k. if k \<in> fst ` set kvs then None else w k) tx'"
  using assms
proof (induction it arbitrary: tx w)
  case (Cons x it)
  then obtain kv tx1 where x: "x = Inr kv" and d: "from_slate (tx_delete S tx (fst kv)) = Ok tx1"
    and rest: "delete_scanned S tx1 it = Ok tx'"
    by (cases x) (auto simp: o_bind_eq_Ok)
  from Cons.IH [OF rest tx_delete_Ok [OF Cons.prems(2) d]] obtain kvs where
    "it = map Inr kvs" "in_tx db v (\<lambda>k. if k \<in> fst ` set kvs then None else (w(fst kv := None)) k) tx'" by blast
  moreover have "(\<lambda>k. if k \<in> fst ` set kvs then None else (w(fst kv := None)) k)
      = (\<lambda>k. if k \<in> fst ` set (kv # kvs) then None else w k)" by auto
  ultimately show ?case using x by (intro exI [of _ "kv # kvs"]) auto
qed (auto simp: in_tx_def)

lemma delete_scanned_fails: "delete_scanned S tx it = Err e \<Longrightarrow> slate_failure e"
  by (induction S tx it rule: delete_scanned.induct) (auto simp: o_bind_def split: outcome.splits dest: from_slate_Err)

lemma delete_scanned_no_panic: "delete_scanned S tx it \<noteq> Panic p"
  by (induction S tx it rule: delete_scanned.induct) (auto simp: o_bind_def split: outcome.splits)

lemma delete_chunks_sat:
  assumes "in_tx db v w tx"
  shows "io_sat (delete_chunks S tx f) s (\<lambda>r s'. (\<forall>d. view d s' = view d s) \<and>
     (case r of Ok tx' \<Rightarrow> in_tx db v (\<lambda>k. if prefix (chunk_prefix f) k then None else w k) tx'
      | Err e \<Rightarrow> slate_failure e | Panic _ \<Rightarrow> False))"
  unfolding delete_chunks_def
proof (rule io_sat_bind [where R = "\<lambda>r s'. (\<forall>d. view d s' = view d s) \<and>
    (case r of Ok it \<Rightarrow> lists_range it (prefix (chunk_prefix f)) w | Err e \<Rightarrow> slate_failure e | Panic _ \<Rightarrow> False)"])
  show "io_sat (slate (tx_scan_prefix S tx (chunk_prefix f))) s (\<lambda>r s'. (\<forall>d. view d s' = view d s) \<and>
    (case r of Ok it \<Rightarrow> lists_range it (prefix (chunk_prefix f)) w | Err e \<Rightarrow> slate_failure e | Panic _ \<Rightarrow> False))"
  proof (rule io_satI)
    fix r s' assume "slate (tx_scan_prefix S tx (chunk_prefix f)) s = (r, s')"
    then obtain q where q: "tx_scan_prefix S tx (chunk_prefix f) s = (q, s')" "r = from_slate q"
      by (auto simp: slate_def split: prod.splits)
    with assms tx_scan_view [OF q(1)] tx_scan_items [of tx "chunk_prefix f" s]
    show "(\<forall>d. view d s' = view d s) \<and> (case r of Ok it \<Rightarrow> lists_range it (prefix (chunk_prefix f)) w
      | Err e \<Rightarrow> slate_failure e | Panic _ \<Rightarrow> False)"
      by (cases q) (auto simp: in_tx_def)
  qed
next
  fix it s'
  assume it: "(\<forall>d. view d s' = view d s) \<and> (case Ok it of Ok it \<Rightarrow> lists_range it (prefix (chunk_prefix f)) w
      | Err e \<Rightarrow> slate_failure e | Panic _ \<Rightarrow> False)"
  show "io_sat (io_lift (delete_scanned S tx it)) s' (\<lambda>r s'. (\<forall>d. view d s' = view d s) \<and>
     (case r of Ok tx' \<Rightarrow> in_tx db v (\<lambda>k. if prefix (chunk_prefix f) k then None else w k) tx'
      | Err e \<Rightarrow> slate_failure e | Panic _ \<Rightarrow> False))"
  proof (cases "delete_scanned S tx it")
    case (Ok tx')
    from delete_scanned_spec [OF Ok assms] obtain kvs where kvs: "it = map Inr kvs"
      "in_tx db v (\<lambda>k. if k \<in> fst ` set kvs then None else w k) tx'" by blast
    with it have e: "entries_of kvs (prefix (chunk_prefix f)) w" by (simp add: lists_range_def)
    have "(\<lambda>k. if k \<in> fst ` set kvs then None else w k) = (\<lambda>k. if prefix (chunk_prefix f) k then None else w k)"
      using entries_of_keys [OF e] by (auto simp: fun_eq_iff domIff)
    with kvs(2) it Ok show ?thesis by (simp add: io_sat_prims)
  next
    case (Err e)
    with it delete_scanned_fails [OF Err] show ?thesis by (simp add: io_sat_prims)
  next
    case (Panic e)
    then show ?thesis using delete_scanned_no_panic by blast
  qed
qed auto

lemma commit_sat:
  assumes "in_tx db v w tx" and "view db s = v"
  shows "io_sat (slate (tx_commit S tx)) s (\<lambda>r s'. (view db s' = v \<or> view db s' = w) \<and>
     (\<forall>d. d \<noteq> db \<longrightarrow> view d s' = view d s) \<and>
     (case r of Ok _ \<Rightarrow> view db s' = w | Err e \<Rightarrow> slate_failure e | Panic _ \<Rightarrow> False))"
proof (rule io_satI)
  fix r s' assume "slate (tx_commit S tx) s = (r, s')"
  then obtain q where q: "tx_commit S tx s = (q, s')" "r = from_slate q" by (auto simp: slate_def split: prod.splits)
  with assms commit_atomic [OF q(1)] commit_other [OF q(1)] commit_ok [of tx s]
  show "(view db s' = v \<or> view db s' = w) \<and> (\<forall>d. d \<noteq> db \<longrightarrow> view d s' = view d s) \<and>
     (case r of Ok _ \<Rightarrow> view db s' = w | Err e \<Rightarrow> slate_failure e | Panic _ \<Rightarrow> False)"
    by (cases q) (auto simp: in_tx_def)
qed

end

end
