(* ===== verification/Database_Catalog.thy ===== *)
theory Database_Catalog
  imports Database_Metadata_Spec
begin

text \<open>
  The operations that change the catalog. Each one leaves the database as it was or changed as a whole,
  and reports success only when the change was made; each change keeps the catalog well-formed.
\<close>

lemma catalog_decode: "v (path_key p) = Some bs \<Longrightarrow> decode_file_id bs rec = Ok f \<Longrightarrow> catalog v p = Some f"
  using decode_file_id_record [of bs rec f "''path mapping''"] by (simp add: catalog_def)

lemma catalog_SomeE:
  assumes "catalog v p = Some f"
  obtains bs where "v (path_key p) = Some bs" and "decode_file_id bs rec = Ok f"
  using assms decode_file_id_record [of _ "''path mapping''" f rec]
  by (auto simp: catalog_def split: option.splits outcome.splits)

lemma decode_file_id_Err: "decode_file_id bs rec = Err e \<Longrightarrow> code e = CodeMetadataDecode"
  by (auto simp: decode_file_id_def metadata_decode_def code_def Let_def split: if_splits)

lemma catalog_undecodable: "v (path_key p) = Some bs \<Longrightarrow> decode_file_id bs rec = Err e \<Longrightarrow> catalog v p = None"
  using decode_file_id_record [of bs "''path mapping''" _ rec]
  by (auto simp: catalog_def split: outcome.splits)

section \<open>The effect of the transactions\<close>

text \<open>How a lookup of a path fails: it is absent or its record is damaged.\<close>

definition path_failure :: "contents \<Rightarrow> path \<Rightarrow> error \<Rightarrow> bool" where
  "path_failure v p e \<longleftrightarrow>
     (p = [] \<and> code e = CodeInvalidArgument)
   \<or> (v (path_key p) = None \<and> e = file_not_found p)
   \<or> (v (path_key p) \<noteq> None \<and> catalog v p = None \<and> code e = CodeMetadataDecode)"

lemma path_failure_wf:
  "path_failure v p e \<Longrightarrow> db_wf P v \<Longrightarrow> p \<noteq> [] \<Longrightarrow> e = file_not_found p \<and> catalog v p = None"
  using db_wf_path [of P v p] by (auto simp: path_failure_def catalog_def)

lemma validate_path_cases: "validate_path p = Ok u \<longleftrightarrow> p \<noteq> []" "validate_path p \<noteq> Panic q"
  "validate_path p = Err e \<Longrightarrow> path_failure v p e"
  by (auto simp: validate_path_def path_failure_def invalid_argument_def code_def split: if_splits)

lemma found_id_cases:
  "(case v (path_key p) of None \<Rightarrow> Err (file_not_found p) | Some bs \<Rightarrow> decode_file_id bs rec) = Ok f \<Longrightarrow> catalog v p = Some f"
  "(case v (path_key p) of None \<Rightarrow> Err (file_not_found p) | Some bs \<Rightarrow> decode_file_id bs rec) = Err e \<Longrightarrow> path_failure v p e"
  "(case v (path_key p) of None \<Rightarrow> Err (file_not_found p) | Some bs \<Rightarrow> decode_file_id bs rec) \<noteq> Panic q"
  by (auto simp: path_failure_def split: option.splits dest: catalog_decode catalog_undecodable decode_file_id_Err)

text \<open>What a catalog operation on \<open>db\<close> may leave behind.\<close>

definition atomic_change :: "('db \<Rightarrow> 's \<Rightarrow> contents) \<Rightarrow> 'db \<Rightarrow> 's \<Rightarrow> 's \<Rightarrow> contents \<Rightarrow> bool" where
  "atomic_change view db s s' w \<longleftrightarrow>
     (view db s' = view db s \<or> view db s' = w) \<and> (\<forall>d. d \<noteq> db \<longrightarrow> view d s' = view d s)"

context slate_tx
begin

abbreviation unchanged :: "'s \<Rightarrow> 's \<Rightarrow> bool" where
  "unchanged s s' \<equiv> (\<forall>d. view d s' = view d s)"

lemma unchanged_atomic: "unchanged s s' \<Longrightarrow> atomic_change view db s s' w"
  by (simp add: atomic_change_def)

text \<open>
  The verification conditions of a transaction: one rule per step, each of which either goes on, in a
  world that shows what it showed when the transaction began, or fails there.
\<close>

lemma vc_validate:
  assumes "p \<noteq> [] \<Longrightarrow> io_sat (f ()) s Q" and "\<And>e. p = [] \<and> code e = CodeInvalidArgument \<Longrightarrow> Q (Err e) s"
  shows "io_sat (io_bind (io_lift (validate_path p)) f) s Q"
  using assms
  by (intro io_sat_bind_lift) (auto simp: validate_path_def invalid_argument_def code_def split: if_splits)

lemma vc_begin:
  assumes "\<And>tx s'. in_tx db (view db s) (view db s) tx \<Longrightarrow> unchanged s s' \<Longrightarrow> io_sat (f tx) s' Q"
    and "\<And>e s'. slate_failure e \<Longrightarrow> unchanged s s' \<Longrightarrow> Q (Err e) s'"
  shows "io_sat (io_bind (slate (db_begin S db)) f) s Q"
  using assms by (intro io_sat_bind [OF begin_sat]) auto

lemma vc_get:
  assumes "in_tx db v w tx" and "unchanged s0 s"
    and "\<And>s'. unchanged s0 s' \<Longrightarrow> io_sat (f (w k)) s' Q"
    and "\<And>e s'. slate_failure e \<Longrightarrow> unchanged s0 s' \<Longrightarrow> Q (Err e) s'"
  shows "io_sat (io_bind (slate (tx_get S tx k)) f) s Q"
  using assms(2-) by (intro io_sat_bind [OF get_sat [OF assms(1)]]) auto

lemma vc_found:
  assumes "\<And>f. catalog v p = Some f \<Longrightarrow> io_sat (g f) s Q" and "\<And>e. path_failure v p e \<Longrightarrow> Q (Err e) s"
  shows "io_sat (io_bind (io_lift (case v (path_key p) of None \<Rightarrow> Err (file_not_found p)
    | Some bs \<Rightarrow> decode_file_id bs rec)) g) s Q"
  using assms found_id_cases [where v = v and p = p and rec = rec] by (intro io_sat_bind_lift) blast+

lemma vc_delete:
  assumes "in_tx db v w tx" and "\<And>tx'. in_tx db v (w(k := None)) tx' \<Longrightarrow> io_sat (f tx') s Q"
    and "\<And>e. slate_failure e \<Longrightarrow> Q (Err e) s"
  shows "io_sat (io_bind (io_lift (from_slate (tx_delete S tx k))) f) s Q"
  using assms(2,3) tx_delete_Ok [OF assms(1)] by (intro io_sat_bind_lift) (auto dest: from_slate_Err)

lemma vc_put:
  assumes "in_tx db v w tx" and "\<And>tx'. in_tx db v (w(k \<mapsto> x)) tx' \<Longrightarrow> io_sat (f tx') s Q"
    and "\<And>e. slate_failure e \<Longrightarrow> Q (Err e) s"
  shows "io_sat (io_bind (io_lift (from_slate (tx_put S tx k x))) f) s Q"
  using assms(2,3) tx_put_Ok [OF assms(1)] by (intro io_sat_bind_lift) (auto dest: from_slate_Err)

lemma vc_chunks:
  assumes "in_tx db v w tx" and "unchanged s0 s"
    and "\<And>tx' s'. in_tx db v (\<lambda>k. if prefix (chunk_prefix g) k then None else w k) tx' \<Longrightarrow> unchanged s0 s' \<Longrightarrow>
      io_sat (f tx') s' Q"
    and "\<And>e s'. slate_failure e \<Longrightarrow> unchanged s0 s' \<Longrightarrow> Q (Err e) s'"
  shows "io_sat (io_bind (delete_chunks S tx g) f) s Q"
  using assms(2-) by (intro io_sat_bind [OF delete_chunks_sat [OF assms(1)]]) auto

lemma vc_commit:
  assumes "in_tx db (view db s0) w tx" and "unchanged s0 s"
    and "\<And>s'. view db s' = w \<Longrightarrow> atomic_change view db s0 s' w \<Longrightarrow> Q (Ok ()) s'"
    and "\<And>e s'. slate_failure e \<Longrightarrow> atomic_change view db s0 s' w \<Longrightarrow> Q (Err e) s'"
  shows "io_sat (slate (tx_commit S tx)) s Q"
  using assms(2-)
  by (intro io_sat_mono [OF commit_sat [OF assms(1)]]) (auto simp: atomic_change_def split: outcome.splits)

lemmas tx_vc = vc_validate vc_begin vc_get vc_found vc_delete vc_put vc_chunks vc_commit

lemma removed_steps:
  "(\<lambda>k. if prefix (chunk_prefix f) k then None else (v(path_key p := None, metadata_key f := None)) k) = removed p f v"
  by (auto simp: removed_def without_file_def is_file_key_def fun_eq_iff)

lemma dm_remove_file_sat:
  "io_sat (dm_remove_file S db p) s (\<lambda>r s'. case r of
     Ok _ \<Rightarrow> \<exists>f. catalog (view db s) p = Some f \<and> view db s' = removed p f (view db s)
              \<and> atomic_change view db s s' (removed p f (view db s))
   | Err e \<Rightarrow> (path_failure (view db s) p e \<and> unchanged s s') \<or>
       (slate_failure e \<and> (unchanged s s' \<or> (\<exists>f. catalog (view db s) p = Some f \<and>
          atomic_change view db s s' (removed p f (view db s)))))
   | Panic _ \<Rightarrow> False)" (is "io_sat _ _ ?Q")
proof -
  have fail: "?Q (Err e) s'" if "slate_failure e" "unchanged s s'" for e s' using that by simp
  have pfail: "?Q (Err e) s'" if "path_failure (view db s) p e" "unchanged s s'" for e s' using that by simp
  show ?thesis
    unfolding dm_remove_file_def
    apply (rule vc_validate)
     apply (rule tx_vc | assumption | (rule fail pfail, assumption, assumption))+
    apply (simp_all only: removed_steps)
    apply (auto simp: path_failure_def)
    done
qed

text \<open>The step of a move that drops what the target path held.\<close>

lemma replace_target_sat:
  assumes tx: "in_tx db v v tx" and u: "unchanged s0 s"
  shows "io_sat (case v (path_key target) of
       None \<Rightarrow> io_return tx
     | Some bs \<Rightarrow>
         io_bind (io_lift (decode_file_id bs ''target path mapping'')) (\<lambda>g.
         if g \<noteq> f
         then io_bind (io_lift (from_slate (tx_delete S tx (metadata_key g)))) (\<lambda>tx. delete_chunks S tx g)
         else io_return tx)) s
    (\<lambda>r s'. unchanged s0 s' \<and> (case r of
       Ok tx' \<Rightarrow> in_tx db v (case catalog v target of None \<Rightarrow> v | Some g \<Rightarrow> if g = f then v else without_file g v) tx'
     | Err e \<Rightarrow> slate_failure e \<or> (path_failure v target e \<and> code e = CodeMetadataDecode)
     | Panic _ \<Rightarrow> False))" (is "io_sat _ _ ?Q")
proof (cases "v (path_key target)")
  case None
  then have "catalog v target = None" by (simp add: catalog_def)
  with None assms show ?thesis by (simp add: io_sat_prims)
next
  case (Some bs)
  show ?thesis
  proof (cases "decode_file_id bs ''target path mapping''")
    case (Ok g)
    with Some have cat: "catalog v target = Some g" by (rule catalog_decode)
    show ?thesis
    proof (cases "g = f")
      case True
      with Some Ok cat assms show ?thesis by (simp add: io_sat_def)
    next
      case False
      have w: "(\<lambda>k. if prefix (chunk_prefix g) k then None else (v(metadata_key g := None)) k) = without_file g v"
        by (auto simp: without_file_def is_file_key_def fun_eq_iff)
      have "io_sat (io_bind (io_lift (from_slate (tx_delete S tx (metadata_key g)))) (\<lambda>tx. delete_chunks S tx g)) s ?Q"
        by (rule vc_delete [OF tx], rule io_sat_mono [OF delete_chunks_sat], assumption)
          (use u cat False w in \<open>auto split: outcome.splits\<close>)
      with Some Ok False show ?thesis by (simp add: io_sat_def)
    qed
  next
    case (Err e)
    then have "path_failure v target e" "code e = CodeMetadataDecode"
      using Some catalog_undecodable [of v target, OF Some Err] decode_file_id_Err [OF Err] by (auto simp: path_failure_def)
    with Some Err u show ?thesis by (simp add: io_sat_def)
  qed simp
qed

lemma vc_target:
  assumes "in_tx db v v tx" and "unchanged s0 s"
    and "\<And>tx' s'. in_tx db v (case catalog v target of None \<Rightarrow> v | Some g \<Rightarrow> if g = f then v else without_file g v) tx' \<Longrightarrow>
      unchanged s0 s' \<Longrightarrow> io_sat (k tx') s' Q"
    and "\<And>e s'. slate_failure e \<Longrightarrow> unchanged s0 s' \<Longrightarrow> Q (Err e) s'"
    and "\<And>e s'. path_failure v target e \<and> code e = CodeMetadataDecode \<Longrightarrow> unchanged s0 s' \<Longrightarrow> Q (Err e) s'"
  shows "io_sat (io_bind (case v (path_key target) of
       None \<Rightarrow> io_return tx
     | Some bs \<Rightarrow>
         io_bind (io_lift (decode_file_id bs ''target path mapping'')) (\<lambda>g.
         if g \<noteq> f
         then io_bind (io_lift (from_slate (tx_delete S tx (metadata_key g)))) (\<lambda>tx. delete_chunks S tx g)
         else io_return tx)) k) s Q"
  using assms(3-) by (intro io_sat_bind [OF replace_target_sat [OF assms(1,2)]]) auto

lemma dm_move_file_sat:
  "io_sat (dm_move_file S db src target) s (\<lambda>r s'. case r of
     Ok _ \<Rightarrow> (src = target \<and> unchanged s s') \<or>
       (src \<noteq> target \<and> (\<exists>f. catalog (view db s) src = Some f \<and> view db s' = moved src target f (view db s)
          \<and> atomic_change view db s s' (moved src target f (view db s))))
   | Err e \<Rightarrow> ((path_failure (view db s) src e \<or> (path_failure (view db s) target e \<and> code e \<noteq> CodeFileNotFound))
          \<and> unchanged s s') \<or>
       (slate_failure e \<and> (unchanged s s' \<or> (\<exists>f. src \<noteq> target \<and> catalog (view db s) src = Some f \<and>
          atomic_change view db s s' (moved src target f (view db s)))))
   | Panic _ \<Rightarrow> False)" (is "io_sat _ _ ?Q")
proof -
  have fail: "?Q (Err e) s'" if "slate_failure e" "unchanged s s'" for e s' using that by simp
  have pfail: "?Q (Err e) s'" if "path_failure (view db s) src e" "unchanged s s'" for e s' using that by simp
  have tfail: "?Q (Err e) s'"
    if "path_failure (view db s) target e \<and> code e = CodeMetadataDecode" "unchanged s s'" for e s' using that by simp
  have empty: "validate_path target = Err e \<Longrightarrow> code e \<noteq> CodeFileNotFound" for e
    by (auto simp: validate_path_def invalid_argument_def code_def split: if_splits)
  show ?thesis
  proof (cases "src \<noteq> [] \<and> target \<noteq> [] \<and> src \<noteq> target")
    case False
    then show ?thesis
      unfolding dm_move_file_def
      using validate_path_cases(3) [of src _ "view db s"] validate_path_cases(3) [of target _ "view db s"] empty
      by (intro io_sat_bind_lift) (auto simp: validate_path_cases io_sat_prims)
  next
    case True
    then have "validate_path src = Ok ()" "validate_path target = Ok ()" by (simp_all add: validate_path_def)
    with True show ?thesis
      unfolding dm_move_file_def
      apply (simp only: io_sat_def io_bind_prims if_False)
      apply (simp only: io_sat_def [symmetric])
      apply (rule vc_target tx_vc | assumption | (rule fail pfail tfail, assumption, assumption))+
       apply (simp_all only: moved_def [symmetric] True)
       apply auto
      done
  qed
qed

text \<open>Creating a file: the counter gives the id, and a counter at its end is an error.\<close>

lemma vc_next:
  assumes "\<And>f. next_file_id v = f \<and> 0 < f \<and> f < u64_size \<Longrightarrow> io_sat (g f) s Q"
    and "\<And>e. next_file_id v = 0 \<and> code e = CodeMetadataDecode \<Longrightarrow> Q (Err e) s"
  shows "io_sat (io_bind (io_lift (case v NEXT_FILE_ID_KEY of
      Some bs \<Rightarrow> decode_file_id bs ''next file ID'' | None \<Rightarrow> Ok 1)) g) s Q"
proof (cases "v NEXT_FILE_ID_KEY")
  case None
  then have "next_file_id v = 1" by (simp add: next_file_id_def)
  with None assms(1) [of 1] show ?thesis by (simp add: io_sat_def u64_size_def)
next
  case (Some bs)
  with assms show ?thesis
    by (intro io_sat_bind_lift)
      (auto simp: next_file_id_def dest: decode_file_id_Ok decode_file_id_Err)
qed

lemma vc_checked:
  assumes "f + 1 < u64_size \<Longrightarrow> io_sat (g (f + 1)) s Q"
    and "\<And>e. u64_size \<le> f + 1 \<and> code e = CodeMetadataDecode \<Longrightarrow> Q (Err e) s"
  shows "io_sat (io_bind (io_lift (case checked_add f 1 of
      None \<Rightarrow> Err (metadata_decode msg) | Some n \<Rightarrow> Ok n)) g) s Q"
  using assms by (intro io_sat_bind_lift)
    (auto simp: checked_add_def metadata_decode_def code_def split: if_splits)

lemma vc_commit_return:
  assumes "in_tx db (view db s0) w tx" and "unchanged s0 s"
    and "\<And>s'. view db s' = w \<Longrightarrow> atomic_change view db s0 s' w \<Longrightarrow> Q (Ok x) s'"
    and "\<And>e s'. slate_failure e \<Longrightarrow> atomic_change view db s0 s' w \<Longrightarrow> Q (Err e) s'"
  shows "io_sat (io_bind (slate (tx_commit S tx)) (\<lambda>_. io_return x)) s Q"
  using assms(2-)
  by (intro io_sat_bind [OF commit_sat [OF assms(1)]]) (auto simp: atomic_change_def io_sat_prims)

lemma created_steps:
  "next_file_id v = f \<Longrightarrow> v(path_key p \<mapsto> to_be_bytes f, metadata_key f \<mapsto> encode_to_bytes P md,
     NEXT_FILE_ID_KEY \<mapsto> to_be_bytes (f + 1)) = created P p md v"
  by (simp add: created_def)

lemma allocate_file_sat:
  assumes tx: "in_tx db (view db s0) (view db s0) tx" and u: "unchanged s0 s"
  shows "io_sat (allocate_file S P now tx p) s (\<lambda>r s'. case r of
     Ok (f, md) \<Rightarrow> f = next_file_id (view db s0) \<and> 0 < f \<and> f + 1 < u64_size \<and> md = file_metadata_new now
        \<and> view db s' = created P p md (view db s0)
        \<and> atomic_change view db s0 s' (created P p md (view db s0))
   | Err e \<Rightarrow> (slate_failure e \<and> (unchanged s0 s' \<or>
          (0 < next_file_id (view db s0) \<and> next_file_id (view db s0) + 1 < u64_size \<and>
           atomic_change view db s0 s' (created P p (file_metadata_new now) (view db s0)))))
       \<or> (code e = CodeMetadataDecode \<and> unchanged s0 s' \<and>
            (next_file_id (view db s0) = 0 \<or> next_file_id (view db s0) = u64_size - 1))
   | Panic _ \<Rightarrow> False)" (is "io_sat _ _ ?Q")
proof -
  have fail: "?Q (Err e) s'" if "slate_failure e" "unchanged s0 s'" for e s' using that by simp
  show ?thesis
    unfolding allocate_file_def Let_def
    apply (rule vc_next vc_checked vc_commit_return vc_get [OF tx u] vc_put [OF tx] vc_put
        | assumption | (rule fail, assumption, assumption))+
       apply (use u in \<open>auto simp: created_def\<close>)
    done
qed

text \<open>Opening for writing: the file found, cleared or created.\<close>

lemma vc_find:
  assumes tx: "in_tx db v v tx" and u: "unchanged s0 s"
    and none: "\<And>s'. unchanged s0 s' \<Longrightarrow> v (path_key p) = None \<Longrightarrow> io_sat (g None) s' Q"
    and some: "\<And>f md s'. unchanged s0 s' \<Longrightarrow> catalog v p = Some f \<Longrightarrow> metadata_of P v f = Some md \<Longrightarrow>
      io_sat (g (Some (f, md))) s' Q"
    and err: "\<And>e s'. unchanged s0 s' \<Longrightarrow> db_wf P v \<longrightarrow> slate_failure e \<Longrightarrow> Q (Err e) s'"
  shows "io_sat (io_bind (find_file P (tx_get S tx) p) g) s Q"
proof (cases "find_file P (tx_get S tx) p s")
  case (Pair r s')
  note f = txr.find_file_spec [OF Pair]
  have w: "apply_batch (tx_writes tx) (tx_snapshot tx) = v" using tx by (auto simp: in_tx_def)
  have "\<forall>d. view d s' = view d s" using f by (metis (no_types))
  with u have u': "unchanged s0 s'" by simp
  show ?thesis
  proof (cases r)
    case (Ok found)
    show ?thesis
    proof (cases found)
      case None
      with Ok f w u' Pair none show ?thesis by (simp add: io_sat_def)
    next
      case (Some fm)
      with Ok f w u' Pair some [of s' "fst fm" "snd fm"] show ?thesis
        by (cases fm) (simp add: io_sat_def)
    qed
  next
    case (Err e)
    with f w u' Pair err show ?thesis by (simp add: io_sat_def)
  next
    case (Panic q)
    with f show ?thesis by simp
  qed
qed

lemma prepare_file_for_open_sat:
  "io_sat (prepare_file_for_open S P now db p create truncate_existing) s (\<lambda>r s'. case r of
     Ok (f, md) \<Rightarrow> p \<noteq> [] \<and>
       (if view db s (path_key p) \<noteq> None
        then catalog (view db s) p = Some f \<and>
          (if truncate_existing
           then md = file_metadata_new now \<and> view db s' = cleared P f md (view db s)
                \<and> atomic_change view db s s' (cleared P f md (view db s))
           else metadata_of P (view db s) f = Some md \<and> unchanged s s')
        else create \<and> f = next_file_id (view db s) \<and> 0 < f \<and> f + 1 < u64_size \<and> md = file_metadata_new now
          \<and> view db s' = created P p md (view db s) \<and> atomic_change view db s s' (created P p md (view db s)))
   | Err e \<Rightarrow>
       (unchanged s s' \<and> ((p = [] \<and> code e = CodeInvalidArgument)
          \<or> (\<not> create \<and> view db s (path_key p) = None \<and> e = file_not_found p)
          \<or> (db_wf P (view db s) \<longrightarrow> slate_failure e \<or>
               code e = CodeMetadataDecode \<and> next_file_id (view db s) = u64_size - 1)))
       \<or> (slate_failure e \<and> truncate_existing \<and> (\<exists>f. catalog (view db s) p = Some f \<and>
            atomic_change view db s s' (cleared P f (file_metadata_new now) (view db s))))
       \<or> (slate_failure e \<and> create \<and> view db s (path_key p) = None \<and> 0 < next_file_id (view db s) \<and>
            next_file_id (view db s) + 1 < u64_size \<and>
            atomic_change view db s s' (created P p (file_metadata_new now) (view db s)))
   | Panic _ \<Rightarrow> False)" (is "io_sat _ _ ?Q")
proof -
  have fail: "?Q (Err e) s'" if "slate_failure e" "unchanged s s'" for e s' using that by simp
  have truncate: "io_sat (io_bind (delete_chunks S tx f) (\<lambda>tx.
      io_bind (io_lift (from_slate (tx_put S tx (metadata_key f) (encode_to_bytes P (file_metadata_new now))))) (\<lambda>tx.
      io_bind (slate (tx_commit S tx)) (\<lambda>_. io_return (f, file_metadata_new now))))) s1 ?Q"
    if "truncate_existing" "in_tx db (view db s) (view db s) tx" "unchanged s s1" "catalog (view db s) p = Some f" "p \<noteq> []" for tx s1 f
    apply (rule vc_chunks [OF that(2,3)] vc_put vc_commit_return | assumption | (rule fail, assumption, assumption))+
     apply (use that in \<open>auto simp: cleared_def elim: catalog_SomeE\<close>)
    done
  show ?thesis
    unfolding prepare_file_for_open_def Let_def
  proof (rule vc_validate, goal_cases)
    case p: 1
    show ?case
    proof (rule vc_begin, goal_cases)
      case tx: (1 tx s1)
      show ?case
      proof (rule vc_find [OF tx], goal_cases)
        case (1 s2)
        show ?case
        proof (cases create)
          case True
          with 1 p show ?thesis
            by (simp, intro io_sat_mono [OF allocate_file_sat [OF tx(1) 1(1)]])
              (auto split: outcome.splits dest: db_wf_next)
        next
          case False
          with 1 show ?thesis by (simp add: io_sat_prims)
        qed
      next
        case (2 f md s2)
        then have "view db s (path_key p) \<noteq> None" by (auto elim: catalog_SomeE)
        with 2 p tx show ?case by (simp add: truncate io_sat_prims)
      next
        case (3 e s2)
        then show ?case by auto
      qed
    qed (rule fail)
  next
    case (2 e)
    then show ?case by simp
  qed
qed

end

end
