(* ===== verification/Database_Wf.thy ===== *)
theory Database_Wf
  imports Database_Catalog
begin

text \<open>
  The changes of the catalog as maps from paths to ids, and that each of them keeps \<open>db_wf\<close>: no two
  paths ever share a file, nothing is left without a path, and an id once used is not given out again.
\<close>

section \<open>Keys of different files\<close>

lemma file_key_unique: "is_file_key f k \<Longrightarrow> is_file_key g k \<Longrightarrow> f < u64_size \<Longrightarrow> g < u64_size \<Longrightarrow> f = g"
  by (auto simp: is_file_key_def dest: chunk_prefix_unique)

lemma file_key_metadata [simp]: "f < u64_size \<Longrightarrow> g < u64_size \<Longrightarrow> is_file_key f (metadata_key g) \<longleftrightarrow> f = g"
  by (auto simp: is_file_key_def)

lemma metadata_of_cong: "v' (metadata_key f) = v (metadata_key f) \<Longrightarrow> metadata_of P v' f = metadata_of P v f"
  by (simp add: metadata_of_def)

lemma chunk_keys_ok_cong:
  "(\<And>k. prefix (chunk_prefix f) k \<Longrightarrow> v' k = v k \<or> v' k = None) \<Longrightarrow> chunk_keys_ok f v \<Longrightarrow> chunk_keys_ok f v'"
  unfolding chunk_keys_ok_def by (metis domIff)

lemma next_file_id_cong: "v' NEXT_FILE_ID_KEY = v NEXT_FILE_ID_KEY \<Longrightarrow> next_file_id v' = next_file_id v"
  by (simp add: next_file_id_def)

lemma catalog_cong: "v' (path_key p) = v (path_key p) \<Longrightarrow> catalog v' p = catalog v p"
  by (simp add: catalog_def)

section \<open>The catalog after a change\<close>

lemma catalog_removed: "catalog (removed p f v) = (catalog v)(p := None)"
  by (auto simp: fun_eq_iff catalog_def removed_def without_file_def)

lemma catalog_without_file [simp]: "catalog (without_file f v) = catalog v"
  by (auto simp: fun_eq_iff catalog_def without_file_def)

lemma catalog_put_path:
  "0 < f \<Longrightarrow> f < u64_size \<Longrightarrow> catalog (v(path_key p \<mapsto> to_be_bytes f)) = (catalog v)(p \<mapsto> f)"
  by (auto simp: fun_eq_iff catalog_def decode_file_id_to_be_bytes)

lemma catalog_delete_path: "catalog (v(path_key p := None)) = (catalog v)(p := None)"
  by (auto simp: fun_eq_iff catalog_def)

lemma catalog_moved:
  assumes "catalog v src = Some f"
  shows "catalog (moved src target f v) = (catalog v)(src := None, target \<mapsto> f)"
  using catalog_bound [OF assms]
  by (simp add: moved_def catalog_put_path catalog_delete_path split: option.split)

lemma catalog_cleared: "catalog (cleared P f md v) = catalog v"
  by (auto simp: fun_eq_iff catalog_def cleared_def)

lemma catalog_created:
  assumes "0 < next_file_id v" and "next_file_id v < u64_size"
  shows "catalog (created P p md v) = (catalog v)(p \<mapsto> next_file_id v)"
  using catalog_put_path [OF assms, of v p] by (auto simp: fun_eq_iff catalog_def created_def split: if_splits)

lemma next_created:
  "next_file_id v + 1 < u64_size \<Longrightarrow> next_file_id (created P p md v) = next_file_id v + 1"
  by (simp add: next_file_id_def created_def decode_file_id_to_be_bytes)

section \<open>Preservation of the invariant\<close>

lemma db_wfI:
  assumes "\<And>p. v (path_key p) \<noteq> None \<Longrightarrow> catalog v p \<noteq> None"
    and "\<And>p q f. catalog v p = Some f \<Longrightarrow> catalog v q = Some f \<Longrightarrow> p = q"
    and "\<And>p f. catalog v p = Some f \<Longrightarrow>
      (\<exists>md. metadata_of P v f = Some md \<and> metadata_ok md) \<and> chunk_keys_ok f v \<and> f < next_file_id v"
    and "\<And>f k. f < u64_size \<Longrightarrow> v k \<noteq> None \<Longrightarrow> is_file_key f k \<Longrightarrow> f \<in> ran (catalog v)"
    and "0 < next_file_id v"
  shows "db_wf P v"
  unfolding db_wf_def using assms by (auto simp: ran_def is_file_key_def) blast+

lemma db_wf_file:
  assumes "db_wf P v" and "catalog v p = Some f"
  shows "(\<exists>md. metadata_of P v f = Some md \<and> metadata_ok md) \<and> chunk_keys_ok f v \<and> f < next_file_id v"
  using db_wf_metadata [OF assms] db_wf_chunk_keys [OF assms(1) ranI [of "catalog v", OF assms(2)]]
    db_wf_next(2) [OF assms] by blast

lemma db_wf_orphan_key: "db_wf P v \<Longrightarrow> f < u64_size \<Longrightarrow> v k \<noteq> None \<Longrightarrow> is_file_key f k \<Longrightarrow> f \<in> ran (catalog v)"
  using db_wf_orphans by (auto simp: is_file_key_def)

text \<open>Taking files away: what is left is as before, and no key of the removed file is left.\<close>

lemma db_wf_shrink:
  assumes wf: "db_wf P v"
    and paths: "\<And>p. v' (path_key p) \<noteq> None \<Longrightarrow> catalog v' p \<noteq> None"
    and inj: "\<And>p q f. catalog v' p = Some f \<Longrightarrow> catalog v' q = Some f \<Longrightarrow> p = q"
    and sub: "ran (catalog v') \<subseteq> ran (catalog v)"
    and same: "\<And>f k. f \<in> ran (catalog v') \<Longrightarrow> is_file_key f k \<Longrightarrow> v' k = v k"
    and gone: "\<And>f k. f < u64_size \<Longrightarrow> v' k \<noteq> None \<Longrightarrow> is_file_key f k \<Longrightarrow> f \<in> ran (catalog v')"
    and "next": "next_file_id v' = next_file_id v"
  shows "db_wf P v'"
proof (rule db_wfI [OF paths inj _ gone])
  fix p f assume f: "catalog v' p = Some f"
  then have fr: "f \<in> ran (catalog v')" by (rule ranI)
  with sub obtain q where q: "catalog v q = Some f" by (auto simp: ran_def)
  have "metadata_of P v' f = metadata_of P v f"
    using same [OF fr, of "metadata_key f"] by (intro metadata_of_cong) (simp add: is_file_key_def)
  moreover have "chunk_keys_ok f v'"
    using db_wf_file [OF wf q] same [OF fr] by (intro chunk_keys_ok_cong [of f v' v]) (auto simp: is_file_key_def)
  ultimately show "(\<exists>md. metadata_of P v' f = Some md \<and> metadata_ok md) \<and> chunk_keys_ok f v' \<and> f < next_file_id v'"
    using db_wf_file [OF wf q] "next" by simp
next
  show "0 < next_file_id v'" using db_wf_next(1) [OF wf] "next" by simp
qed

lemma db_wf_removed:
  assumes wf: "db_wf P v" and f: "catalog v p = Some f"
  shows "db_wf P (removed p f v)"
proof (rule db_wf_shrink [OF wf])
  have fb: "f < u64_size" using catalog_bound [OF f] by simp
  have ran: "g \<in> ran (catalog (removed p f v)) \<longleftrightarrow> g \<in> ran (catalog v) \<and> g \<noteq> f" for g
  proof
    assume "g \<in> ran (catalog (removed p f v))"
    then obtain q where "catalog v q = Some g" "q \<noteq> p" by (auto simp: catalog_removed ran_def split: if_splits)
    then show "g \<in> ran (catalog v) \<and> g \<noteq> f" using db_wf_inj [OF wf f, of q] by (auto intro: ranI)
  next
    assume "g \<in> ran (catalog v) \<and> g \<noteq> f"
    then obtain q where q: "catalog v q = Some g" and "g \<noteq> f" by (auto simp: ran_def)
    with f have "q \<noteq> p" by auto
    with q show "g \<in> ran (catalog (removed p f v))" by (auto simp: catalog_removed ran_def intro!: exI [of _ q])
  qed
  have bound: "g < u64_size" if "g \<in> ran (catalog v)" for g using that catalog_bound by (auto simp: ran_def)
  show "catalog (removed p f v) q \<noteq> None" if "removed p f v (path_key q) \<noteq> None" for q
  proof -
    have "q \<noteq> p" "v (path_key q) \<noteq> None" using that by (auto simp: removed_def without_file_def split: if_splits)
    then show ?thesis using db_wf_path [OF wf, of q] by (simp add: catalog_removed)
  qed
  show "q = q'" if "catalog (removed p f v) q = Some g" "catalog (removed p f v) q' = Some g" for q q' g
    using that db_wf_inj [OF wf] by (auto simp: catalog_removed split: if_splits)
  show "ran (catalog (removed p f v)) \<subseteq> ran (catalog v)" using ran by blast
  show "removed p f v k = v k" if "g \<in> ran (catalog (removed p f v))" "is_file_key g k" for g k
    using that ran bound fb file_key_unique [of f k g] by (auto simp: removed_def without_file_def)
  show "g \<in> ran (catalog (removed p f v))" if "g < u64_size" "removed p f v k \<noteq> None" "is_file_key g k" for g k
    using that db_wf_orphan_key [OF wf that(1) _ that(3)] ran
    by (auto simp: removed_def without_file_def split: if_splits)
  show "next_file_id (removed p f v) = next_file_id v"
    using fb by (intro next_file_id_cong) (simp add: removed_def without_file_def)
qed

lemma db_wf_moved:
  assumes wf: "db_wf P v" and f: "catalog v src = Some f" and ne: "src \<noteq> target"
  shows "db_wf P (moved src target f v)"
proof (rule db_wf_shrink [OF wf])
  let ?v = "moved src target f v"
  have fb: "f < u64_size" "0 < f" using catalog_bound [OF f] by auto
  note cat = catalog_moved [OF f, of target]
  have other: "catalog v target \<noteq> Some f" using db_wf_inj [OF wf f] ne by blast
  have at: "?v k = (if k = path_key target then Some (to_be_bytes f) else if k = path_key src then None
      else if (\<exists>g. catalog v target = Some g \<and> is_file_key g k) then None else v k)" for k
    using other by (auto simp: moved_def without_file_def split: option.split)
  have ran: "g \<in> ran (catalog ?v) \<longleftrightarrow> g \<in> ran (catalog v) \<and> catalog v target \<noteq> Some g" for g
  proof
    assume "g \<in> ran (catalog ?v)"
    then obtain q where "catalog ?v q = Some g" by (auto simp: ran_def)
    then have "g = f \<and> q = target \<or> (q \<noteq> target \<and> catalog v q = Some g)" by (auto simp: cat split: if_splits)
    then show "g \<in> ran (catalog v) \<and> catalog v target \<noteq> Some g"
      using f other db_wf_inj [OF wf, of q g target] by (auto intro: ranI)
  next
    assume "g \<in> ran (catalog v) \<and> catalog v target \<noteq> Some g"
    then obtain q where "catalog v q = Some g" "q \<noteq> target" by (auto simp: ran_def)
    then have "catalog ?v (if q = src then target else q) = Some g" using f by (auto simp: cat)
    then show "g \<in> ran (catalog ?v)" by (rule ranI)
  qed
  have bound: "g < u64_size" if "g \<in> ran (catalog v)" for g using that catalog_bound by (auto simp: ran_def)
  show "catalog ?v q \<noteq> None" if "?v (path_key q) \<noteq> None" for q
  proof -
    have "q = target \<or> q \<noteq> src \<and> v (path_key q) \<noteq> None" using that by (auto simp: at split: if_splits)
    then show ?thesis using db_wf_path [OF wf, of q] by (auto simp: cat)
  qed
  show "q = q'" if "catalog ?v q = Some g" "catalog ?v q' = Some g" for q q' g
  proof -
    have "q = target \<and> g = f \<or> q \<noteq> target \<and> q \<noteq> src \<and> catalog v q = Some g"
      "q' = target \<and> g = f \<or> q' \<noteq> target \<and> q' \<noteq> src \<and> catalog v q' = Some g"
      using that by (auto simp: cat split: if_splits)
    moreover have "q \<noteq> src \<Longrightarrow> catalog v q \<noteq> Some f" "q' \<noteq> src \<Longrightarrow> catalog v q' \<noteq> Some f"
      using db_wf_inj [OF wf f] by blast+
    ultimately show ?thesis using db_wf_inj [OF wf, of q g q'] by blast
  qed
  show "ran (catalog ?v) \<subseteq> ran (catalog v)" using ran by blast
  show "?v k = v k" if "g \<in> ran (catalog ?v)" "is_file_key g k" for g k
  proof -
    have g: "g < u64_size" "catalog v target \<noteq> Some g" using that(1) ran bound by auto
    then have "\<not> (\<exists>h. catalog v target = Some h \<and> is_file_key h k)"
      using file_key_unique [OF _ that(2)] catalog_bound [of v target] by blast
    then show ?thesis using that(2) by (auto simp: at)
  qed
  show "g \<in> ran (catalog ?v)" if "g < u64_size" "?v k \<noteq> None" "is_file_key g k" for g k
    using that db_wf_orphan_key [OF wf that(1) _ that(3)] ran by (auto simp: at split: if_splits)
  show "next_file_id ?v = next_file_id v"
    using catalog_bound [of v target] by (intro next_file_id_cong) (auto simp: at)
qed

text \<open>Rewriting one file in place, and adding one.\<close>

lemma db_wf_rewrite:
  assumes wf: "db_wf P v" and f: "catalog v p = Some f"
    and cat: "catalog v' = catalog v" "\<And>q. v' (path_key q) = v (path_key q)" "v' NEXT_FILE_ID_KEY = v NEXT_FILE_ID_KEY"
    and md: "metadata_of P v' f = Some md" "metadata_ok md" and ch: "chunk_keys_ok f v'"
    and same: "\<And>g k. g < u64_size \<Longrightarrow> g \<noteq> f \<Longrightarrow> is_file_key g k \<Longrightarrow> v' k = v k"
  shows "db_wf P v'"
proof (rule db_wfI)
  show "catalog v' q \<noteq> None" if "v' (path_key q) \<noteq> None" for q using that db_wf_path [OF wf] cat by simp
  show "q = q'" if "catalog v' q = Some g" "catalog v' q' = Some g" for q q' g
    using that db_wf_inj [OF wf, of q g q'] cat by simp
  have nx: "next_file_id v' = next_file_id v" using cat(3) by (rule next_file_id_cong)
  then show "0 < next_file_id v'" using db_wf_next(1) [OF wf] by simp
  show "(\<exists>md. metadata_of P v' g = Some md \<and> metadata_ok md) \<and> chunk_keys_ok g v' \<and> g < next_file_id v'"
    if "catalog v' q = Some g" for q g
  proof (cases "g = f")
    case True
    with md ch that cat(1) nx db_wf_next(2) [OF wf, of q g] show ?thesis by simp
  next
    case False
    have q: "catalog v q = Some g" using that cat by simp
    then have gb: "g < u64_size" using catalog_bound by blast
    have "metadata_of P v' g = metadata_of P v g"
      using same [OF gb False, of "metadata_key g"] gb by (intro metadata_of_cong) simp
    moreover have "chunk_keys_ok g v'"
      using db_wf_file [OF wf q] same [OF gb False] by (intro chunk_keys_ok_cong [of g v' v]) (auto simp: is_file_key_def)
    ultimately show ?thesis using db_wf_file [OF wf q] nx by simp
  qed
  show "g \<in> ran (catalog v')" if "g < u64_size" "v' k \<noteq> None" "is_file_key g k" for g k
  proof (cases "g = f")
    case True
    with f cat show ?thesis by (auto intro: ranI)
  next
    case False
    with that same [OF that(1) False that(3)] db_wf_orphan_key [OF wf that(1) _ that(3)] cat show ?thesis by simp
  qed
qed

lemma metadata_of_encoded:
  assumes "metadata_codec P" and "metadata_u64 md" and "v (metadata_key f) = Some (encode_to_bytes P md)"
  shows "metadata_of P v f = Some md"
  using assms metadata_codec.decode_encode [of P md] by (simp add: metadata_of_def encode_to_bytes_def)

lemma db_wf_cleared:
  assumes wf: "db_wf P v" and f: "catalog v p = Some f" and P: "metadata_codec P" and md: "metadata_ok md"
  shows "db_wf P (cleared P f md v)"
proof (rule db_wf_rewrite [OF wf f catalog_cleared])
  have fb: "f < u64_size" using catalog_bound [OF f] by simp
  show "cleared P f md v (path_key q) = v (path_key q)" for q by (simp add: cleared_def)
  show "cleared P f md v NEXT_FILE_ID_KEY = v NEXT_FILE_ID_KEY" using fb by (simp add: cleared_def)
  show "metadata_of P (cleared P f md v) f = Some md"
    using md by (intro metadata_of_encoded [OF P]) (simp_all add: metadata_ok_def cleared_def)
  show "chunk_keys_ok f (cleared P f md v)" by (auto simp: chunk_keys_ok_def cleared_def split: if_splits)
  show "cleared P f md v k = v k" if "g < u64_size" "g \<noteq> f" "is_file_key g k" for g k
    using that fb file_key_unique [of f k g] by (auto simp: cleared_def is_file_key_def)
qed (rule md)

lemma db_wf_synced:
  assumes wf: "db_wf P v" and f: "catalog v p = Some f" and P: "metadata_codec P" and md: "metadata_ok md"
    and at: "v' (metadata_key f) = Some (encode_to_bytes P md)" and ch: "chunk_keys_ok f v'"
    and other: "\<And>k. (\<And>i. k \<noteq> chunk_key f i) \<Longrightarrow> k \<noteq> metadata_key f \<Longrightarrow> v' k = v k"
  shows "db_wf P v'"
proof (rule db_wf_rewrite [OF wf f])
  have fb: "f < u64_size" using catalog_bound [OF f] by simp
  have path: "v' (path_key q) = v (path_key q)" for q by (intro other) simp_all
  then show "v' (path_key q) = v (path_key q)" for q .
  show "catalog v' = catalog v" using path by (auto simp: fun_eq_iff intro: catalog_cong)
  show "v' NEXT_FILE_ID_KEY = v NEXT_FILE_ID_KEY" using fb by (intro other) simp_all
  show "metadata_of P v' f = Some md" using md at by (intro metadata_of_encoded [OF P]) (auto simp: metadata_ok_def)
  show "v' k = v k" if "g < u64_size" "g \<noteq> f" "is_file_key g k" for g k
  proof (rule other)
    show "k \<noteq> chunk_key f i" for i
    proof
      assume "k = chunk_key f i"
      then have "is_file_key f k" by (simp add: is_file_key_def chunk_key_def)
      with that fb show False using file_key_unique by blast
    qed
    show "k \<noteq> metadata_key f" using that fb by auto
  qed
qed (fact md ch)+

lemma db_wf_created:
  assumes wf: "db_wf P v" and p: "v (path_key p) = None" and n: "next_file_id v + 1 < u64_size"
    and P: "metadata_codec P" and md: "metadata_ok md"
  shows "db_wf P (created P p md v)"
proof (rule db_wfI)
  let ?n = "next_file_id v" and ?v = "created P p md v"
  have nb: "0 < ?n" "?n < u64_size" using db_wf_next(1) [OF wf] n by auto
  note cat = catalog_created [OF nb, of P p md] and nx = next_created [OF n, of P p md]
  have fresh: "catalog v q \<noteq> Some ?n" for q using db_wf_next(2) [OF wf, of q ?n] by auto
  have at: "?v k = v k" if "k \<noteq> path_key p" "k \<noteq> metadata_key ?n" "k \<noteq> NEXT_FILE_ID_KEY" for k
    using that by (simp add: created_def)
  show "catalog ?v q \<noteq> None" if "?v (path_key q) \<noteq> None" for q
    using that db_wf_path [OF wf, of q] at [of "path_key q"] by (cases "q = p") (auto simp: cat)
  show "q = q'" if "catalog ?v q = Some g" "catalog ?v q' = Some g" for q q' g
    using that fresh [of q] fresh [of q'] db_wf_inj [OF wf, of q g q'] by (auto simp: cat split: if_splits)
  show "0 < next_file_id ?v" using nx by simp
  have keep: "?v k = v k" if "g < u64_size" "g \<noteq> ?n" "is_file_key g k" for g k
    using that nb by (intro at) auto
  have none: "v k = None" if "is_file_key ?n k" for k
    using db_wf_orphan_key [OF wf nb(2) _ that] fresh unfolding ran_def by blast
  show "(\<exists>md. metadata_of P ?v g = Some md \<and> metadata_ok md) \<and> chunk_keys_ok g ?v \<and> g < next_file_id ?v"
    if g: "catalog ?v q = Some g" for q g
  proof (cases "g = ?n")
    case True
    have "metadata_of P ?v g = Some md"
      using md nb True by (intro metadata_of_encoded [OF P]) (auto simp: metadata_ok_def created_def)
    moreover have "chunk_keys_ok g ?v"
      using none True by (auto simp: chunk_keys_ok_def created_def is_file_key_def split: if_splits)
    ultimately show ?thesis using md True nx by auto
  next
    case False
    then have q: "catalog v q = Some g" using g by (auto simp: cat split: if_splits)
    then have gb: "g < u64_size" using catalog_bound by blast
    have "metadata_of P ?v g = metadata_of P v g"
      using keep [OF gb False, of "metadata_key g"] gb by (intro metadata_of_cong) simp
    moreover have "chunk_keys_ok g ?v"
      using db_wf_file [OF wf q] keep [OF gb False] by (intro chunk_keys_ok_cong [of g ?v v]) (auto simp: is_file_key_def)
    ultimately show ?thesis using db_wf_file [OF wf q] nx by simp
  qed
  show "g \<in> ran (catalog ?v)" if "g < u64_size" "?v k \<noteq> None" "is_file_key g k" for g k
  proof (cases "g = ?n")
    case True
    then show ?thesis by (auto simp: cat ran_def)
  next
    case False
    have "catalog v p = None" using p by (simp add: catalog_def)
    moreover have "g \<in> ran (catalog v)"
      using that keep [OF that(1) False that(3)] by (intro db_wf_orphan_key [OF wf that(1) _ that(3)]) simp
    then obtain q where "catalog v q = Some g" by (auto simp: ran_def)
    ultimately have "catalog ?v q = Some g" by (auto simp: cat)
    then show ?thesis by (rule ranI)
  qed
qed

section \<open>The operations keep the invariant\<close>

text \<open>The invariant of a database survives a change that is atomic and whose result satisfies it.\<close>

lemma atomic_change_wf:
  assumes "db_wf P (view db s)" and "atomic_change view db s s' w" and "db_wf P w"
  shows "db_wf P (view db s')"
  using assms by (auto simp: atomic_change_def)

context slate_tx
begin

lemma dm_remove_file_wf:
  assumes "dm_remove_file S db p s = (r, s')" and wf: "db_wf P (view db s)"
  shows "db_wf P (view db s')"
proof -
  have change: "db_wf P (view db s')"
    if "catalog (view db s) p = Some f" "atomic_change view db s s' (removed p f (view db s))" for f
    by (rule atomic_change_wf [OF wf that(2) db_wf_removed [OF wf that(1)]])
  have keep: "db_wf P (view db s')" if "view db s' = view db s" using that wf by simp
  note io_satD [OF dm_remove_file_sat assms(1)]
  then show ?thesis by (cases r) (use change keep in \<open>simp_all, blast+\<close>)
qed

lemma dm_move_file_wf:
  assumes "dm_move_file S db src target s = (r, s')" and wf: "db_wf P (view db s)"
  shows "db_wf P (view db s')"
proof -
  have change: "db_wf P (view db s')"
    if "src \<noteq> target" "catalog (view db s) src = Some f"
      "atomic_change view db s s' (moved src target f (view db s))" for f
    by (rule atomic_change_wf [OF wf that(3) db_wf_moved [OF wf that(2,1)]])
  have keep: "db_wf P (view db s')" if "view db s' = view db s" using that wf by simp
  note io_satD [OF dm_move_file_sat assms(1)]
  then show ?thesis by (cases r) (use change keep in \<open>simp_all, blast+\<close>)
qed

lemma prepare_file_for_open_wf:
  assumes "prepare_file_for_open S P now db p create truncate_existing s = (r, s')" and wf: "db_wf P (view db s)"
    and P: "metadata_codec P"
  shows "db_wf P (view db s')"
proof -
  let ?md = "file_metadata_new now" and ?v = "view db s"
  have new: "db_wf P (cleared P f ?md ?v)" if "catalog ?v p = Some f" for f
    using that by (intro db_wf_cleared [OF wf _ P]) simp_all
  have created: "db_wf P (created P p ?md ?v)" if "?v (path_key p) = None" "next_file_id ?v + 1 < u64_size"
    using that by (intro db_wf_created [OF wf _ _ P]) simp_all
  have keep: "db_wf P (view db s')" if "view db s' = view db s" using that wf by simp
  have change: "db_wf P (view db s')" if "atomic_change view db s s' w" "db_wf P w" for w
    by (rule atomic_change_wf [OF wf that])
  note sat = io_satD [OF prepare_file_for_open_sat assms(1)]
  show ?thesis
  proof (cases r)
    case (Ok fm)
    with sat new created keep show ?thesis by (cases fm) (auto split: if_splits)
  next
    case (Err e)
    with sat consider "view db s' = view db s"
      | f where "catalog ?v p = Some f" "atomic_change view db s s' (cleared P f ?md ?v)"
      | "?v (path_key p) = None" "next_file_id ?v + 1 < u64_size" "atomic_change view db s s' (created P p ?md ?v)"
      by auto
    then show ?thesis
      by cases (simp add: wf, (rule change [OF _ new] change [OF _ created]; assumption)+)
  next
    case (Panic q)
    with sat show ?thesis by simp
  qed
qed

end

end
