(* ===== verification/File_System_Spec.thy ===== *)
theory File_System_Spec
  imports File_System File_Session Database_Wf
begin

unbundle bit_operations_syntax

text \<open>
  What the filesystem promises: groups map to disjoint places of the object store, each group has at most
  one writer, a reader never becomes a writer, a closed filesystem does nothing, and a file that was
  synced is what the next open on its path shows.
\<close>

section \<open>Groups and places\<close>

lemma strip_suffix_iff: "strip_suffix s suf = Some d \<longleftrightarrow> s = d @ suf"
proof
  assume "strip_suffix s suf = Some d"
  then have "drop (length s - length suf) s = suf" "d = take (length s - length suf) s"
    by (auto simp: strip_suffix_def split: if_splits)
  then show "s = d @ suf" by (metis append_take_drop_id)
qed (simp add: strip_suffix_def)

lemma strip_suffix_None: "strip_suffix s suf = None \<longleftrightarrow> (\<forall>d. s \<noteq> d @ suf)"
  by (metis not_None_eq strip_suffix_iff)

definition companion_of :: "path \<Rightarrow> path \<Rightarrow> bool" where
  "companion_of db p \<longleftrightarrow> db \<noteq> [] \<and> last db \<noteq> CHR ''/'' \<and> (\<exists>suf \<in> set DATABASE_COMPANION_SUFFIXES. p = db @ suf)"

lemma suffix_last: "p @ s = q @ t \<Longrightarrow> s \<noteq> [] \<Longrightarrow> t \<noteq> [] \<Longrightarrow> last s = last t"
  by (metis last_append)

lemma database_group_cases:
  "database_group p = p \<or> companion_of (database_group p) p"
  by (auto simp: database_group_def companion_of_def DATABASE_COMPANION_SUFFIXES_def strip_suffix_iff
      split: option.split)

lemma companion_group: "companion_of db p \<Longrightarrow> database_group p = db"
proof -
  assume c: "companion_of db p"
  have ends: "strip_suffix (db @ suf) suf' = None"
    if "suf \<in> {''.wal.checkpoint'', ''.wal.recovery''}" "suf' \<in> {''.wal'', ''.wal.checkpoint'', ''.wal.recovery''}" "suf \<noteq> suf'"
    for suf suf'
    unfolding strip_suffix_None
  proof (intro allI notI)
    fix d assume "db @ suf = d @ suf'"
    from suffix_last [OF this] that show False by auto
  qed
  have self: "strip_suffix (db @ suf) suf = Some db" for suf by (simp add: strip_suffix_iff)
  from c show ?thesis
    by (auto simp: companion_of_def database_group_def DATABASE_COMPANION_SUFFIXES_def self ends)
qed

text \<open>Flattening a group is an injective encoding without slashes.\<close>

definition flat_char :: "char \<Rightarrow> string" where
  "flat_char c = (if c = CHR ''%'' then ''%25'' else if c = CHR ''/'' then ''%2F'' else [c])"

lemma flatten_group_chars: "flatten_group g = concat (map flat_char g)"
  by (induction g) (auto simp: flatten_group_def replace_char_def flat_char_def)

lemma flat_char_prefix_free: "flat_char c @ xs = flat_char d @ ys \<Longrightarrow> c = d \<and> xs = ys"
  by (auto simp: flat_char_def split: if_splits)

lemma flatten_group_inj: "flatten_group g = flatten_group g' \<longleftrightarrow> g = g'"
proof
  show "flatten_group g = flatten_group g' \<Longrightarrow> g = g'"
    unfolding flatten_group_chars
  proof (induction g arbitrary: g')
    case Nil
    then show ?case by (cases g') (auto simp: flat_char_def split: if_splits)
  next
    case (Cons c g)
    then obtain d h where g': "g' = d # h" by (cases g') (auto simp: flat_char_def split: if_splits)
    with Cons.prems flat_char_prefix_free [of c _ d] Cons.IH [of h] show ?case by auto
  qed
qed simp

lemma flatten_group_no_slash: "CHR ''/'' \<notin> set (flatten_group g)"
  by (auto simp: flatten_group_chars flat_char_def)

lemma slatedb_path_inj: "slatedb_path fs g = slatedb_path fs g' \<longleftrightarrow> g = g'"
  by (simp add: slatedb_path_def flatten_group_inj)

text \<open>No database lies inside another one's directory.\<close>

lemma slatedb_path_flat: "\<not> prefix (slatedb_path fs g @ ''/'') (slatedb_path fs g')"
proof
  assume "prefix (slatedb_path fs g @ ''/'') (slatedb_path fs g')"
  then obtain t where "flatten_group g' = flatten_group g @ ''/'' @ t" by (auto simp: slatedb_path_def prefix_def)
  then show False using flatten_group_no_slash [of g'] by simp
qed

section \<open>The cache id\<close>

definition fnv_prime_inverse :: "64 word" where
  "fnv_prime_inverse = 0xce965057aff6957b"

lemma fnv_prime_unit: "(0x100000001b3 :: 64 word) * fnv_prime_inverse = 1"
  unfolding fnv_prime_inverse_def by simp

lemma fnv_step_inj_hash: "fnv_step h c = fnv_step h' c \<longleftrightarrow> h = h'"
proof
  assume "fnv_step h c = fnv_step h' c"
  then have "(h XOR of_nat (of_char c)) * (0x100000001b3 * fnv_prime_inverse)
      = (h' XOR of_nat (of_char c)) * (0x100000001b3 * fnv_prime_inverse)"
    by (simp only: fnv_step_def mult.assoc [symmetric])
  then have "h XOR of_nat (of_char c) = h' XOR of_nat (of_char c)" by (simp add: fnv_prime_unit)
  then have "(h XOR of_nat (of_char c)) XOR of_nat (of_char c) = (h' XOR of_nat (of_char c)) XOR (of_nat (of_char c) :: 64 word)"
    by simp
  then show "h = h'" by (simp add: xor.assoc)
qed simp

lemma char_word_inj: "(of_nat (of_char c) :: 64 word) = of_nat (of_char d) \<longleftrightarrow> c = d"
proof
  assume e: "(of_nat (of_char c) :: 64 word) = of_nat (of_char d)"
  have b: "unat (of_nat (of_char x) :: 64 word) = of_char x" for x :: char
    by (simp add: unat_of_nat) (rule mod_less, rule order_less_trans [OF nat_of_char_less_256], simp)
  from arg_cong [OF e, of unat] have "(of_char c :: nat) = of_char d" by (simp only: b)
  then show "c = d" by simp
qed simp

lemma fnv_step_inj_char: "fnv_step h c = fnv_step h d \<longleftrightarrow> c = d"
proof
  assume "fnv_step h c = fnv_step h d"
  then have "(h XOR of_nat (of_char c)) * (0x100000001b3 * fnv_prime_inverse)
      = (h XOR of_nat (of_char d)) * (0x100000001b3 * fnv_prime_inverse)"
    by (simp only: fnv_step_def mult.assoc [symmetric])
  then have "h XOR of_nat (of_char c) = h XOR (of_nat (of_char d) :: 64 word)" by (simp add: fnv_prime_unit)
  then have "h XOR (h XOR of_nat (of_char c)) = h XOR (h XOR (of_nat (of_char d) :: 64 word))" by simp
  then have "(of_nat (of_char c) :: 64 word) = of_nat (of_char d)" by (simp add: xor.assoc [symmetric])
  then show "c = d" by (simp add: char_word_inj)
qed simp

lemma foldl_fnv_inj: "foldl fnv_step h xs = foldl fnv_step h' xs \<longleftrightarrow> h = h'"
  by (induction xs arbitrary: h h') (simp_all add: fnv_step_inj_hash)

lemma stable_hash_one_char: "stable_hash (xs @ [c] @ ys) = stable_hash (xs @ [d] @ ys) \<longleftrightarrow> c = d"
  by (simp add: stable_hash_def foldl_fnv_inj fnv_step_inj_char)

section \<open>Clients\<close>

definition writer_of :: "('db, 'rd) file_system \<Rightarrow> string \<Rightarrow> 'db option" where
  "writer_of fs g = (case map_of (databases fs) g of None \<Rightarrow> None | Some c \<Rightarrow> read_write c)"

definition reader_of :: "('db, 'rd) file_system \<Rightarrow> string \<Rightarrow> 'rd option" where
  "reader_of fs g = (case map_of (databases fs) g of None \<Rightarrow> None | Some c \<Rightarrow> reader c)"

definition same_config :: "('db, 'rd) file_system \<Rightarrow> ('db, 'rd) file_system \<Rightarrow> bool" where
  "same_config fs fs' \<longleftrightarrow> database_path fs' = database_path fs \<and> store_location fs' = store_location fs
     \<and> cache_config fs' = cache_config fs \<and> db_cache fs' = db_cache fs \<and> closed fs' = closed fs"

lemma same_config_refl [simp]: "same_config fs fs"
  by (simp add: same_config_def)

lemma map_of_update_all:
  "map_of (map (\<lambda>e. if fst e = g then (g, c) else e) xs) k = (if k = g \<and> map_of xs g \<noteq> None then Some c else map_of xs k)"
  by (induction xs) auto

lemma set_client_simps:
  "map_of (databases (set_client g c fs)) k =
     (if k = g \<and> map_of (databases fs) g \<noteq> None then Some c else map_of (databases fs) k)"
  "same_config fs (set_client g c fs')  \<longleftrightarrow> same_config fs fs'"
  by (simp_all add: set_client_def map_of_update_all same_config_def)

text \<open>Getting the client of a group creates an empty entry at most.\<close>

lemma client_for_group_eq:
  "\<exists>fs'. client_for_group g (fs, s) = (Ok (case map_of (databases fs) g of Some c \<Rightarrow> c | None \<Rightarrow> client_default), (fs', s))
     \<and> same_config fs fs' \<and> (\<forall>k. writer_of fs' k = writer_of fs k \<and> reader_of fs' k = reader_of fs k)
     \<and> map_of (databases fs') g \<noteq> None"
  by (cases "map_of (databases fs) g")
    (auto simp: client_for_group_def same_config_def writer_of_def reader_of_def client_default_def
      map_add_def split: option.splits)

lemma client_of_parts:
  "read_write (case map_of (databases fs) g of Some c \<Rightarrow> c | None \<Rightarrow> client_default) = writer_of fs g"
  "reader (case map_of (databases fs) g of Some c \<Rightarrow> c | None \<Rightarrow> client_default) = reader_of fs g"
  by (auto simp: writer_of_def reader_of_def client_default_def split: option.splits)

text \<open>Opening a reader: the one call of the builder, and where its result goes.\<close>

lemma open_reader_for_spec:
  assumes run: "open_reader_for B p g c (fs, s) = (r, (fs', s'))" and g: "map_of (databases fs) g \<noteq> None"
    and c: "read_write c = writer_of fs g"
  shows "same_config fs fs' \<and> (\<forall>k. writer_of fs' k = writer_of fs k) \<and> map_of (databases fs') g \<noteq> None
    \<and> (\<forall>k. k \<noteq> g \<longrightarrow> reader_of fs' k = reader_of fs k) \<and> s' = snd (build_reader B (fs_builder B fs g) s)
    \<and> (case r of
         Ok c' \<Rightarrow> (\<exists>rd. fst (build_reader B (fs_builder B fs g) s) = Inr rd \<and> c' = c\<lparr>reader := Some rd\<rparr>
                   \<and> reader_of fs' g = Some rd)
       | Err e \<Rightarrow> fs' = fs \<and> (\<exists>x. fst (build_reader B (fs_builder B fs g) s) = Inl x \<and>
                   e = (if never_written x then file_not_found p else from_slatedb_error x))
       | Panic _ \<Rightarrow> False)"
proof (cases "build_reader B (fs_builder B fs g) s")
  case (Pair q s1)
  show ?thesis
  proof (cases q)
    case (Inl x)
    with run Pair g show ?thesis
      by (cases "never_written x") (auto simp: open_reader_for_def open_reader_def)
  next
    case (Inr rd)
    with run Pair have eq: "r = Ok (c\<lparr>reader := Some rd\<rparr>)" "fs' = set_client g (c\<lparr>reader := Some rd\<rparr>) fs" "s' = s1"
      by (auto simp: open_reader_for_def open_reader_def Let_def)
    obtain c0 where c0: "map_of (databases fs) g = Some c0" using g by blast
    then have "writer_of fs' k = writer_of fs k" "k \<noteq> g \<Longrightarrow> reader_of fs' k = reader_of fs k" for k
      using c unfolding eq by (auto simp: writer_of_def reader_of_def set_client_simps)
    with Pair Inr c0 show ?thesis unfolding eq by (auto simp: set_client_simps reader_of_def)
  qed
qed

text \<open>
  A read client: the writer if there is one, else a reader, opened if need be. No writer is opened, and
  the world is touched only to open a reader.
\<close>

lemma read_client_spec:
  assumes run: "read_client B p (fs, s) = (r, (fs', s'))" and open': "\<not> closed fs"
  shows "same_config fs fs' \<and> (\<forall>k. writer_of fs' k = writer_of fs k) \<and>
    (case r of
       Ok c \<Rightarrow> read_write c = writer_of fs (database_group p) \<and> reader c = reader_of fs' (database_group p)
              \<and> (read_write c \<noteq> None \<or> reader c \<noteq> None)
              \<and> (writer_of fs (database_group p) \<noteq> None \<longrightarrow> s' = s)
     | Err e \<Rightarrow> e = file_not_found p \<or> code e = CodeSlateDb
     | Panic _ \<Rightarrow> False)"
proof -
  let ?g = "database_group p"
  let ?c = "case map_of (databases fs) ?g of Some c \<Rightarrow> c | None \<Rightarrow> client_default"
  obtain fs1 where c1: "client_for_group ?g (fs, s) = (Ok ?c, (fs1, s))" and f1: "same_config fs fs1"
    "\<forall>k. writer_of fs1 k = writer_of fs k \<and> reader_of fs1 k = reader_of fs k" "map_of (databases fs1) ?g \<noteq> None"
    using client_for_group_eq [of ?g fs s] by (elim exE conjE)
  note parts = client_of_parts [of fs ?g]
  show ?thesis
  proof (cases "writer_of fs ?g \<noteq> None \<or> reader_of fs ?g \<noteq> None")
    case True
    with run open' c1 parts have "r = Ok ?c" "fs' = fs1" "s' = s" by (auto simp: read_client_def Let_def)
    with f1 True parts show ?thesis by simp
  next
    case False
    with run open' c1 parts have o: "open_reader_for B p ?g ?c (fs1, s) = (r, (fs', s'))"
      by (simp add: read_client_def Let_def)
    have "read_write ?c = writer_of fs1 ?g" using f1(2) parts by simp
    from open_reader_for_spec [OF o f1(3) this] show ?thesis
      using f1 parts False
      by (cases r) (auto simp: same_config_def from_slatedb_error_def code_def Let_def split: if_splits)
  qed
qed

text \<open>The last steps of \<open>write_db\<close>: a writer that opens is kept for its group.\<close>

lemma keep_writer_spec:
  assumes run: "io_bind io_get (\<lambda>(fs, _). io_bind (io_snd (open_writer B fs g)) (\<lambda>db.
      io_bind (io_fst (io_put (set_client g (c\<lparr>read_write := Some db\<rparr>) fs))) (\<lambda>_. io_return db))) (fs, s) = (r, (fs', s'))"
    and known: "map_of (databases fs) g \<noteq> None"
  shows "same_config fs fs' \<and> (\<forall>k. k \<noteq> g \<longrightarrow> writer_of fs' k = writer_of fs k) \<and>
    (case r of Ok db \<Rightarrow> writer_of fs' g = Some db
     | Err e \<Rightarrow> writer_of fs' g = writer_of fs g \<and> code e = CodeSlateDb | Panic _ \<Rightarrow> False)"
proof (cases "build_db B (fs_builder B fs g) s")
  case (Pair q s3)
  show ?thesis
  proof (cases q)
    case (Inl e)
    with run Pair show ?thesis by (auto simp: open_writer_def slate_def from_slatedb_error_def code_def Let_def)
  next
    case (Inr db)
    with run Pair have eq: "r = Ok db" "fs' = set_client g (c\<lparr>read_write := Some db\<rparr>) fs"
      by (auto simp: open_writer_def slate_def)
    have "writer_of fs' k = (if k = g then Some db else writer_of fs k)" for k
      using known unfolding eq by (auto simp: writer_of_def set_client_simps)
    then show ?thesis unfolding eq(1) by (auto simp: eq(2) set_client_simps)
  qed
qed

text \<open>
  A writer: reused when the group has one, opened otherwise, and after that the writer of the group. An
  operation that does not create looks for the database first, and opens no writer when there is none.
\<close>

lemma write_db_spec:
  assumes run: "write_db B p create (fs, s) = (r, (fs', s'))" and open': "\<not> closed fs"
  shows "same_config fs fs' \<and> (\<forall>k. k \<noteq> database_group p \<longrightarrow> writer_of fs' k = writer_of fs k) \<and>
    (case r of
       Ok db \<Rightarrow> writer_of fs' (database_group p) = Some db
               \<and> (writer_of fs (database_group p) \<noteq> None \<longrightarrow> writer_of fs (database_group p) = Some db \<and> s' = s)
     | Err e \<Rightarrow> writer_of fs' (database_group p) = None \<and> (e = file_not_found p \<and> \<not> create \<or> code e = CodeSlateDb)
     | Panic _ \<Rightarrow> False)"
proof -
  let ?g = "database_group p"
  let ?c = "case map_of (databases fs) ?g of Some c \<Rightarrow> c | None \<Rightarrow> client_default"
  obtain fs1 where c1: "client_for_group ?g (fs, s) = (Ok ?c, (fs1, s))" and f1: "same_config fs fs1"
    "\<forall>k. writer_of fs1 k = writer_of fs k \<and> reader_of fs1 k = reader_of fs k" "map_of (databases fs1) ?g \<noteq> None"
    using client_for_group_eq [of ?g fs s] by (elim exE conjE)
  note parts = client_of_parts [of fs ?g]
  show ?thesis
  proof (cases "writer_of fs ?g")
    case (Some db)
    with run open' c1 parts have "r = Ok db" "fs' = fs1" "s' = s" by (auto simp: write_db_def Let_def)
    with f1 Some show ?thesis by simp
  next
    case None
    let ?rest = "\<lambda>c. io_bind io_get (\<lambda>(fs, _). io_bind (io_snd (open_writer B fs ?g)) (\<lambda>db.
             io_bind (io_fst (io_put (set_client ?g (c\<lparr>read_write := Some db\<rparr>) fs))) (\<lambda>_. io_return db)))"
    have rest: "same_config fs fs' \<and> (\<forall>k. k \<noteq> ?g \<longrightarrow> writer_of fs' k = writer_of fs k) \<and>
        (case r of Ok db \<Rightarrow> writer_of fs' ?g = Some db
         | Err e \<Rightarrow> writer_of fs' ?g = None \<and> code e = CodeSlateDb | Panic _ \<Rightarrow> False)"
      if "?rest c (fs2, s2) = (r, (fs', s'))" "same_config fs fs2" "\<forall>k. writer_of fs2 k = writer_of fs k"
        "map_of (databases fs2) ?g \<noteq> None" for c fs2 s2
      using keep_writer_spec [OF that(1,4)] that(2,3) None by (cases r) (auto simp: same_config_def)
    show ?thesis
    proof (cases "\<not> create \<and> reader_of fs ?g = None")
      case False
      with run open' c1 parts None have "?rest ?c (fs1, s) = (r, (fs', s'))"
        by (auto simp: write_db_def Let_def)
      from rest [OF this f1(1)] f1 None show ?thesis by (cases r) auto
    next
      case True
      obtain q fs2 s2 where o: "open_reader_for B p ?g ?c (fs1, s) = (q, (fs2, s2))" by (metis prod.collapse)
      have "read_write ?c = writer_of fs1 ?g" using f1(2) parts by simp
      note os = open_reader_for_spec [OF o f1(3) this]
      have f2: "same_config fs fs2" "\<forall>k. writer_of fs2 k = writer_of fs k" "map_of (databases fs2) ?g \<noteq> None"
        using os f1 by (auto simp: same_config_def)
      show ?thesis
      proof (cases q)
        case (Ok c)
        with run open' c1 parts None True o have "?rest c (fs2, s2) = (r, (fs', s'))"
          by (auto simp: write_db_def Let_def)
        from rest [OF this f2] None show ?thesis by (cases r) auto
      next
        case (Err e)
        with run open' c1 parts None True o have "r = Err e" "fs' = fs2" "s' = s2"
          by (auto simp: write_db_def Let_def)
        with os Err f2 None True show ?thesis
          by (auto simp: from_slatedb_error_def code_def Let_def split: if_splits)
      next
        case (Panic e)
        with os show ?thesis by simp
      qed
    qed
  qed
qed

section \<open>Closing\<close>

lemma keep_first_no_panic: "(\<forall>p. r \<noteq> Panic p) \<Longrightarrow> keep_first r x \<noteq> Panic q"
  by (cases r) (auto simp: keep_first_def)

lemma keep_first_Ok: "keep_first r x = Ok u \<longleftrightarrow> r = Ok () \<and> x = Inr ()"
  by (cases r; cases x) (auto simp: keep_first_def)

lemma close_client_no_panic: "(\<forall>p. fst st \<noteq> Panic p) \<Longrightarrow> fst (close_client B c st) \<noteq> Panic q"
  by (auto simp: close_client_def Let_def keep_first_no_panic split: option.splits prod.splits)

lemma close_clients_no_panic:
  "(\<forall>p. fst st \<noteq> Panic p) \<Longrightarrow> fst (foldl (\<lambda>st e. close_client B (snd e) st) st es) \<noteq> Panic q"
  by (induction es arbitrary: st) (auto simp: close_client_no_panic)

lemma fs_close_spec:
  assumes "fs_close B (fs, s) = (r, (fs', s'))"
  shows "fs' = fs\<lparr>closed := True, databases := [], db_cache := None\<rparr> \<and> r \<noteq> Panic p"
  using assms close_clients_no_panic [of "(Ok (), s)" B "databases fs"]
  by (auto simp: fs_close_def Let_def keep_first_no_panic split: option.splits prod.splits)

text \<open>A closed filesystem with nothing open: closing it again does nothing.\<close>

lemma fs_close_again:
  "databases fs = [] \<Longrightarrow> db_cache fs = None \<Longrightarrow> closed fs \<Longrightarrow> fs_close B (fs, s) = (Ok (), (fs, s))"
  by (cases fs) (simp add: fs_close_def)

lemma closed_clients:
  "closed fs \<Longrightarrow> read_client B p (fs, s) = (Err filesystem_closed, (fs, s))"
  "closed fs \<Longrightarrow> write_db B p create (fs, s) = (Err filesystem_closed, (fs, s))"
  by (simp_all add: read_client_def write_db_def)

lemma closed_code [simp]: "code filesystem_closed = CodeInvalidArgument"
  by (simp add: filesystem_closed_def invalid_argument_def code_def)

lemma flags_validate_Err: "flags_validate f = Err e \<Longrightarrow> code e = CodeInvalidArgument"
  by (auto simp: flags_validate_def invalid_argument_def code_def Let_def split: if_splits)

lemma closed_operations:
  assumes "closed fs"
  shows "\<exists>e. fs_open_file B S P now p fl (fs, s) = (Err e, (fs, s)) \<and> code e = CodeInvalidArgument"
    and "\<exists>e. fs_file_exists B S p (fs, s) = (Err e, (fs, s)) \<and> code e = CodeInvalidArgument"
    and "\<exists>e. fs_remove_file B S p (fs, s) = (Err e, (fs, s)) \<and> code e = CodeInvalidArgument"
    and "\<exists>e. fs_move_file B S p q (fs, s) = (Err e, (fs, s)) \<and> code e = CodeInvalidArgument"
proof -
  show "\<exists>e. fs_open_file B S P now p fl (fs, s) = (Err e, (fs, s)) \<and> code e = CodeInvalidArgument"
    using flags_validate_Err [of fl]
    by (cases "flags_validate fl")
      (auto simp: fs_open_file_def open_write_handle_def open_read_handle_def closed_clients [OF assms])
  show "\<exists>e. fs_file_exists B S p (fs, s) = (Err e, (fs, s)) \<and> code e = CodeInvalidArgument"
    by (simp add: fs_file_exists_def closed_clients [OF assms] filesystem_closed_def invalid_argument_def code_def)
  show "\<exists>e. fs_remove_file B S p (fs, s) = (Err e, (fs, s)) \<and> code e = CodeInvalidArgument"
    by (simp add: fs_remove_file_def closed_clients [OF assms])
  show "\<exists>e. fs_move_file B S p q (fs, s) = (Err e, (fs, s)) \<and> code e = CodeInvalidArgument"
    by (simp add: fs_move_file_def closed_clients [OF assms]) (simp add: invalid_argument_def code_def)
qed

section \<open>Readers\<close>

text \<open>Nothing a read does depends on the call that opens a writer: reads never call it.\<close>

lemma read_client_no_writer: "read_client (B\<lparr>build_db := X\<rparr>) p = read_client B p"
proof -
  have "open_reader (B\<lparr>build_db := X\<rparr>) fs g = open_reader B fs g" for fs :: "('a, 'b) file_system" and g
    by (simp add: open_reader_def fs_builder_def)
  then have "open_reader_for (B\<lparr>build_db := X\<rparr>) q g c = open_reader_for B q g c" for q g and c :: "('a, 'b) slatedb_client"
    by (simp add: open_reader_for_def)
  then show ?thesis unfolding read_client_def by (simp only:)
qed

lemma reads_open_no_writer:
  "fs_file_exists (B\<lparr>build_db := X\<rparr>) S p = fs_file_exists B S p"
  "open_read_handle (B\<lparr>build_db := X\<rparr>) S P p fl = open_read_handle B S P p fl"
  by (simp_all add: fs_file_exists_def open_read_handle_def read_client_no_writer)

section \<open>Opening a synced file\<close>

lemma sync_result:
  assumes "slate_db S view durable" and "sync S P (h, s) = (Ok (), (h', s'))"
    and "handle_inv S db h (view db s)" and "cm_pending (chunks h) \<noteq> [] \<or> metadata_dirty h"
  shows "view db s' = apply_batch (sync_batch P h) (view db s) \<and> durable db s' = view db s'"
proof -
  have h: "fh_wf (slatedb_chunk_store S db) h" "client h = ReadWrite db" using assms(3) by (auto simp: handle_inv_def)
  from slate_db.sync_spec [OF assms(1,2) h] assms(4) show ?thesis by auto
qed

lemma synced_metadata:
  assumes "slate_db S view durable" and P: "metadata_codec P" and "sync S P (h, s) = (Ok (), (h', s'))"
    and h: "handle_inv S db h (view db s)" and "cm_pending (chunks h) \<noteq> [] \<or> metadata_dirty h"
  shows "metadata_of P (view db s') (fh_file_id h) = Some (handle_metadata h)"
  using sync_result [OF assms(1,3,4,5)] sync_batch_metadata [of P h "view db s"] h
  by (intro metadata_of_encoded [OF P]) (auto simp: handle_inv_def intro: handle_metadata_u64)

lemma synced_wf:
  assumes "slate_db S view durable" and P: "metadata_codec P" and run: "sync S P (h, s) = (r, (h', s'))"
    and h: "handle_inv S db h (view db s)" and wf: "db_wf P (view db s)" and cat: "catalog (view db s) p = Some (fh_file_id h)"
  shows "db_wf P (view db s') \<and> catalog (view db s') = catalog (view db s)"
proof -
  have h': "fh_wf (slatedb_chunk_store S db) h" "client h = ReadWrite db" "fh_file_id h < u64_size"
    "cm_wf (chunks h)" "cm_file_id (chunks h) = fh_file_id h"
    using h by (auto simp: handle_inv_def fh_wf_def)
  let ?w = "apply_batch (sync_batch P h) (view db s)"
  have md: "metadata_ok (handle_metadata h)"
    using handle_metadata_u64 [OF h'(1)] h'(4) by (simp add: metadata_ok_def handle_metadata_def cm_wf_def)
  have other: "?w k = view db s k" if "\<And>i. k \<noteq> chunk_key (fh_file_id h) i" "k \<noteq> metadata_key (fh_file_id h)" for k
    using that by (rule sync_batch_other [OF _ _ h'(5)])
  have ck: "chunk_keys_ok (fh_file_id h) ?w"
    using h by (intro sync_batch_keys_ok [OF h'(4) _ h'(3)]) (simp add: handle_inv_def)
  have "db_wf P ?w" by (rule db_wf_synced [OF wf cat P md sync_batch_metadata ck other])
  moreover have "catalog ?w = catalog (view db s)"
    by (rule ext, rule catalog_cong, rule other) simp_all
  moreover have "view db s' = view db s \<or> view db s' = ?w"
    using slate_db.sync_spec [OF assms(1) run h'(1,2)] by blast
  ultimately show ?thesis using wf by auto
qed

text \<open>The handle that opening gives over a writer, from what the catalog says.\<close>

lemma file_handle_new_inv:
  assumes "file_handle_new S (ReadWrite db) f md fl = Ok h" and "db_wf P v" and "catalog v p = Some f"
    and "metadata_of P v f = Some md"
  shows "handle_inv S db h v \<and> fh_file_id h = f \<and> handle_metadata h = md \<and> fh_flags h = fl \<and> flags_wf fl
    \<and> cm_pending (chunks h) = [] \<and> \<not> metadata_dirty h"
proof -
  have f: "f < u64_size" using catalog_bound [OF assms(3)] by simp
  obtain md' where "metadata_of P v f = Some md'" "metadata_ok md'" using db_wf_metadata [OF assms(2,3)] by blast
  then have md: "metadata_u64 md" using assms(4) by (simp add: metadata_ok_def)
  note o = with_chunk_store_Ok [OF assms(1) [unfolded file_handle_new_def client_store_def, simplified] f md]
  have "chunk_keys_ok f v" using db_wf_file [OF assms(2,3)] by blast
  moreover have "\<not> metadata_dirty h"
    using assms(1) by (auto simp: file_handle_new_def with_chunk_store_internal_def o_bind_eq_Ok)
  ultimately show ?thesis using o f by (simp add: handle_inv_def chunk_manager_new_def)
qed

context slate_db
begin

lemmas writer_open_file = rw.kv.dm_open_file_spec
lemmas writer_file_exists = rw.kv.dm_file_exists_spec

end

text \<open>Opening a path through the writer of its group, without truncation.\<close>

lemma open_over_writer:
  assumes S: "slate_tx S view durable tx_db tx_snapshot tx_writes"
    and run: "fs_open_file B S P now p fl (fs, s) = (Ok h, (fs', s'))"
    and fs: "\<not> closed fs" "writer_of fs (database_group p) = Some db" and trunc: "\<not> fl_truncate_existing fl"
    and wf: "db_wf P (view db s)" and cat: "catalog (view db s) p = Some f"
  shows "view db s' = view db s \<and> handle_inv S db h (view db s) \<and> fh_file_id h = f
    \<and> metadata_of P (view db s) f = Some (handle_metadata h) \<and> cm_pending (chunks h) = []"
proof -
  note sdb = slate_tx.axioms(1) [OF S]
  from run have fl: "flags_wf fl" by (auto simp: fs_open_file_def io_bind_eq_Ok)
  have path: "view db s (path_key p) \<noteq> None" using cat by (auto elim: catalog_SomeE)
  have opened: "\<exists>md. view db s' = view db s \<and> metadata_of P (view db s) f = Some md
      \<and> file_handle_new S (ReadWrite db) f md fl = Ok h"
  proof (cases "fl_write fl")
    case True
    with run fl have "open_write_handle B S P now p fl (fs, s) = (Ok h, (fs', s'))"
      by (auto simp: fs_open_file_def io_bind_eq_Ok)
    then obtain db' fs1 s1 g md s2 where w: "write_db B p (fl_create fl) (fs, s) = (Ok db', (fs1, s1))"
      and pr: "prepare_file_for_open S P now db' p (fl_create fl) (fl_truncate_existing fl) s1 = (Ok (g, md), s2)"
      and h: "file_handle_new S (ReadWrite db') g md fl = Ok h" and s2: "s' = s2"
      unfolding open_write_handle_def
      by (auto simp: io_bind_eq_Ok split: prod.splits) (metis prod.collapse)
    have db': "db' = db" "s1 = s" using write_db_spec [OF w fs(1)] fs(2) by auto
    have "(if view db s (path_key p) \<noteq> None then catalog (view db s) p = Some g \<and>
        metadata_of P (view db s) g = Some md \<and> (\<forall>d. view d s2 = view d s) else True)"
      using io_satD [OF slate_tx.prepare_file_for_open_sat [OF S] pr] trunc db' by auto
    with path cat h s2 db' show ?thesis by auto
  next
    case False
    with run fl have "open_read_handle B S P p fl (fs, s) = (Ok h, (fs', s'))"
      by (auto simp: fs_open_file_def io_bind_eq_Ok)
    then obtain c fs1 s1 where c: "read_client B p (fs, s) = (Ok c, (fs1, s1))"
      and rest: "(case read_write c of
       Some db \<Rightarrow>
         io_bind (io_snd (dm_open_file P (db_get S db) p)) (\<lambda>(file_id, md).
         io_lift (file_handle_new S (ReadWrite db) file_id md fl))
     | None \<Rightarrow> (case reader c of
         None \<Rightarrow> io_lift (Panic ''read client must contain a reader or writer'')
       | Some rd \<Rightarrow>
           io_bind (io_snd (dm_open_file P (rd_get S rd) p)) (\<lambda>(file_id, md).
           io_lift (file_handle_new S (ReadOnly rd) file_id md fl)))) (fs1, s1) = (Ok h, (fs', s'))"
      unfolding open_read_handle_def by (auto simp: io_bind_eq_Ok)
    have cs: "read_write c = Some db" "s1 = s" using read_client_spec [OF c fs(1)] fs(2) by auto
    with rest obtain g md s2 where o: "dm_open_file P (db_get S db) p s = (Ok (g, md), s2)"
      and h: "file_handle_new S (ReadWrite db) g md fl = Ok h" and s2: "s' = s2"
      by (auto simp: io_bind_eq_Ok split: prod.splits) (metis prod.collapse)
    from slate_db.writer_open_file [OF sdb o] cat h s2 show ?thesis by auto
  qed
  then obtain md where md: "view db s' = view db s" "metadata_of P (view db s) f = Some md"
    "file_handle_new S (ReadWrite db) f md fl = Ok h" by blast
  from file_handle_new_inv [OF md(3) wf cat md(2)] md show ?thesis by auto
qed

end
