(* ===== verification/Ffi.thy ===== *)
theory Ffi
  imports File_System
begin

text \<open>
  The C ABI (\<open>rust/src/ffi.rs\<close>): every entry point runs an operation, turns an error or a panic into an
  error code and keeps the message for the calling thread. A pointer argument is an \<open>option\<close>, \<open>None\<close>
  being null; a C string is the bytes before its NUL; the memory behind an output pointer or a buffer is
  part of the state of the call. A file handle is behind a reader-writer lock that a panic under its
  exclusive guard poisons. The call site in an error's text is given by \<open>loc\<close>.
\<close>

section \<open>Errors across the boundary\<close>

definition display_error :: "(error \<Rightarrow> string option) \<Rightarrow> error \<Rightarrow> string" where
  "display_error loc e = display_error_struct (loc e) (error_inner e)"

definition escape_nul :: "string \<Rightarrow> string" where
  "escape_nul s = replace_char (CHR 0x00) [CHR 0x5C, CHR ''0''] s"

text \<open>\<open>CString::new\<close> refuses an interior NUL, which the source then expects not to happen.\<close>

definition store_error :: "(error \<Rightarrow> string option) \<Rightarrow> error \<Rightarrow> (string \<times> 'w, int) io" where
  "store_error loc e = (\<lambda>(last_message, w).
     let c = error_code_i32 (code e); m = escape_nul (display_error loc e) in
     if CHR 0x00 \<in> set m
     then (Panic ''escaped error message cannot contain NUL'', (last_message, w))
     else (Ok c, (m, w)))"

definition ffi_result :: "(error \<Rightarrow> string option) \<Rightarrow> ('w, unit) io \<Rightarrow> (string \<times> 'w, int) io" where
  "ffi_result loc operation = (\<lambda>(last_message, w). case operation w of
     (Ok _, w') \<Rightarrow> (Ok 0, (last_message, w'))
   | (Err e, w') \<Rightarrow> store_error loc e (last_message, w')
   | (Panic p, w') \<Rightarrow> store_error loc
       (invalid_argument (''Rust panic while handling FFI call: '' @ p)) (last_message, w'))"

section \<open>Arguments\<close>

definition require_ptr :: "string \<Rightarrow> 'a option \<Rightarrow> 'a outcome" where
  "require_ptr msg q = (case q of None \<Rightarrow> Err (invalid_argument msg) | Some x \<Rightarrow> Ok x)"

definition require_path :: "string option \<Rightarrow> string \<Rightarrow> string outcome" where
  "require_path q name = (case q of
     None \<Rightarrow> Err (invalid_argument (name @ '' must not be null''))
   | Some bs \<Rightarrow> (case from_utf8 bs of
       None \<Rightarrow> Err (invalid_argument (name @ '' must be valid UTF-8''))
     | Some s \<Rightarrow> Ok s))"

definition optional_string :: "string option \<Rightarrow> string \<Rightarrow> string option outcome" where
  "optional_string q name = (case q of
     None \<Rightarrow> Ok None
   | Some bs \<Rightarrow> (case from_utf8 bs of
       None \<Rightarrow> Err (invalid_argument (name @ '' must be valid UTF-8''))
     | Some s \<Rightarrow> Ok (if s = [] then None else Some s)))"

record ffi_s3_config =
  f_bucket :: "string option"
  f_root :: "string option"
  f_endpoint :: "string option"
  f_region :: "string option"
  f_key_id :: "string option"
  f_secret :: "string option"
  f_session_token :: "string option"
  f_use_ssl :: int
  f_virtual_host_style :: int

definition require_s3_config :: "ffi_s3_config option \<Rightarrow> S3StorageConfig outcome" where
  "require_s3_config q =
     o_bind (require_ptr ''S3 config must not be null'' q) (\<lambda>c.
     o_bind (require_path (f_bucket c) ''S3 bucket'') (\<lambda>bucket.
     o_bind (optional_string (f_root c) ''S3 root'') (\<lambda>root.
     o_bind (optional_string (f_endpoint c) ''S3 endpoint'') (\<lambda>endpoint.
     o_bind (optional_string (f_region c) ''S3 region'') (\<lambda>region.
     o_bind (optional_string (f_key_id c) ''S3 key ID'') (\<lambda>key_id.
     o_bind (optional_string (f_secret c) ''S3 secret'') (\<lambda>secret.
     o_bind (optional_string (f_session_token c) ''S3 session token'') (\<lambda>session_token.
     Ok \<lparr>s3_bucket = bucket, s3_root = root, s3_endpoint = endpoint, s3_region = region,
         s3_key_id = key_id, s3_secret = secret, s3_session_token = session_token,
         s3_use_ssl = (f_use_ssl c \<noteq> 0), s3_virtual_host_style = (f_virtual_host_style c \<noteq> 0)\<rparr>))))))))"

record ffi_cache_config =
  f_block_cache_size_bytes :: u64
  f_metadata_cache_size_bytes :: u64
  f_cache_shards :: u64
  f_persistent_cache_path :: "string option"
  f_persistent_cache_size_bytes :: u64
  f_persistent_cache_part_size_bytes :: u64
  f_persistent_cache_on_flush :: int
  f_persistent_cache_on_compaction :: int

definition fits_platform :: "u64 \<Rightarrow> string \<Rightarrow> usize outcome" where
  "fits_platform n what = (case usize_try_from n of
     None \<Rightarrow> Err (invalid_argument (what @ '' does not fit this platform'')) | Some m \<Rightarrow> Ok m)"

definition parse_cache_config :: "CacheConfig \<Rightarrow> ffi_cache_config option \<Rightarrow> CacheConfig outcome" where
  "parse_cache_config default_config q = (case q of
     None \<Rightarrow> Ok default_config
   | Some c \<Rightarrow>
       o_bind (optional_string (f_persistent_cache_path c) ''persistent cache path'') (\<lambda>path.
       o_bind (fits_platform (f_persistent_cache_size_bytes c) ''persistent cache size'') (\<lambda>size.
       o_bind (fits_platform (f_persistent_cache_part_size_bytes c) ''persistent cache part size'') (\<lambda>part.
       o_bind (if path \<noteq> None
               then if size = 0
                    then Err (invalid_argument ''persistent cache size must be greater than zero'')
                    else if part = 0 \<or> part mod 1024 \<noteq> 0
                    then Err (invalid_argument ''persistent cache part size must be a non-zero multiple of 1024 bytes'')
                    else Ok ()
               else Ok ()) (\<lambda>_.
       o_bind (if f_cache_shards c = 0 then Ok None
               else o_bind (fits_platform (f_cache_shards c) ''cache shard count'') (\<lambda>n. Ok (Some n))) (\<lambda>sh.
       Ok \<lparr>block_cache_size_bytes = f_block_cache_size_bytes c,
           metadata_cache_size_bytes = f_metadata_cache_size_bytes c,
           cache_shards = sh, persistent_cache_path = path,
           persistent_cache_size_bytes = size, persistent_cache_part_size_bytes = part,
           persistent_cache_on_flush = (f_persistent_cache_on_flush c \<noteq> 0),
           persistent_cache_on_compaction = (f_persistent_cache_on_compaction c \<noteq> 0)\<rparr>))))))"

record ffi_open_options =
  o_read :: int
  o_write :: int
  o_create :: int
  o_append :: int
  o_truncate_existing :: int

definition require_options :: "ffi_open_options option \<Rightarrow> FileOpenFlags outcome" where
  "require_options q =
     o_bind (require_ptr ''open options must not be null'' q) (\<lambda>c.
     Ok \<lparr>fl_read = (o_read c \<noteq> 0), fl_write = (o_write c \<noteq> 0), fl_create = (o_create c \<noteq> 0),
         fl_append = (o_append c \<noteq> 0), fl_truncate_existing = (o_truncate_existing c \<noteq> 0)\<rparr>)"

definition optional_thread_count :: "u64 \<Rightarrow> string \<Rightarrow> usize option outcome" where
  "optional_thread_count n name =
     (if n = 0 then Ok None else o_bind (fits_platform n name) (\<lambda>m. Ok (Some m)))"

section \<open>Handles behind their lock\<close>

record ('s, 'db, 'rd) ffi_handle =
  poisoned :: bool
  slot :: "('s, 'db, 'rd) file_handle option"

definition locked_slot :: "('s, 'db, 'rd) ffi_handle option \<Rightarrow> (('s, 'db, 'rd) ffi_handle \<times> ('s, 'db, 'rd) file_handle option) outcome" where
  "locked_slot hp =
     o_bind (require_ptr ''file handle pointer must not be null'' hp) (\<lambda>fh.
     if poisoned fh then Err (invalid_argument ''file handle lock is poisoned'')
     else Ok (fh, slot fh))"

definition with_shared_file_handle ::
  "(('s, 'db, 'rd) file_handle \<Rightarrow> ('w, 'a) io) \<Rightarrow> (('s, 'db, 'rd) ffi_handle option \<times> 'w, 'a) io" where
  "with_shared_file_handle operation =
     io_bind io_get (\<lambda>(hp, _).
     io_bind (io_lift (locked_slot hp)) (\<lambda>(fh, sl).
     case sl of
       None \<Rightarrow> io_lift (Err (invalid_argument ''file handle is closed''))
     | Some h \<Rightarrow> io_snd (operation h)))"

text \<open>The guard of the exclusive lock is dropped while a panic unwinds, which poisons the lock.\<close>

definition with_guard ::
  "('s, 'db, 'rd) ffi_handle \<Rightarrow> (('s, 'db, 'rd) file_handle \<times> 'w, 'a) io \<Rightarrow> ('s, 'db, 'rd) file_handle
     \<Rightarrow> (('s, 'db, 'rd) ffi_handle option \<times> 'w, 'a) io" where
  "with_guard fh operation h = (\<lambda>(hp, w). case operation (h, w) of
     (Panic p, (h', w')) \<Rightarrow> (Panic p, (Some (fh\<lparr>slot := Some h', poisoned := True\<rparr>), w'))
   | (r, (h', w')) \<Rightarrow> (r, (Some (fh\<lparr>slot := Some h'\<rparr>), w')))"

definition with_exclusive_file_handle ::
  "(('s, 'db, 'rd) file_handle \<times> 'w, 'a) io \<Rightarrow> (('s, 'db, 'rd) ffi_handle option \<times> 'w, 'a) io" where
  "with_exclusive_file_handle operation =
     io_bind io_get (\<lambda>(hp, _).
     io_bind (io_lift (locked_slot hp)) (\<lambda>(fh, sl).
     case sl of
       None \<Rightarrow> io_lift (Err (invalid_argument ''file handle is closed''))
     | Some h \<Rightarrow> with_guard fh operation h))"

section \<open>Entry points on a file handle\<close>

record ('s, 'db, 'rd) call =
  out_count :: "usize option"
  buffer :: "bytes option"
  handle_ptr :: "('s, 'db, 'rd) ffi_handle option"
  world :: 's

definition io_buffer :: "string \<Rightarrow> bytes option \<Rightarrow> usize \<Rightarrow> bytes outcome" where
  "io_buffer what buf len = (case buf of
     None \<Rightarrow> if len = 0 then Ok [] else Err (invalid_argument (what @ '' buffer must not be null''))
   | Some m \<Rightarrow> Ok (take len m))"

text \<open>Running a handle operation on the handle, and on the buffer too, of a call.\<close>

definition on_handle ::
  "(('s, 'db, 'rd) ffi_handle option \<times> 's, 'a) io \<Rightarrow> (('s, 'db, 'rd) call, 'a) io" where
  "on_handle m = (\<lambda>c. case m (handle_ptr c, world c) of
     (r, (hp, s)) \<Rightarrow> (r, c\<lparr>handle_ptr := hp, world := s\<rparr>))"

definition on_buffer ::
  "usize \<Rightarrow> bytes \<Rightarrow> (('s, 'db, 'rd) ffi_handle option \<times> bytes \<times> 's, 'a) io \<Rightarrow> (('s, 'db, 'rd) call, 'a) io" where
  "on_buffer len buf m = (\<lambda>c. case m (handle_ptr c, (buf, world c)) of
     (r, (hp, (buf', s))) \<Rightarrow>
       (r, c\<lparr>handle_ptr := hp, buffer := map_option (\<lambda>mem. buf' @ drop len mem) (buffer c), world := s\<rparr>))"

text \<open>The output is set to zero before anything can fail, and to the result at the end.\<close>

definition counted :: "string \<Rightarrow> (('s, 'db, 'rd) call, usize) io \<Rightarrow> (('s, 'db, 'rd) call, unit) io" where
  "counted what m =
     io_bind io_get (\<lambda>c.
     io_bind (io_lift (require_ptr (what @ '' must not be null'') (out_count c))) (\<lambda>_.
     io_bind (io_put (c\<lparr>out_count := Some 0\<rparr>)) (\<lambda>_.
     io_bind m (\<lambda>n.
     io_bind io_get (\<lambda>c. io_put (c\<lparr>out_count := Some n\<rparr>))))))"

definition slatedb_file_read :: "(error \<Rightarrow> string option) \<Rightarrow> usize \<Rightarrow> (string \<times> ('s, 'db, 'rd) call, int) io" where
  "slatedb_file_read loc len = ffi_result loc (counted ''bytes read output'' (
     io_bind io_get (\<lambda>c.
     io_bind (io_lift (io_buffer ''read'' (buffer c) len)) (\<lambda>buf.
     on_buffer len buf (with_exclusive_file_handle fh_read)))))"

definition slatedb_file_pread :: "(error \<Rightarrow> string option) \<Rightarrow> usize \<Rightarrow> u64 \<Rightarrow> (string \<times> ('s, 'db, 'rd) call, int) io" where
  "slatedb_file_pread loc len offset = ffi_result loc (counted ''bytes read output'' (
     io_bind io_get (\<lambda>c.
     io_bind (io_lift (io_buffer ''read'' (buffer c) len)) (\<lambda>buf.
     on_buffer len buf (with_shared_file_handle (\<lambda>h. pread h offset))))))"

definition slatedb_file_write ::
  "(error \<Rightarrow> string option) \<Rightarrow> int \<Rightarrow> usize \<Rightarrow> (string \<times> ('s, 'db, 'rd) call, int) io" where
  "slatedb_file_write loc now len = ffi_result loc (counted ''bytes written output'' (
     io_bind io_get (\<lambda>c.
     io_bind (io_lift (io_buffer ''write'' (buffer c) len)) (\<lambda>data.
     on_handle (with_exclusive_file_handle (fh_write now data))))))"

definition slatedb_file_pwrite ::
  "(error \<Rightarrow> string option) \<Rightarrow> int \<Rightarrow> usize \<Rightarrow> u64 \<Rightarrow> (string \<times> ('s, 'db, 'rd) call, int) io" where
  "slatedb_file_pwrite loc now len offset = ffi_result loc (
     io_bind io_get (\<lambda>c.
     io_bind (io_lift (io_buffer ''write'' (buffer c) len)) (\<lambda>data.
     on_handle (with_exclusive_file_handle (pwrite now data offset)))))"

definition slatedb_file_sync ::
  "(error \<Rightarrow> string option) \<Rightarrow> ('s, 'db, 'rd, 'tx) slatedb \<Rightarrow> codec \<Rightarrow> (string \<times> ('s, 'db, 'rd) call, int) io" where
  "slatedb_file_sync loc S P = ffi_result loc (on_handle (with_exclusive_file_handle (sync S P)))"

definition slatedb_file_truncate ::
  "(error \<Rightarrow> string option) \<Rightarrow> int \<Rightarrow> u64 \<Rightarrow> (string \<times> ('s, 'db, 'rd) call, int) io" where
  "slatedb_file_truncate loc now n = ffi_result loc (on_handle (with_exclusive_file_handle (fh_truncate now n)))"

definition slatedb_file_seek :: "(error \<Rightarrow> string option) \<Rightarrow> u64 \<Rightarrow> (string \<times> ('s, 'db, 'rd) call, int) io" where
  "slatedb_file_seek loc p = ffi_result loc (on_handle (with_exclusive_file_handle
     (\<lambda>(h, s). (Ok (), (seek p h, s)))))"

definition slatedb_file_get_position :: "(error \<Rightarrow> string option) \<Rightarrow> (string \<times> ('s, 'db, 'rd) call, int) io" where
  "slatedb_file_get_position loc = ffi_result loc (counted ''file position output''
     (on_handle (with_shared_file_handle (\<lambda>h. io_return (seek_position h)))))"

definition slatedb_file_get_size :: "(error \<Rightarrow> string option) \<Rightarrow> (string \<times> ('s, 'db, 'rd) call, int) io" where
  "slatedb_file_get_size loc = ffi_result loc (counted ''file size output''
     (on_handle (with_shared_file_handle (\<lambda>h. io_return (file_size h)))))"

text \<open>Closing takes the handle out of its slot once it was flushed, and is fine with an empty slot.\<close>

definition close_slot ::
  "('s, 'db, 'rd, 'tx) slatedb \<Rightarrow> codec \<Rightarrow> (('s, 'db, 'rd) ffi_handle option \<times> 's, unit) io" where
  "close_slot S P =
     io_bind io_get (\<lambda>(hp, _).
     io_bind (io_lift (locked_slot hp)) (\<lambda>(fh, sl).
     case sl of
       None \<Rightarrow> io_return ()
     | Some h \<Rightarrow>
         io_bind (with_guard fh (fh_close S P) h) (\<lambda>_.
         io_fst (io_put (Some (fh\<lparr>slot := None\<rparr>))))))"

definition slatedb_file_close ::
  "(error \<Rightarrow> string option) \<Rightarrow> ('s, 'db, 'rd, 'tx) slatedb \<Rightarrow> codec \<Rightarrow> (string \<times> ('s, 'db, 'rd) call, int) io" where
  "slatedb_file_close loc S P = ffi_result loc (on_handle (close_slot S P))"

section \<open>Entry points on the filesystem\<close>

record ('s, 'db, 'rd) fs_call =
  fs_ptr :: "('db, 'rd) file_system option"
  out_handle :: "('s, 'db, 'rd) ffi_handle option option"
  out_flag :: "int option"
  fs_world :: 's

definition on_fs :: "(('db, 'rd) file_system \<times> 's, 'a) io \<Rightarrow> (('s, 'db, 'rd) fs_call, 'a) io" where
  "on_fs m =
     io_bind io_get (\<lambda>c.
     io_bind (io_lift (require_ptr ''filesystem pointer must not be null'' (fs_ptr c))) (\<lambda>fs.
     \<lambda>_. case m (fs, fs_world c) of (r, (fs', s)) \<Rightarrow> (r, c\<lparr>fs_ptr := Some fs', fs_world := s\<rparr>)))"

definition require_fs :: "(('s, 'db, 'rd) fs_call, ('db, 'rd) file_system) io" where
  "require_fs = io_bind io_get (\<lambda>c. io_lift (require_ptr ''filesystem pointer must not be null'' (fs_ptr c)))"

definition slatedb_fs_open_file ::
  "(error \<Rightarrow> string option) \<Rightarrow> ('s, 'db, 'rd) slate_builder \<Rightarrow> ('s, 'db, 'rd, 'tx) slatedb \<Rightarrow> codec \<Rightarrow> int
     \<Rightarrow> string option \<Rightarrow> ffi_open_options option \<Rightarrow> (string \<times> ('s, 'db, 'rd) fs_call, int) io" where
  "slatedb_fs_open_file loc B S P now p options = ffi_result loc (
     io_bind io_get (\<lambda>c.
     io_bind (io_lift (require_ptr ''file handle output must not be null'' (out_handle c))) (\<lambda>_.
     io_bind (io_put (c\<lparr>out_handle := Some None\<rparr>)) (\<lambda>_.
     io_bind require_fs (\<lambda>_.
     io_bind (io_lift (require_path p ''file path'')) (\<lambda>p.
     io_bind (io_lift (require_options options)) (\<lambda>fl.
     io_bind (on_fs (fs_open_file B S P now p fl)) (\<lambda>h.
     io_bind io_get (\<lambda>c.
     io_put (c\<lparr>out_handle := Some (Some \<lparr>poisoned = False, slot = Some h\<rparr>)\<rparr>))))))))))"

definition slatedb_fs_file_exists ::
  "(error \<Rightarrow> string option) \<Rightarrow> ('s, 'db, 'rd) slate_builder \<Rightarrow> ('s, 'db, 'rd, 'tx) slatedb
     \<Rightarrow> string option \<Rightarrow> (string \<times> ('s, 'db, 'rd) fs_call, int) io" where
  "slatedb_fs_file_exists loc B S p = ffi_result loc (
     io_bind io_get (\<lambda>c.
     io_bind (io_lift (require_ptr ''file exists output must not be null'' (out_flag c))) (\<lambda>_.
     io_bind (io_put (c\<lparr>out_flag := Some 0\<rparr>)) (\<lambda>_.
     io_bind require_fs (\<lambda>_.
     io_bind (io_lift (require_path p ''file path'')) (\<lambda>p.
     io_bind (on_fs (fs_file_exists B S p)) (\<lambda>b.
     io_bind io_get (\<lambda>c. io_put (c\<lparr>out_flag := Some (if b then 1 else 0)\<rparr>)))))))))"

definition slatedb_fs_remove_file ::
  "(error \<Rightarrow> string option) \<Rightarrow> ('s, 'db, 'rd) slate_builder \<Rightarrow> ('s, 'db, 'rd, 'tx) slatedb
     \<Rightarrow> string option \<Rightarrow> (string \<times> ('s, 'db, 'rd) fs_call, int) io" where
  "slatedb_fs_remove_file loc B S p = ffi_result loc (
     io_bind require_fs (\<lambda>_.
     io_bind (io_lift (require_path p ''file path'')) (\<lambda>p.
     on_fs (fs_remove_file B S p))))"

definition slatedb_fs_move_file ::
  "(error \<Rightarrow> string option) \<Rightarrow> ('s, 'db, 'rd) slate_builder \<Rightarrow> ('s, 'db, 'rd, 'tx) slatedb
     \<Rightarrow> string option \<Rightarrow> string option \<Rightarrow> (string \<times> ('s, 'db, 'rd) fs_call, int) io" where
  "slatedb_fs_move_file loc B S src target = ffi_result loc (
     io_bind require_fs (\<lambda>_.
     io_bind (io_lift (require_path src ''source path'')) (\<lambda>src.
     io_bind (io_lift (require_path target ''target path'')) (\<lambda>target.
     on_fs (fs_move_file B S src target)))))"

definition slatedb_fs_can_handle :: "('db, 'rd) file_system option \<Rightarrow> string option \<Rightarrow> int" where
  "slatedb_fs_can_handle fs p =
     (case fs of None \<Rightarrow> 0 | Some _ \<Rightarrow>
      case p of None \<Rightarrow> 0 | Some bs \<Rightarrow>
      case from_utf8 bs of None \<Rightarrow> 0 | Some q \<Rightarrow> if can_handle q then 1 else 0)"

end
