(* ===== verification/Ffi_Spec.thy ===== *)
theory Ffi_Spec
  imports Ffi File_Handle_Sync
begin

text \<open>
  What the C ABI promises its caller: it never unwinds into C, zero means success, a message has no NUL,
  a poisoned handle refuses everything, and closing is safe to repeat.
\<close>

lemma escape_nul_free [simp]: "CHR 0x00 \<notin> set (escape_nul s)"
  by (auto simp: escape_nul_def replace_char_def split: if_splits)

lemma escape_nul_id: "CHR 0x00 \<notin> set s \<Longrightarrow> escape_nul s = s"
  unfolding escape_nul_def replace_char_def by (induction s) auto

lemma store_error_eq:
  "store_error loc e (m, w) = (Ok (error_code_i32 (code e)), (escape_nul (display_error loc e), w))"
  by (simp add: store_error_def Let_def)

lemma error_code_range: "1 \<le> error_code_i32 c \<and> error_code_i32 c \<le> 7"
  by (cases c) (simp_all add: error_code_i32_def)

definition panic_error :: "string \<Rightarrow> error" where
  "panic_error p = invalid_argument (''Rust panic while handling FFI call: '' @ p)"

lemma ffi_result_eq:
  "ffi_result loc m (msg, w) = (case m w of
     (Ok _, w') \<Rightarrow> (Ok 0, (msg, w'))
   | (Err e, w') \<Rightarrow> (Ok (error_code_i32 (code e)), (escape_nul (display_error loc e), w'))
   | (Panic p, w') \<Rightarrow> (Ok (error_code_i32 (code (panic_error p))), (escape_nul (display_error loc (panic_error p)), w')))"
  by (auto simp: ffi_result_def store_error_eq panic_error_def split: prod.split outcome.split)

lemma ffi_result_total:
  obtains c msg' w' where "ffi_result loc m (msg, w) = (Ok c, (msg', w'))" and "snd (m w) = w'"
    and "0 \<le> c \<and> c \<le> 7" and "c = 0 \<longleftrightarrow> (\<exists>u. fst (m w) = Ok u)" and "c = 0 \<longrightarrow> msg' = msg"
    and "c \<noteq> 0 \<longrightarrow> CHR 0x00 \<notin> set msg'"
proof (cases "m w")
  case (Pair r w')
  have z: "error_code_i32 (code e) \<noteq> 0 \<and> 0 \<le> error_code_i32 (code e) \<and> error_code_i32 (code e) \<le> 7" for e
    using error_code_range [of "code e"] by linarith
  show ?thesis using Pair that z by (cases r) (auto simp: ffi_result_eq)
qed

section \<open>Poisoned handles\<close>

lemma locked_slot_poisoned:
  "poisoned fh \<Longrightarrow> locked_slot (Some fh) = Err (invalid_argument ''file handle lock is poisoned'')"
  by (simp add: locked_slot_def require_ptr_def)

lemma poisoned_refuses:
  assumes "poisoned fh"
  shows "with_exclusive_file_handle m (Some fh, w) = (Err (invalid_argument ''file handle lock is poisoned''), (Some fh, w))"
    and "with_shared_file_handle q (Some fh, w) = (Err (invalid_argument ''file handle lock is poisoned''), (Some fh, w))"
    and "close_slot S P (Some fh, s) = (Err (invalid_argument ''file handle lock is poisoned''), (Some fh, s))"
  by (simp_all add: with_exclusive_file_handle_def with_shared_file_handle_def close_slot_def
      locked_slot_poisoned [OF assms])

lemma exclusive_panic_poisons:
  assumes "m (h, w) = (Panic p, (h', w'))" and "\<not> poisoned fh" and "slot fh = Some h"
  shows "with_exclusive_file_handle m (Some fh, w) = (Panic p, (Some (fh\<lparr>slot := Some h', poisoned := True\<rparr>), w'))"
  using assms by (simp add: with_exclusive_file_handle_def locked_slot_def require_ptr_def with_guard_def)

lemma exclusive_run:
  assumes "m (h, w) = (r, (h', w'))" and "\<forall>p. r \<noteq> Panic p" and "\<not> poisoned fh" and "slot fh = Some h"
  shows "with_exclusive_file_handle m (Some fh, w) = (r, (Some (fh\<lparr>slot := Some h'\<rparr>), w'))"
  using assms
  by (cases r) (auto simp: with_exclusive_file_handle_def locked_slot_def require_ptr_def with_guard_def)

lemma code_invalid [simp]: "code (invalid_argument m) = CodeInvalidArgument"
  by (simp add: invalid_argument_def code_def)

lemma counted_Err:
  assumes "m (c\<lparr>out_count := Some 0\<rparr>) = (Err e, c')" and "out_count c = Some n"
  shows "counted what m c = (Err e, c')"
  using assms by (simp add: counted_def require_ptr_def)

text \<open>Every entry point answers a poisoned handle with an invalid-argument code and leaves it alone.\<close>

lemma poisoned_entry_points:
  assumes "poisoned fh" and "handle_ptr c = Some fh"
  shows "\<exists>msg'. slatedb_file_sync loc S P (msg, c) = (Ok 6, (msg', c))"
    and "\<exists>msg'. slatedb_file_truncate loc now n (msg, c) = (Ok 6, (msg', c))"
    and "\<exists>msg'. slatedb_file_seek loc n (msg, c) = (Ok 6, (msg', c))"
    and "\<exists>msg'. slatedb_file_close loc S P (msg, c) = (Ok 6, (msg', c))"
    and "\<exists>msg'. slatedb_file_pwrite loc now len offset (msg, c) = (Ok 6, (msg', c))"
proof -
  have c: "c\<lparr>handle_ptr := Some fh, world := world c\<rparr> = c" using assms(2) by simp
  have six: "error_code_i32 CodeInvalidArgument = 6" by (simp add: error_code_i32_def)
  note refuse = poisoned_refuses [OF assms(1)]
  let ?e = "invalid_argument ''file handle lock is poisoned''"
  have ex: "on_handle (with_exclusive_file_handle m) c = (Err ?e, c)" for m :: "(('a, 'b, 'c) file_handle \<times> 'a, unit) io"
    using assms(2) c by (simp add: on_handle_def refuse(1))
  have cl: "on_handle (close_slot S P) c = (Err ?e, c)"
    using assms(2) c by (simp add: on_handle_def refuse(3))
  show "\<exists>msg'. slatedb_file_sync loc S P (msg, c) = (Ok 6, (msg', c))"
    by (simp add: slatedb_file_sync_def ffi_result_eq ex six)
  show "\<exists>msg'. slatedb_file_truncate loc now n (msg, c) = (Ok 6, (msg', c))"
    by (simp add: slatedb_file_truncate_def ffi_result_eq ex six)
  show "\<exists>msg'. slatedb_file_seek loc n (msg, c) = (Ok 6, (msg', c))"
    by (simp add: slatedb_file_seek_def ffi_result_eq ex six)
  show "\<exists>msg'. slatedb_file_close loc S P (msg, c) = (Ok 6, (msg', c))"
    by (simp add: slatedb_file_close_def ffi_result_eq cl six)
  show "\<exists>msg'. slatedb_file_pwrite loc now len offset (msg, c) = (Ok 6, (msg', c))"
  proof (cases "io_buffer ''write'' (buffer c) len")
    case (Ok data)
    then show ?thesis by (simp add: slatedb_file_pwrite_def ffi_result_eq ex six)
  next
    case (Err e)
    then have "code e = CodeInvalidArgument" by (auto simp: io_buffer_def split: option.splits if_splits)
    with Err show ?thesis by (simp add: slatedb_file_pwrite_def ffi_result_eq six)
  next
    case (Panic p)
    then show ?thesis by (auto simp: io_buffer_def split: option.splits if_splits)
  qed
qed

text \<open>The entry points with an output count set it to zero first; nothing else changes.\<close>

definition count_reset :: "('s, 'db, 'rd) call \<Rightarrow> ('s, 'db, 'rd) call" where
  "count_reset c = c\<lparr>out_count := map_option (\<lambda>_. 0) (out_count c)\<rparr>"

lemma count_reset_simps [simp]:
  "handle_ptr (count_reset c) = handle_ptr c" "buffer (count_reset c) = buffer c" "world (count_reset c) = world c"
  by (simp_all add: count_reset_def)

lemma counted_refused:
  assumes "\<And>c'. handle_ptr c' = handle_ptr c \<Longrightarrow> buffer c' = buffer c \<Longrightarrow> \<exists>e. m c' = (Err e, c') \<and> code e = CodeInvalidArgument"
  shows "\<exists>msg'. ffi_result loc (counted what m) (msg, c) = (Ok 6, (msg', count_reset c))"
proof (cases "out_count c")
  case None
  then have "count_reset c = c" by (simp add: count_reset_def)
  with None show ?thesis by (simp add: ffi_result_eq counted_def require_ptr_def error_code_i32_def)
next
  case (Some n)
  then have c: "c\<lparr>out_count := Some 0\<rparr> = count_reset c" by (simp add: count_reset_def)
  obtain e where "m (count_reset c) = (Err e, count_reset c)" "code e = CodeInvalidArgument"
    using assms [of "count_reset c"] by auto
  with Some c show ?thesis by (simp add: ffi_result_eq counted_Err error_code_i32_def)
qed

lemma io_buffer_cases:
  obtains (buf) data where "io_buffer what b len = Ok data" and "map_option (\<lambda>mem. data @ drop len mem) b = b"
  | (null) e where "io_buffer what b len = Err e" and "code e = CodeInvalidArgument"
proof (cases b)
  case None
  then show ?thesis using that by (cases "len = 0") (simp_all add: io_buffer_def)
next
  case (Some mem)
  then show ?thesis using that(1) by (simp add: io_buffer_def)
qed

lemma poisoned_counted_points:
  assumes "poisoned fh" and "handle_ptr c = Some fh"
  shows "\<exists>msg'. slatedb_file_read loc len (msg, c) = (Ok 6, (msg', count_reset c))"
    and "\<exists>msg'. slatedb_file_pread loc len offset (msg, c) = (Ok 6, (msg', count_reset c))"
    and "\<exists>msg'. slatedb_file_write loc now len (msg, c) = (Ok 6, (msg', count_reset c))"
    and "\<exists>msg'. slatedb_file_get_position loc (msg, c) = (Ok 6, (msg', count_reset c))"
    and "\<exists>msg'. slatedb_file_get_size loc (msg, c) = (Ok 6, (msg', count_reset c))"
proof -
  note refuse = poisoned_refuses [OF assms(1)] and hp = assms(2)
  have get: "\<exists>e. io_bind io_get (\<lambda>c. io_bind (io_lift (io_buffer what (buffer c) len)) f) c' = (Err e, c') \<and> code e = CodeInvalidArgument"
    if "\<And>data. map_option (\<lambda>mem. data @ drop len mem) (buffer c') = buffer c' \<Longrightarrow>
      \<exists>e. f data c' = (Err e, c') \<and> code e = CodeInvalidArgument"
    for what c' and f :: "bytes \<Rightarrow> (('a, 'b, 'c) call, nat) io"
    by (cases rule: io_buffer_cases [of what "buffer c'" len]) (use that in \<open>auto simp: io_bind_def\<close>)
  note defs = slatedb_file_read_def slatedb_file_pread_def slatedb_file_write_def
    slatedb_file_get_position_def slatedb_file_get_size_def
  show "\<exists>msg'. slatedb_file_read loc len (msg, c) = (Ok 6, (msg', count_reset c))"
    and "\<exists>msg'. slatedb_file_pread loc len offset (msg, c) = (Ok 6, (msg', count_reset c))"
    and "\<exists>msg'. slatedb_file_write loc now len (msg, c) = (Ok 6, (msg', count_reset c))"
    unfolding defs by (rule counted_refused, rule get, use hp in \<open>simp add: on_buffer_def on_handle_def refuse\<close>)+
  show "\<exists>msg'. slatedb_file_get_position loc (msg, c) = (Ok 6, (msg', count_reset c))"
    and "\<exists>msg'. slatedb_file_get_size loc (msg, c) = (Ok 6, (msg', count_reset c))"
    unfolding defs by (rule counted_refused, use hp in \<open>simp add: on_handle_def refuse\<close>)+
qed

section \<open>Closing\<close>

text \<open>A close that fails keeps the handle for another try; one that succeeds empties the slot for good.\<close>

lemma close_slot_spec:
  assumes "close_slot S P (Some fh, s) = (r, (hp, s'))" and "\<not> poisoned fh" and "slot fh = Some h"
    and "fh_close S P (h, s) = (q, (h', s1))" and "\<forall>p. q \<noteq> Panic p"
  shows "s' = s1 \<and> r = q \<and> hp = Some (fh\<lparr>slot := (if q = Ok () then None else Some h')\<rparr>)"
  using assms
  by (cases q) (auto simp: close_slot_def locked_slot_def require_ptr_def with_guard_def)

lemma close_slot_again:
  "\<not> poisoned fh \<Longrightarrow> slot fh = None \<Longrightarrow> close_slot S P (Some fh, s) = (Ok (), (Some fh, s))"
  by (simp add: close_slot_def locked_slot_def require_ptr_def)

end
