(* ===== verification/Mem_Examples.thy ===== *)
theory Mem_Examples
  imports File_System_Spec Ffi_Spec
begin

text \<open>
  Concrete states the witnesses evaluate: an empty in-memory store, and handles on it with chunks of four
  bytes after a first chunk of two, so that a few bytes already cross chunk borders.
\<close>

definition mem_empty :: mem where
  "mem_empty = \<lparr>mem_dbs = [], mem_saved = [], mem_faults = []\<rparr>"

text \<open>A world where the given calls of the store fail.\<close>

definition mem_failing :: "bool list \<Rightarrow> mem" where
  "mem_failing faults = \<lparr>mem_dbs = [], mem_saved = [], mem_faults = faults\<rparr>"

definition small_metadata :: "u64 \<Rightarrow> FileMetadata" where
  "small_metadata n = \<lparr>md_size = n, md_modified_at_ms = 0, md_chunk_size = 4, md_chunk_base_offset = 2\<rparr>"

definition small_handle :: "FileOpenFlags \<Rightarrow> u64 \<Rightarrow> (mem, path, path) file_handle" where
  "small_handle fl n =
     \<lparr>client = ReadWrite ''d'', fh_file_id = 1, position = 0, fh_size = n, modified_at_ms = 0,
      chunks = chunk_manager_new (slatedb_chunk_store mem_slatedb ''d'') 1 4 2,
      metadata_dirty = False, fh_flags = fl\<rparr>"

lemma mem_view_empty [simp]: "mem_view db mem_empty = Map.empty" "mem_view db (mem_failing fs) = Map.empty"
  by (simp_all add: mem_view_def mem_db_def mem_empty_def mem_failing_def)

lemma small_handle_wf [simp]: "n < u64_size \<Longrightarrow> fh_wf (slatedb_chunk_store mem_slatedb ''d'') (small_handle fl n)"
  by (simp add: fh_wf_def small_handle_def chunk_manager_new_def cm_wf_def geometry_def) (simp add: u64_size_def)

lemma small_handle_simps [simp]:
  "client (small_handle fl n) = ReadWrite ''d''" "fh_file_id (small_handle fl n) = 1"
  "fh_flags (small_handle fl n) = fl" "fh_size (small_handle fl n) = n"
  "chunks (small_handle fl n) = chunk_manager_new (slatedb_chunk_store mem_slatedb ''d'') 1 4 2"
  "position (small_handle fl n) = 0" "cm_pending (chunks (small_handle fl n)) = []"
  by (simp_all add: small_handle_def chunk_manager_new_def)

lemma small_handle_bytes [simp]: "file_bytes (small_handle fl n) Map.empty = replicate n 0"
  by (rule nth_equalityI) (simp_all add: file_byte_def chunk_at_def chunk_manager_new_def)

lemma flag_simps [simp]:
  "fl_read flags_read_only" "\<not> fl_write flags_read_only" "\<not> fl_append flags_read_only"
  "fl_read flags_read_write" "fl_write flags_read_write" "\<not> fl_append flags_read_write"
  "\<not> fl_read flags_append" "fl_write flags_append" "fl_append flags_append"
  by (simp_all add: flags_read_only_def flags_read_write_def flags_append_def)

text \<open>Naming the outcome of a run once its result is known.\<close>

lemma run_obtain: "fst R = r \<Longrightarrow> \<exists>h s. R = (r, (h, s))"
  by (metis prod.collapse)

lemma small_handle_inv [simp]: "n < u64_size \<Longrightarrow> handle_inv mem_slatedb ''d'' (small_handle fl n) Map.empty"
  by (simp add: handle_inv_def chunk_keys_ok_def) (simp add: u64_size_def)

lemma small_handle_zero_tail [simp]: "zero_tail (small_handle fl n) Map.empty"
  by (simp add: zero_tail_def file_byte_def chunk_at_def chunk_manager_new_def)

section \<open>A database with one file\<close>

text \<open>The store after one file was created at a path: its id is 1, and the counter stands at 2.\<close>

definition mem_one :: "path \<Rightarrow> bool list \<Rightarrow> mem" where
  "mem_one p faults =
     \<lparr>mem_dbs = [(''d'', [(NEXT_FILE_ID_KEY, to_be_bytes 2), (metadata_key 1, encode_to_bytes proto_codec (small_metadata 0)),
        (path_key p, to_be_bytes 1)])],
      mem_saved = [], mem_faults = faults\<rparr>"

lemma mem_one_view [simp]: "mem_view ''d'' (mem_one p fs) = created proto_codec p (small_metadata 0) Map.empty"
  by (simp add: mem_view_def mem_db_def mem_one_def created_def next_file_id_def fun_eq_iff numeral_2_eq_2)

lemma small_metadata_ok [simp]: "n < u64_size \<Longrightarrow> metadata_ok (small_metadata n)"
  by (simp add: metadata_ok_def small_metadata_def metadata_u64_def geometry_def) (simp add: u64_size_def)

lemma next_file_id_empty [simp]: "next_file_id Map.empty = 1"
  by (simp add: next_file_id_def)

lemma catalog_empty [simp]: "catalog Map.empty p = None"
  by (simp add: catalog_def)

lemma one_file_wf [simp]: "db_wf proto_codec (created proto_codec p (small_metadata 0) Map.empty)"
  by (rule db_wf_created [OF db_wf_empty _ _ proto.metadata_codec_axioms]) (simp_all, simp add: u64_size_def)

lemma one_file_catalog [simp]: "catalog (created proto_codec p (small_metadata 0) Map.empty) = [p \<mapsto> 1]"
  using catalog_created [of Map.empty proto_codec p] by (simp add: u64_size_def catalog_def fun_eq_iff)

text \<open>A handle on that file.\<close>

lemma one_file_inv [simp]: "handle_inv mem_slatedb ''d'' (small_handle fl 0) (created proto_codec p (small_metadata 0) Map.empty)"
proof -
  let ?v = "created proto_codec p (small_metadata 0) Map.empty"
  have "catalog ?v p = Some 1" by simp
  with db_wf_file [OF one_file_wf this] show ?thesis by (simp add: handle_inv_def) (simp add: u64_size_def)
qed

lemma one_file_zero_tail [simp]: "zero_tail (small_handle fl 0) (created proto_codec p (small_metadata 0) Map.empty)"
  by (simp add: zero_tail_def file_byte_def chunk_at_def chunk_manager_new_def created_def)

section \<open>A filesystem\<close>

text \<open>Building a database in memory: it is named by its path, and the builder never fails.\<close>

definition mem_builder :: "(mem, path, path) slate_builder" where
  "mem_builder =
     \<lparr>build_db = (\<lambda>b s. (Inr (b_path b), s)), build_reader = (\<lambda>b s. (Inr (b_path b), s)),
      close_db = (\<lambda>_ s. (Inr (), s)), close_reader = (\<lambda>_ s. (Inr (), s)), close_cache = (\<lambda>_ s. (Inr (), s)),
      cache_options_default = \<lparr>root_folder = None, max_cache_size_bytes = None, part_size_bytes = 4194304,
        cache_on_flush = False, cache_on_compaction = False\<rparr>,
      foyer_default_shards = 64\<rparr>"

text \<open>An open filesystem whose group \<open>f\<close> has the given writer.\<close>

definition small_fs :: "path option \<Rightarrow> (path, path) file_system" where
  "small_fs w = \<lparr>database_path = ''r'', store_location = ''memory:///'', cache_config = cache_config_default 0 0,
     db_cache = None, databases = [(''f'', \<lparr>read_write = w, reader = None\<rparr>)], closed = False\<rparr>"

lemma small_fs_simps [simp]:
  "\<not> closed (small_fs w)" "writer_of (small_fs w) g = (if g = ''f'' then w else None)"
  "database_group ''f'' = ''f''" "database_group ''f.wal'' = ''f''"
  by (simp_all add: small_fs_def writer_of_def database_group_def DATABASE_COMPANION_SUFFIXES_def strip_suffix_def)

end
