(* ===== verification/Storage_Properties.thy ===== *)
theory Storage_Properties
  imports Mem_Examples
begin

text \<open>
  The properties of the storage layer: keys, chunk geometry, the operations of the chunk manager and of a
  file handle, one theorem each, over the lemmas of the components. The witnesses run the operations on
  the in-memory store of \<open>Mem_Examples\<close>.
\<close>

section \<open>Keys\<close>

text \<open>C28. The keys of the database are faithful. The key of a chunk parses back to its index, no two chunks
  share a key, and the keys of one file are ordered like their indices, so that a range scan returns the
  chunks of the range in order. The families do not overlap: the chunks and the metadata of a file, the
  path mappings and the id counter are pairwise distinct keys, and a scan of the chunks of a file meets
  none of the others and no chunk of another file.\<close>

theorem keys_faithful:
  assumes "f < u64_size" and "g < u64_size" and "i < u64_size" and "j < u64_size"
  shows "parse_chunk_idx (chunk_key f i) = Ok i \<and>
    (chunk_key f i = chunk_key g j \<longleftrightarrow> f = g \<and> i = j) \<and>
    (chunk_key f i \<le> chunk_key f j \<longleftrightarrow> i \<le> j) \<and>
    (prefix (chunk_prefix g) (chunk_key f i) \<longleftrightarrow> g = f) \<and>
    distinct [chunk_key f i, metadata_key f, path_key p, NEXT_FILE_ID_KEY] \<and>
    \<not> prefix (chunk_prefix g) (metadata_key f) \<and> \<not> prefix (chunk_prefix g) (path_key p) \<and>
    \<not> prefix (chunk_prefix g) NEXT_FILE_ID_KEY \<and> (path_key p = path_key q \<longleftrightarrow> p = q)"
  using assms parse_chunk_key chunk_key_inj chunk_prefix_of_key by simp

theorem keys_faithful_witness:
  "parse_chunk_idx (chunk_key 10 255) = Ok 255 \<and> chunk_key 10 255 \<le> chunk_key 10 4096
     \<and> \<not> prefix (chunk_prefix 1) (chunk_key 10 255) \<and> chunk_key 10 255 \<noteq> path_key ''next''"
  using keys_faithful [of 10 1 255 4096 "''next''"] by (simp add: u64_size_def)

section \<open>Geometry\<close>

text \<open>C26. Splitting a byte range gives slices with ascending chunk indices, and each byte of the range lies
  in a slice at the chunk and offset its position has; the slices stay inside their chunks.\<close>

theorem split_into_chunks_tiles_range:
  assumes "0 < cm_chunk_size m" and "cm_chunk_base_offset m < cm_chunk_size m" and "cm_chunk_size m < u64_size"
    and "offset + len \<le> u64_size"
  shows "\<exists>slices. split_into_chunks m len offset = Ok slices \<and> sorted_wrt (<) (map chunk_idx slices) \<and>
    (\<forall>sl \<in> set slices. 0 < slice_len sl \<and> buf_offset sl + slice_len sl \<le> len \<and>
       chunk_offset sl + slice_len sl \<le> chunk_capacity (cm_chunk_size m) (cm_chunk_base_offset m) (chunk_idx sl)) \<and>
    (\<forall>i < len. \<exists>sl \<in> set slices. buf_offset sl \<le> i \<and> i < buf_offset sl + slice_len sl \<and>
       cm_index m (offset + i) = chunk_idx sl \<and> cm_offset m (offset + i) = chunk_offset sl + (i - buf_offset sl))"
proof -
  have "geometry (cm_chunk_size m) (cm_chunk_base_offset m)" using assms by (simp add: geometry_def)
  from split_into_chunks_tiles [OF this assms(4)] obtain slices where s: "split_into_chunks m len offset = Ok slices"
    and t: "tiles (cm_chunk_size m) (cm_chunk_base_offset m) offset 0 len slices" .
  show ?thesis
  proof (intro exI conjI ballI allI impI)
    show "split_into_chunks m len offset = Ok slices" by (rule s)
    show "sorted_wrt (<) (map chunk_idx slices)" by (rule tiles_ascending [OF t])
    show "0 < slice_len sl" "buf_offset sl + slice_len sl \<le> len"
      "chunk_offset sl + slice_len sl \<le> chunk_capacity (cm_chunk_size m) (cm_chunk_base_offset m) (chunk_idx sl)"
      if "sl \<in> set slices" for sl
      using tiles_slice [OF t that] by blast+
    show "\<exists>sl \<in> set slices. buf_offset sl \<le> i \<and> i < buf_offset sl + slice_len sl \<and>
       cm_index m (offset + i) = chunk_idx sl \<and> cm_offset m (offset + i) = chunk_offset sl + (i - buf_offset sl)"
      if "i < len" for i
      using tiles_cover [OF t _ that] by simp
  qed
qed

theorem split_into_chunks_tiles_range_witness:
  "\<exists>slices. split_into_chunks (chunks (small_handle flags_read_only 0)) 7 1 = Ok slices \<and>
     map chunk_idx slices = [0, 1, 2] \<and> sorted_wrt (<) (map chunk_idx slices)"
proof -
  let ?m = "chunks (small_handle flags_read_only 0)"
  have "\<exists>slices. split_into_chunks ?m 7 1 = Ok slices \<and> sorted_wrt (<) (map chunk_idx slices)"
    using split_into_chunks_tiles_range [of ?m 1 7] by (auto simp: chunk_manager_new_def u64_size_def)
  moreover have "map chunk_idx (case split_into_chunks ?m 7 1 of Ok slices \<Rightarrow> slices | _ \<Rightarrow> []) = [0, 1, 2]" by code_simp
  ultimately show ?thesis by auto
qed

text \<open>C27. Grouping chunk indices into ranges loses none and invents none: the ranges, spelled out, are
  the indices in their order, each range is non-empty, and no two neighbours could be one range.\<close>

theorem coalesce_keeps_indices:
  assumes "\<forall>i \<in> set idxs. i < u64_size"
  shows "concat (map run_indices (coalesce_chunk_indices idxs)) = idxs \<and>
    (\<forall>g \<in> set (coalesce_chunk_indices idxs). fst g \<le> snd g) \<and>
    (\<forall>n. Suc n < length (coalesce_chunk_indices idxs) \<longrightarrow>
       Suc (snd (coalesce_chunk_indices idxs ! n)) \<noteq> fst (coalesce_chunk_indices idxs ! Suc n))"
  using coalesce_runs [OF assms] unfolding maximal_runs_def by blast

theorem coalesce_keeps_indices_witness:
  "coalesce_chunk_indices [3, 4, 5, 9, 11, 12] = [(3, 5), (9, 9), (11, 12)] \<and>
     concat (map run_indices (coalesce_chunk_indices [3, 4, 5, 9, 11, 12])) = [3, 4, 5, 9, 11, 12]"
proof
  show "coalesce_chunk_indices [3, 4, 5, 9, 11, 12] = [(3, 5), (9, 9), (11, 12)]" by code_simp
  show "concat (map run_indices (coalesce_chunk_indices [3, 4, 5, 9, 11, 12])) = [3, 4, 5, 9, 11, 12]"
    using coalesce_keeps_indices [of "[3, 4, 5, 9, 11, 12]"] by (simp add: u64_size_def)
qed

text \<open>C29. The read-ahead of a range scan is positive, at most four mebibytes, never more than the range
  holds, and the whole range when that fits.\<close>

theorem scan_read_ahead_bounds:
  assumes "first_idx \<le> last_idx" and "last_idx < u64_size" and "0 < chunk_size" and "chunk_size < u64_size"
  shows "0 < scan_read_ahead_bytes first_idx last_idx chunk_size \<and>
    scan_read_ahead_bytes first_idx last_idx chunk_size \<le> 4194304 \<and>
    scan_read_ahead_bytes first_idx last_idx chunk_size \<le> (last_idx - first_idx + 1) * chunk_size \<and>
    ((last_idx - first_idx + 1) * chunk_size \<le> 4194304 \<longrightarrow>
       scan_read_ahead_bytes first_idx last_idx chunk_size = (last_idx - first_idx + 1) * chunk_size)"
proof -
  let ?n = "min (last_idx - first_idx + 1) (u64_size - 1)"
  have n: "?n < u64_size" "0 < ?n" using assms by (auto simp: u64_size_def)
  have eq: "scan_read_ahead_bytes first_idx last_idx chunk_size = min (?n * chunk_size) 4194304"
    using assms n by (auto simp: scan_read_ahead_bytes_def saturating_add_def saturating_sub_def saturating_mul_def
        usize_try_from_def MAX_SCAN_READ_AHEAD_BYTES_def u64_size_def Let_def)
  have small: "?n = last_idx - first_idx + 1" if "(last_idx - first_idx + 1) * chunk_size \<le> 4194304"
  proof -
    have "(last_idx - first_idx + 1) * 1 \<le> (last_idx - first_idx + 1) * chunk_size"
      by (rule mult_le_mono2) (use assms(3) in simp)
    with that show ?thesis by (simp add: u64_size_def)
  qed
  have le: "?n * chunk_size \<le> (last_idx - first_idx + 1) * chunk_size" by (intro mult_le_mono1) simp
  have arith: "0 < min a 4194304 \<and> min a 4194304 \<le> 4194304 \<and> min a 4194304 \<le> b \<and> (b \<le> 4194304 \<longrightarrow> min a 4194304 = b)"
    if "0 < a" "a \<le> b" "b \<le> 4194304 \<Longrightarrow> a = b" for a b :: nat
    using that by (auto simp: min_def)
  have "0 < ?n * chunk_size" using n(2) assms(3) by simp
  from arith [OF this le] small show ?thesis unfolding eq by presburger
qed

theorem scan_read_ahead_bounds_witness:
  "scan_read_ahead_bytes 2 5 1024 = 4096 \<and> scan_read_ahead_bytes 0 99 262144 \<le> 4194304"
  using scan_read_ahead_bounds [of 2 5 1024] scan_read_ahead_bounds [of 0 99 262144] by (simp add: u64_size_def)

section \<open>Records\<close>

text \<open>C30. Opening a handle checks the metadata: it succeeds exactly when the flags are consistent, the
  client grants the access and the chunk geometry is sound; the handle then shows the metadata and stands
  at the end of the file when appending. It never panics.\<close>

theorem handle_construction:
  assumes "file_id < u64_size" and "metadata_u64 md"
  shows "((\<exists>h. with_chunk_store_internal c st file_id md fl = Ok h) \<longleftrightarrow>
      flags_wf fl \<and> ((\<exists>rd. c = ReadOnly rd) \<longrightarrow> fl_read fl \<and> \<not> fl_write fl) \<and>
      0 < md_chunk_size md \<and> md_chunk_base_offset md < md_chunk_size md) \<and>
    (with_chunk_store_internal c st file_id md fl = Ok h \<longrightarrow>
      fh_wf st h \<and> handle_metadata h = md \<and> file_size h = md_size md \<and>
      seek_position h = (if fl_append fl then md_size md else 0)) \<and>
    with_chunk_store_internal c st file_id md fl \<noteq> Panic q"
proof (intro conjI impI)
  show "(\<exists>h. with_chunk_store_internal c st file_id md fl = Ok h) \<longleftrightarrow>
      flags_wf fl \<and> ((\<exists>rd. c = ReadOnly rd) \<longrightarrow> fl_read fl \<and> \<not> fl_write fl) \<and>
      0 < md_chunk_size md \<and> md_chunk_base_offset md < md_chunk_size md"
    using assms by (cases c) (auto simp: with_chunk_store_internal_def o_bind_eq_Ok validated_chunk_size_eq_Ok
        metadata_u64_def)
  show "with_chunk_store_internal c st file_id md fl \<noteq> Panic q" by (rule with_chunk_store_no_panic)
  assume "with_chunk_store_internal c st file_id md fl = Ok h"
  note o = with_chunk_store_Ok [OF this assms]
  show "fh_wf st h" "handle_metadata h = md" "file_size h = md_size md"
    "seek_position h = (if fl_append fl then md_size md else 0)"
    using o by (simp_all add: file_size_def seek_position_def)
qed

theorem handle_construction_witness:
  "\<exists>h. with_chunk_store_internal (ReadWrite ''d'' :: (path, path) slate_file_client)
         (slatedb_chunk_store mem_slatedb ''d'') 1 (small_metadata 9) flags_append = Ok h \<and> seek_position h = 9"
proof -
  let ?st = "slatedb_chunk_store mem_slatedb ''d''" and ?md = "small_metadata 9"
  let ?c = "ReadWrite ''d'' :: (path, path) slate_file_client"
  have a: "1 < u64_size" "metadata_u64 ?md" by (simp_all add: small_metadata_def metadata_u64_def u64_size_def)
  note t = handle_construction [OF a, of ?c ?st flags_append]
  have "md_chunk_size ?md = 4" "md_chunk_base_offset ?md = 2" "md_size ?md = 9" by (simp_all add: small_metadata_def)
  with t obtain h where h: "with_chunk_store_internal ?c ?st 1 ?md flags_append = Ok h" by auto
  with t [of h] \<open>md_size ?md = 9\<close> show ?thesis by auto
qed

end
