(* ===== verification/Liveness.thy ===== *)
theory Liveness
  imports File_Session
begin

text \<open>
  Operations over a store that does not fail. The refinement of \<open>File_Session\<close> speaks of operations that
  succeed; here they are shown to succeed: when the store serves every call, a handle with the right access
  carries out every operation within the file and the address range. A store is reliable in the states
  \<open>good\<close>, which its calls keep; the locale \<open>reliable_db\<close> states this for SlateDB and yields \<open>reliable_store\<close>
  for the chunk store over it.
\<close>

section \<open>Operations without errors\<close>

definition io_ok :: "('s \<Rightarrow> bool) \<Rightarrow> ('s, 'a) io \<Rightarrow> 's \<Rightarrow> bool" where
  "io_ok G m s \<longleftrightarrow> (case m s of (r, s') \<Rightarrow> G s' \<and> (\<forall>e. r \<noteq> Err e))"

named_theorems ok_intros

lemma io_okD: "io_ok G m s \<Longrightarrow> m s = (r, s') \<Longrightarrow> G s' \<and> (\<forall>e. r \<noteq> Err e)"
  by (simp add: io_ok_def)

lemma io_okI: "(\<And>r s'. m s = (r, s') \<Longrightarrow> G s' \<and> (\<forall>e. r \<noteq> Err e)) \<Longrightarrow> io_ok G m s"
  by (simp add: io_ok_def split: prod.split)

lemma io_ok_return [ok_intros]: "G s \<Longrightarrow> io_ok G (io_return x) s"
  by (simp add: io_ok_def)

lemma io_ok_lift [ok_intros]: "G s \<Longrightarrow> (\<And>e. r \<noteq> Err e) \<Longrightarrow> io_ok G (io_lift r) s"
  by (simp add: io_ok_def)

lemma io_ok_get [ok_intros]: "io_ok G (f s) s \<Longrightarrow> io_ok G (io_bind io_get f) s"
  by (simp add: io_ok_def)

lemma io_ok_bind [ok_intros]:
  assumes "io_ok G m s" and "\<And>x s'. m s = (Ok x, s') \<Longrightarrow> G s' \<Longrightarrow> io_ok G (f x) s'"
  shows "io_ok G (io_bind m f) s"
proof (rule io_okI)
  fix r t assume "io_bind m f s = (r, t)"
  then show "G t \<and> (\<forall>e. r \<noteq> Err e)"
    by (cases rule: io_bind_cases) (use assms io_okD [OF assms(1)] io_okD [OF assms(2)] in auto)
qed

lemma io_ok_mapM [ok_intros]: "(\<And>x s. x \<in> set xs \<Longrightarrow> G s \<Longrightarrow> io_ok G (f x) s) \<Longrightarrow> G s \<Longrightarrow> io_ok G (io_mapM f xs) s"
  by (induction xs arbitrary: s) (auto intro!: ok_intros)

lemma io_ok_forM [ok_intros]: "(\<And>x s. x \<in> set xs \<Longrightarrow> G s \<Longrightarrow> io_ok G (f x) s) \<Longrightarrow> G s \<Longrightarrow> io_ok G (io_forM xs f) s"
  by (induction xs arbitrary: s) (auto intro!: ok_intros)

lemma io_ok_fst: "(\<And>e. fst (m a) \<noteq> Err e) \<Longrightarrow> G (snd (m a), b) \<Longrightarrow> io_ok G (io_fst m) (a, b)"
  by (simp add: io_ok_def)

lemma io_ok_snd:
  assumes "io_ok H m b" and "\<And>b'. H b' \<Longrightarrow> G (a, b')"
  shows "io_ok G (io_snd m) (a, b)"
  using assms by (auto simp: io_ok_def split: prod.splits)

text \<open>The parts of an operation that never fail with an error, whatever they are given.\<close>

lemma split_loop_no_Err: "split_loop cs base len offset c \<noteq> Err e"
proof (induction cs base len offset c rule: split_loop.induct)
  case (1 cs base len offset c)
  have "locate_position cs base p \<noteq> Err e" for p by (simp add: locate_position_def Let_def)
  with 1 show ?case
    by (subst split_loop.simps) (auto simp: o_bind_def Let_def split: outcome.splits prod.splits, metis)
qed

lemma split_into_chunks_no_Err: "split_into_chunks m len offset \<noteq> Err e"
  by (simp add: split_into_chunks_def split_loop_no_Err)

lemma slice_of_no_Err: "slice_of xs a b \<noteq> Err e"
  by (simp add: slice_of_def)

lemma copy_chunk_into_no_Err: "fst (copy_chunk_into sl c buf) \<noteq> Err e"
  by (auto simp: copy_chunk_into_def Let_def io_bind_def slice_of_no_Err split: prod.splits outcome.splits)

lemma io_bind_no_Err:
  "(\<And>e. fst (m s) \<noteq> Err e) \<Longrightarrow> (\<And>x s' e. fst (f x s') \<noteq> Err e) \<Longrightarrow> fst (io_bind m f s) \<noteq> Err e"
  by (cases "m s"; cases "fst (m s)") auto

lemma read_pending_no_Err: "fst (read_pending pend slices buf) \<noteq> Err e"
proof (induction slices arbitrary: buf e)
  case (Cons sl slices)
  then show ?case
    by (simp add: io_bind_no_Err copy_chunk_into_no_Err split: option.split pending_chunk.split)
qed simp

lemma copy_persisted_no_Err: "fst (copy_persisted cks slices buf) \<noteq> Err e"
  unfolding copy_persisted_def
proof (induction slices arbitrary: buf e)
  case (Cons sl slices)
  then show ?case
    by (simp add: io_bind_no_Err copy_chunk_into_no_Err split: option.split)
qed simp

section \<open>A reliable chunk store\<close>

locale reliable_store = chunk_store_spec st view
  for st :: "'s chunk_store" and view +
  fixes good :: "'s \<Rightarrow> bool"
  assumes get_good: "good s \<Longrightarrow> io_ok good (cs_get st k) s"
    and scan_good: "good s \<Longrightarrow> io_ok good (cs_scan_inclusive st a b n) s"
    and keys_good: "good s \<Longrightarrow> io_ok good (cs_keys_with_prefix st q) s"
begin

text \<open>Reliable states in which the chunk keys of a file are all chunk keys.\<close>

definition good_for :: "u64 \<Rightarrow> 's \<Rightarrow> bool" where
  "good_for f s \<longleftrightarrow> good s \<and> chunk_keys_ok f (view s)"

lemma io_ok_good_for:
  assumes "io_ok good m s" and "io_keeps view m" and "good_for f s"
  shows "io_ok (good_for f) m s"
  using assms io_keepsD [OF assms(2)] by (auto simp: io_ok_def good_for_def split: prod.splits)

lemma get_good_for: "good_for f s \<Longrightarrow> io_ok (good_for f) (cs_get st k) s"
  by (rule io_ok_good_for) (auto simp: good_for_def get_good get_keeps)

lemma scan_good_for: "good_for f s \<Longrightarrow> io_ok (good_for f) (cs_scan_inclusive st a b n) s"
  by (rule io_ok_good_for) (auto simp: good_for_def scan_good scan_keeps)

lemma keys_good_for: "good_for f s \<Longrightarrow> io_ok (good_for f) (cs_keys_with_prefix st q) s"
  by (rule io_ok_good_for) (auto simp: good_for_def keys_good keys_keeps)

lemma read_group_ok:
  assumes m: "cm_store m = st" "cm_file_id m = f" "f < u64_size" and s: "good_for f s"
  shows "io_ok (good_for f) (read_chunk_group_from_store m g) s"
proof (cases g)
  case (Pair a b)
  have parse: "parse_entries kvs \<noteq> Err e"
    if "cs_scan_inclusive st (chunk_key f a) (chunk_key f b) n s = (Ok kvs, s1)" for n kvs s1 e
  proof -
    have "\<forall>k \<in> fst ` set kvs. \<exists>i < u64_size. k = chunk_key f i"
      using scan_Ok [OF that] s chunk_range_prefix by (fastforce simp: entries_of_def chunk_keys_ok_def good_for_def)
    then obtain js where "kvs = map (\<lambda>(i, c). (chunk_key f i, c)) js" "\<forall>i \<in> fst ` set js. i < u64_size"
      using entries_as_chunk_keys by blast
    with m(3) show ?thesis by (simp add: parse_entries_chunk_keys)
  qed
  show ?thesis
    unfolding Pair read_chunk_group_from_store_def m(1,2)
    by (auto intro!: ok_intros get_good_for scan_good_for s dest: parse)
qed

lemma read_chunks_ok:
  assumes "cm_store m = st" "cm_file_id m = f" "f < u64_size" and "good_for f s"
  shows "io_ok (good_for f) (read_chunks_from_store m idxs) s"
  unfolding read_chunks_from_store_def by (auto intro!: ok_intros read_group_ok assms)

lemma read_chunk_ok:
  assumes "cm_store m = st" and "good_for f s"
  shows "io_ok (good_for f) (read_chunk_from_store m idx) s"
  unfolding read_chunk_from_store_def assms(1) by (auto intro!: ok_intros get_good_for assms)

lemma chunk_contents_ok:
  assumes "cm_store m = st" and "good_for f s"
  shows "io_ok (good_for f) (chunk_contents m idx) s"
  unfolding chunk_contents_def
  by (auto split: option.split pending_chunk.split intro!: ok_intros read_chunk_ok assms)

lemma collect_indices_ok:
  assumes m: "cm_store m = st" "cm_file_id m = f" "f < u64_size" and s: "good_for f s"
  shows "io_ok (good_for f) (collect_persisted_chunk_indices m n) s"
proof -
  have parse: "parse_keys_from n ks \<noteq> Err e" if "cs_keys_with_prefix st (chunk_prefix f) s = (Ok ks, s1)" for ks s1 e
  proof -
    have "\<forall>k \<in> set ks. \<exists>i < u64_size. k = chunk_key f i"
      using keys_Ok [OF that] s by (auto simp: chunk_keys_ok_def good_for_def)
    then obtain js where "ks = map (chunk_key f) js" "\<forall>i \<in> set js. i < u64_size" using keys_as_chunk_keys by blast
    with m(3) show ?thesis by (simp add: parse_keys_chunk_keys)
  qed
  show ?thesis unfolding collect_persisted_chunk_indices_def m(1,2)
    by (auto intro!: ok_intros keys_good_for s dest: parse)
qed

subsection \<open>The chunk manager\<close>

definition good_manager :: "u64 \<Rightarrow> 's chunk_manager \<times> 's \<Rightarrow> bool" where
  "good_manager f c \<longleftrightarrow> cm_store (fst c) = st \<and> cm_file_id (fst c) = f \<and> f < u64_size \<and> good_for f (snd c)"

lemma good_manager_snd:
  assumes "good_manager f (m, s)" and "io_ok (good_for f) q s"
  shows "io_ok (good_manager f) (io_snd q) (m, s)"
  using assms(1) by (intro io_ok_snd [OF assms(2)]) (simp add: good_manager_def)

lemma good_manager_put [ok_intros]:
  assumes "good_manager f c" and "cm_store m = st" and "cm_file_id m = f"
  shows "io_ok (good_manager f) (io_fst (io_put m)) c"
  using assms unfolding good_manager_def by (cases c) (simp add: io_ok_def)

lemma write_slice_ok:
  assumes "good_manager f c"
  shows "io_ok (good_manager f) (write_slice data sl) c"
proof (cases c)
  case (Pair m s)
  then have m: "cm_store m = st" "cm_file_id m = f" "good_for f s" "good_manager f (m, s)"
    using assms by (auto simp: good_manager_def)
  have load: "io_ok (good_manager f) (if full then io_return z else io_snd (chunk_contents m i)) (m, s)" for full z i
    using m by (simp add: good_manager_snd chunk_contents_ok io_ok_return)
  show ?thesis unfolding Pair write_slice_def
    by (rule io_ok_get, simp only: prod.case Let_def,
        intro io_ok_bind load io_ok_lift slice_of_no_Err good_manager_put) (simp_all add: m)
qed

lemma cm_write_ok: "good_manager f c \<Longrightarrow> io_ok (good_manager f) (cm_write data offset) c"
  unfolding cm_write_def
  by (auto simp: split_into_chunks_no_Err split: prod.split intro!: ok_intros write_slice_ok)

lemma cm_truncate_ok:
  assumes "good_manager f c"
  shows "io_ok (good_manager f) (cm_truncate n) c"
proof (cases c)
  case (Pair m s)
  then have m: "cm_store m = st" "cm_file_id m = f" "f < u64_size" "good_for f s" "good_manager f (m, s)"
    using assms by (auto simp: good_manager_def)
  have step: "io_ok (good_manager f) (io_snd (collect_persisted_chunk_indices m i)) c'"
    "io_ok (good_manager f) (io_snd (read_chunk_from_store m i)) c'" if "good_manager f c'" for i c'
  proof -
    obtain m' s' where c': "c' = (m', s')" by (cases c')
    with that have "good_for f s'" by (simp add: good_manager_def)
    with that m show "io_ok (good_manager f) (io_snd (collect_persisted_chunk_indices m i)) c'"
      "io_ok (good_manager f) (io_snd (read_chunk_from_store m i)) c'"
      unfolding c' by (simp_all add: good_manager_snd collect_indices_ok read_chunk_ok)
  qed
  have rest: "io_ok (good_manager f) (io_bind (io_snd (collect_persisted_chunk_indices m i))
      (\<lambda>ids. io_fst (io_put (mark_chunks_deleted ids (m\<lparr>cm_pending := p\<rparr>))))) c'" if "good_manager f c'" for i p c'
    by (rule io_ok_bind [OF step(1) [OF that]]) (simp add: good_manager_put mark_chunks_deleted_def m)
  have shortened: "io_ok (good_manager f) (if map_of (cm_pending m) i \<noteq> None then io_return None
      else io_bind (io_snd (read_chunk_from_store m i)) (\<lambda>persisted.
        io_return (if len < length persisted then Some (take len persisted) else None))) c'" if "good_manager f c'" for i len c'
    using that by (cases "map_of (cm_pending m) i") (auto intro!: ok_intros step)
  show ?thesis
  proof (cases "n = 0")
    case True
    show ?thesis unfolding Pair cm_truncate_def by (rule io_ok_get) (simp add: True rest m)
  next
    case False
    show ?thesis unfolding Pair cm_truncate_def
    proof (rule io_ok_get, simp only: prod.case False if_False, rule io_ok_bind)
      show "io_ok (good_manager f) (io_lift (split_into_chunks m 1 (n - 1))) (m, s)"
        using m(5) by (intro ok_intros split_into_chunks_no_Err)
      fix slices c' assume "good_manager f c'"
      then show "io_ok (good_manager f) (case slices of [] \<Rightarrow> io_lift (Panic ''index out of bounds'')
         | last_byte # _ \<Rightarrow>
             let last_chunk = chunk_idx last_byte; last_len = chunk_offset last_byte + 1 in
             io_bind (if map_of (cm_pending m) last_chunk \<noteq> None then io_return None
                      else io_bind (io_snd (read_chunk_from_store m last_chunk)) (\<lambda>persisted.
                        io_return (if last_len < length persisted
                                   then Some (take last_len persisted) else None))) (\<lambda>shortened.
             io_bind (io_snd (collect_persisted_chunk_indices m (u64_add last_chunk 1)))
               (\<lambda>chunks_to_delete.
             io_fst (io_put (mark_chunks_deleted chunks_to_delete
               (m\<lparr>cm_pending := shorten_pending last_chunk last_len shortened (cm_pending m)\<rparr>)))))) c'"
        by (cases slices; simp only: list.case Let_def)
          (simp add: io_ok_lift, rule io_ok_bind [OF shortened rest])
    qed
  qed
qed

lemma cm_read_ok:
  assumes "cm_store m = st" "cm_file_id m = f" "f < u64_size" and "good_for f s"
  shows "io_ok (\<lambda>c. good_for f (snd c)) (cm_read m offset) (buf, s)"
proof -
  let ?G = "\<lambda>c :: bytes \<times> 's. good_for f (snd c)"
  have inner: "io_ok ?G (io_fst q) c" if "?G c" "\<And>b e. fst (q b) \<noteq> Err e" for q :: "(bytes, 'x) io" and c
    using that by (cases c) (auto intro!: io_ok_fst)
  have outer: "io_ok ?G (io_snd (read_chunks_from_store m idxs)) c" if "?G c" for idxs c
    using that assms by (cases c) (auto intro!: io_ok_snd [OF read_chunks_ok])
  show ?thesis unfolding cm_read_def
    by (auto intro!: ok_intros inner outer simp: assms split_into_chunks_no_Err read_pending_no_Err copy_persisted_no_Err)
qed

subsection \<open>The handle\<close>

lemma pread_ok:
  assumes "fh_wf st h" and "good_for (fh_file_id h) s" and "fl_read (fh_flags h)"
    and "pread h offset (buf, s) = (r, (buf', s'))"
  shows "good_for (fh_file_id h) s' \<and> (\<forall>e. r \<noteq> Err e)"
proof -
  let ?G = "\<lambda>c :: bytes \<times> 's. good_for (fh_file_id h) (snd c)"
  have m: "cm_store (chunks h) = st" "cm_file_id (chunks h) = fh_file_id h" "fh_file_id h < u64_size"
    using assms(1) by (auto simp: fh_wf_def cm_wf_def)
  have part: "io_ok ?G (io_prefix n (cm_read (chunks h) offset)) c" if "?G c" for n c
    using that cm_read_ok [OF m, of "snd c" offset "take n (fst c)"]
    by (cases c) (auto simp: io_ok_def io_prefix_def split: prod.splits)
  have "io_ok ?G (pread h offset) (buf, s)"
    unfolding pread_def using assms(2,3)
    by (auto simp: ensure_readable_def flags_ensure_def Let_def intro!: ok_intros part)
  from io_okD [OF this assms(4)] show ?thesis by simp
qed

lemma io_chunks_ok:
  assumes "io_ok (good_manager f) q (chunks h, s)" and "io_chunks q (h, s) = (r, (h', s'))"
  shows "good_for f s' \<and> (\<forall>e. r \<noteq> Err e)"
  using assms by (auto simp: io_chunks_def io_ok_def good_manager_def split: prod.splits)

lemma pwrite_ok:
  assumes "fh_wf st h" and "good_for (fh_file_id h) s" and "fl_write (fh_flags h)"
    and "offset + length data < u64_size" and "pwrite now data offset (h, s) = (r, (h', s'))"
  shows "good_for (fh_file_id h) s' \<and> (\<forall>e. r \<noteq> Err e)"
proof (cases "data = []")
  case True
  with assms show ?thesis by (auto simp: pwrite_def ensure_writable_def)
next
  case False
  obtain q h1 s1 where q: "io_chunks (cm_write data offset) (h, s) = (q, (h1, s1))" by (metis prod.collapse)
  have "good_manager (fh_file_id h) (chunks h, s)"
    using assms(1,2) by (auto simp: good_manager_def fh_wf_def cm_wf_def)
  from io_chunks_ok [OF cm_write_ok [OF this] q] False assms(3-5) q show ?thesis
    by (cases q) (auto simp: pwrite_def ensure_writable_def checked_add_def)
qed

lemma truncate_ok:
  assumes "fh_wf st h" and "good_for (fh_file_id h) s" and "fl_write (fh_flags h)"
    and "fh_truncate now n (h, s) = (r, (h', s'))"
  shows "good_for (fh_file_id h) s' \<and> (\<forall>e. r \<noteq> Err e)"
proof -
  obtain q h1 s1 where q: "io_chunks (cm_truncate n) (h, s) = (q, (h1, s1))" by (metis prod.collapse)
  have "good_manager (fh_file_id h) (chunks h, s)"
    using assms(1,2) by (auto simp: good_manager_def fh_wf_def cm_wf_def)
  from io_chunks_ok [OF cm_truncate_ok [OF this] q] assms(2-4) q show ?thesis
    by (cases q) (auto simp: fh_truncate_def ensure_writable_def split: if_splits)
qed

end

section \<open>A reliable database\<close>

locale reliable_db = slate_db S view durable
  for S :: "('s, 'db, 'rd, 'tx) slatedb" and view durable +
  fixes good :: "'s \<Rightarrow> bool"
  assumes db_get_good: "good s \<Longrightarrow> db_get S db k s = (g, s') \<Longrightarrow> good s' \<and> (\<exists>v. g = Inr v)"
    and db_scan_good: "good s \<Longrightarrow> db_scan S db a b opt s = (q, s') \<Longrightarrow> good s' \<and> (\<exists>kvs. q = Inr (map Inr kvs))"
    and db_scan_prefix_good: "good s \<Longrightarrow> db_scan_prefix S db p s = (q, s') \<Longrightarrow>
      good s' \<and> (\<exists>kvs. q = Inr (map Inr kvs))"
    and db_write_good: "good s \<Longrightarrow> db_write S db bt s = (w, s') \<Longrightarrow> good s' \<and> (\<exists>u. w = Inr u)"
    and db_flush_good: "good s \<Longrightarrow> db_flush S db s = (w, s') \<Longrightarrow> good s' \<and> (\<exists>u. w = Inr u)"

lemma collect_map_Inr [simp]: "collect_pairs (map Inr kvs) = Ok kvs" "collect_keys (map Inr kvs) = Ok (map fst kvs)"
  by (induction kvs) simp_all

lemma slate_ok:
  assumes "\<And>r s'. f s = (r, s') \<Longrightarrow> G s' \<and> (\<exists>x. r = Inr x)"
  shows "io_ok G (slate f) s"
  using assms by (cases "f s") (auto simp: io_ok_def slate_def)

sublocale reliable_db \<subseteq> live: reliable_store "slatedb_chunk_store S db" "view db" good
  for db
proof (intro reliable_store.intro reliable_store_axioms.intro)
  show "chunk_store_spec (slatedb_chunk_store S db) (view db)"
    unfolding slatedb_chunk_store_def by (rule rw.client.chunk_store_spec_axioms)
  fix s k a b n assume s: "good s"
  note defs = slatedb_chunk_store_def client_chunk_store_def
  show "io_ok good (cs_get (slatedb_chunk_store S db) k) s"
    by (simp add: defs) (rule slate_ok, rule db_get_good [OF s])
  show "io_ok good (cs_scan_inclusive (slatedb_chunk_store S db) a b n) s"
  proof (cases "db_scan S db a b (chunk_scan_options n) s")
    case (Pair q s')
    with db_scan_good [OF s Pair] show ?thesis by (auto simp: defs io_ok_def slate_def io_bind_def)
  qed
  show "io_ok good (cs_keys_with_prefix (slatedb_chunk_store S db) k) s"
  proof (cases "db_scan_prefix S db k s")
    case (Pair q s')
    with db_scan_prefix_good [OF s Pair] show ?thesis by (auto simp: defs io_ok_def slate_def io_bind_def)
  qed
qed

text \<open>The database in memory serves every call once its schedule of faults is used up.\<close>

interpretation mem_live: reliable_db mem_slatedb mem_view mem_durable "\<lambda>s. mem_faults s = []"
proof
  fix s :: mem and db k a b opt p bt g q w s'
  assume f: "mem_faults s = []"
  show "db_get mem_slatedb db k s = (g, s') \<Longrightarrow> mem_faults s' = [] \<and> (\<exists>v. g = Inr v)"
    using f by (auto simp: mem_slatedb_def mem_get_def mem_call_def)
  show "db_scan mem_slatedb db a b opt s = (q, s') \<Longrightarrow> mem_faults s' = [] \<and> (\<exists>kvs. q = Inr (map Inr kvs))"
    using f by (auto simp: mem_slatedb_def mem_scan_def mem_call_def mem_entries_def)
  show "db_scan_prefix mem_slatedb db p s = (q, s') \<Longrightarrow> mem_faults s' = [] \<and> (\<exists>kvs. q = Inr (map Inr kvs))"
    using f by (auto simp: mem_slatedb_def mem_scan_prefix_def mem_call_def mem_entries_def)
  show "db_write mem_slatedb db bt s = (w, s') \<Longrightarrow> mem_faults s' = [] \<and> (\<exists>u. w = Inr u)"
    using f by (auto simp: mem_slatedb_def mem_call_def mem_set_def)
  show "db_flush mem_slatedb db s = (w, s') \<Longrightarrow> mem_faults s' = [] \<and> (\<exists>u. w = Inr u)"
    using f by (auto simp: mem_slatedb_def mem_call_def)
qed

section \<open>Sessions that succeed\<close>

text \<open>
  An operation within the file: a write starts inside it or at its end and ends in the address range, a
  truncation does not grow it.
\<close>

definition write_valid :: "bytes \<Rightarrow> u64 \<Rightarrow> bytes \<Rightarrow> bool" where
  "write_valid contents offset data \<longleftrightarrow> offset \<le> length contents \<and> offset + length data < u64_size"

fun op_valid :: "bool \<Rightarrow> file_op \<Rightarrow> bytes \<times> u64 \<Rightarrow> bool" where
  "op_valid app (Pwrite data offset) (contents, pos) = write_valid contents offset data"
| "op_valid app (Write data) (contents, pos) = write_valid contents (if app then length contents else pos) data"
| "op_valid app (Truncate n) (contents, pos) = (n \<le> length contents)"
| "op_valid app _ _ = True"

fun run_valid :: "bool \<Rightarrow> file_op list \<Rightarrow> bytes \<times> u64 \<Rightarrow> bool" where
  "run_valid app [] a = True"
| "run_valid app (op # ops) a = (op_valid app op a \<and> run_valid app ops (snd (spec_op app op a)))"

context reliable_db
begin

text \<open>What a session keeps: reliable states, and a dense file behind a handle that may read and write.\<close>

definition live_handle :: "'db \<Rightarrow> ('s, 'db, 'rd) file_handle \<Rightarrow> 's \<Rightarrow> bool" where
  "live_handle db h s \<longleftrightarrow> handle_inv S db h (view db s) \<and> zero_tail h (view db s) \<and> dense h (view db s) \<and>
     good s \<and> fl_read (fh_flags h) \<and> fl_write (fh_flags h)"

lemma live_handle_good_for:
  "live_handle db h s \<Longrightarrow> fh_wf (slatedb_chunk_store S db) h \<and> live.good_for db (fh_file_id h) s"
  by (auto simp: live_handle_def live.good_for_def handle_inv_def)

lemma sync_ok:
  assumes "good s" and "client h = ReadWrite db" and "sync S P (h, s) = (r, (h', s'))"
  shows "good s' \<and> (\<forall>e. r \<noteq> Err e)"
proof -
  obtain w s1 where w: "db_write S db (sync_batch P h) s = (w, s1)" by fastforce
  obtain q s2 where q: "db_flush S db s1 = (q, s2)" by fastforce
  from db_write_good [OF assms(1) w] have "good s1" "\<exists>u. w = Inr u" by auto
  with db_flush_good [OF _ q] w q assms show ?thesis
    by (auto simp: sync_def client_writer_def slate_def io_bind_def split: if_splits)
qed

lemma pread_live:
  assumes "live_handle db h s" and "pread h offset (buf, s) = (r, (buf', s'))"
  shows "good s' \<and> (\<exists>n. r = Ok n)"
proof -
  note g = live_handle_good_for [OF assms(1)]
  have keys: "chunk_keys_ok (fh_file_id h) (view db s)" using g by (simp add: live.good_for_def)
  have "readable_at (chunks h) (view db s) offset" if "offset < fh_size h"
    using assms(1) that by (auto simp: live_handle_def dense_def intro: covered_readable)
  with wr.pread_spec [OF assms(2) _ keys] live.pread_ok [OF _ _ _ assms(2)] g assms(1)
  show ?thesis by (cases r) (auto simp: live_handle_def live.good_for_def)
qed

lemma fh_read_live:
  assumes "live_handle db h s" and "fh_read (h, (buf, s)) = (r, (h', (buf', s')))"
  shows "good s' \<and> (\<exists>n. r = Ok n)"
proof -
  let ?n = "min (fh_size h - position h) (length buf)"
  have conv: "usize_try_from (fh_size h - position h) = Some (fh_size h - position h)"
    using live_handle_good_for [OF assms(1)] by (simp add: fh_wf_def usize_try_from_def less_imp_diff_less)
  obtain q b1 s1 where q: "pread h (position h) (take ?n buf, s) = (q, (b1, s1))" by (metis prod.collapse)
  from pread_live [OF assms(1) q] obtain k where "q = Ok k" "good s1" by auto
  with assms q conv show ?thesis
    by (cases "?n = 0") (auto simp: fh_read_def saturating_sub_def Let_def live_handle_def)
qed

lemma pwrite_live:
  assumes "live_handle db h s" and "offset + length data < u64_size" and "pwrite now data offset (h, s) = (r, (h', s'))"
  shows "good s' \<and> r = Ok ()"
  using live.pwrite_ok [OF _ _ _ assms(2,3)] wr.pwrite_spec [OF assms(3)] live_handle_good_for [OF assms(1)] assms(1)
  by (cases r) (auto simp: live_handle_def live.good_for_def)

lemma fh_write_live:
  assumes "live_handle db h s" and "write_offset h + length data < u64_size" and "fh_write now data (h, s) = (r, (h', s'))"
  shows "good s' \<and> (\<exists>n. r = Ok n)"
proof -
  obtain q h1 s1 where q: "pwrite now data (write_offset h) (h, s) = (q, (h1, s1))" by (metis prod.collapse)
  from pwrite_live [OF assms(1,2) q] q assms(2,3) show ?thesis
    by (auto simp: fh_write_def Let_def checked_add_def)
qed

lemma truncate_live:
  assumes "live_handle db h s" and "n < u64_size" and "fh_truncate now n (h, s) = (r, (h', s'))"
  shows "good s' \<and> r = Ok ()"
proof -
  note g = live_handle_good_for [OF assms(1)]
  have "chunk_keys_ok (fh_file_id h) (view db s)" using g by (simp add: live.good_for_def)
  with live.truncate_ok [OF _ _ _ assms(3)] wr.fh_truncate_spec [OF assms(3) _ _ assms(2)] g assms(1)
  show ?thesis by (cases r) (auto simp: live_handle_def live.good_for_def)
qed

lemma exec_op_ok:
  assumes l: "live_handle db h s" and v: "op_valid (fl_append (fh_flags h)) op (abs_handle h (view db s))"
    and run: "exec_op S P (now, op) (h, s) = (r, (h', s'))"
  shows "good s' \<and> (\<exists>out. r = Ok out)"
proof (cases op)
  case (Pread n offset)
  obtain q buf s1 where q: "pread h offset (replicate n 0, s) = (q, (buf, s1))" by (metis prod.collapse)
  from pread_live [OF l q] run q Pread show ?thesis by (auto simp: read_result_def)
next
  case (Read n)
  obtain q h1 buf s1 where q: "fh_read (h, (replicate n 0, s)) = (q, (h1, (buf, s1)))" by (metis prod.collapse)
  from fh_read_live [OF l q] run q Read show ?thesis by (auto simp: read_result_def)
next
  case (Pwrite data offset)
  then obtain q where q: "pwrite now data offset (h, s) = (q, (h', s'))"
    and r: "r = (case q of Ok _ \<Rightarrow> Ok [] | Err e \<Rightarrow> Err e | Panic p \<Rightarrow> Panic p)" using run by (auto simp: no_output_eq)
  from pwrite_live [OF l _ q] v Pwrite r show ?thesis by (simp add: abs_handle_def write_valid_def)
next
  case (Write data)
  then obtain q where q: "fh_write now data (h, s) = (q, (h', s'))"
    and r: "r = (case q of Ok _ \<Rightarrow> Ok [] | Err e \<Rightarrow> Err e | Panic p \<Rightarrow> Panic p)" using run by (auto simp: no_output_eq)
  have "write_offset h + length data < u64_size" using v Write by (simp add: abs_handle_def write_valid_def split: if_splits)
  from fh_write_live [OF l this q] r show ?thesis by auto
next
  case (Truncate n)
  then obtain q where q: "fh_truncate now n (h, s) = (q, (h', s'))"
    and r: "r = (case q of Ok _ \<Rightarrow> Ok [] | Err e \<Rightarrow> Err e | Panic p \<Rightarrow> Panic p)" using run by (auto simp: no_output_eq)
  have "n < u64_size" using v Truncate live_handle_good_for [OF l] by (simp add: abs_handle_def fh_wf_def)
  from truncate_live [OF l this q] r show ?thesis by simp
next
  case Sync
  then obtain q where q: "sync S P (h, s) = (q, (h', s'))"
    and r: "r = (case q of Ok _ \<Rightarrow> Ok [] | Err e \<Rightarrow> Err e | Panic p \<Rightarrow> Panic p)" using run by (auto simp: no_output_eq)
  have h: "good s" "client h = ReadWrite db" "fh_wf (slatedb_chunk_store S db) h"
    using l by (auto simp: live_handle_def handle_inv_def)
  from sync_ok [OF h(1,2) q] sync_spec [OF q h(3,2)] r show ?thesis by (cases q) auto
qed (use run l in \<open>auto simp: live_handle_def\<close>)

lemma exec_op_dense:
  assumes l: "live_handle db h s" and v: "op_valid (fl_append (fh_flags h)) op (abs_handle h (view db s))"
    and run: "exec_op S P (now, op) (h, s) = (Ok out, (h', s'))"
  shows "dense h' (view db s')"
proof -
  have h: "fh_wf (slatedb_chunk_store S db) h" "chunk_keys_ok (fh_file_id h) (view db s)" "client h = ReadWrite db"
    "zero_tail h (view db s)" "dense h (view db s)" "handle_inv S db h (view db s)"
    using l by (auto simp: live_handle_def handle_inv_def)
  have quiet: ?thesis if "op \<in> {Pread n offset, Read n}" for n offset
    using read_op_state [OF run that h(6)] h(5) by auto
  show ?thesis
  proof (cases op)
    case (Pwrite data offset)
    with run have "pwrite now data offset (h, s) = (Ok (), (h', s'))" by (auto simp: no_output_eq_Ok)
    from wr.pwrite_refines [OF this h(1,4)] h(5) v Pwrite show ?thesis by (simp add: abs_handle_def write_valid_def)
  next
    case (Write data)
    with run obtain n where "fh_write now data (h, s) = (Ok n, (h', s'))" by (auto simp: no_output_eq_Ok)
    from wr.fh_write_refines [OF this h(1,4)] h(5) v Write show ?thesis
      by (auto simp: abs_handle_def write_valid_def split: if_splits)
  next
    case (Truncate n)
    with run have t: "fh_truncate now n (h, s) = (Ok (), (h', s'))" by (auto simp: no_output_eq_Ok)
    have "n \<le> fh_size h" "n < u64_size" using v Truncate h(1) by (auto simp: abs_handle_def fh_wf_def)
    with wr.fh_truncate_refines [OF t h(1,4,2)] h(5) show ?thesis by simp
  next
    case Sync
    with run have "sync S P (h, s) = (Ok (), (h', s'))" by (auto simp: no_output_eq_Ok)
    from sync_keeps_file [OF this h(1,3)] h(1,5) shows_sameD(3) show ?thesis by (metis fh_wf_def)
  qed (use quiet run h(5) in \<open>auto simp: seek_def reset_def\<close>)
qed

lemma op_valid_u64:
  "live_handle db h s \<Longrightarrow> op_valid app op (abs_handle h (view db s)) \<Longrightarrow> op_u64 op"
  by (cases op) (auto simp: live_handle_def handle_inv_def fh_wf_def abs_handle_def)

text \<open>One operation: it succeeds, as the abstract machine does, and leaves a live handle.\<close>

lemma exec_op_live:
  assumes l: "live_handle db h s" and v: "op_valid (fl_append (fh_flags h)) op (abs_handle h (view db s))"
  obtains h' s' where "live_handle db h' s'" and "fl_append (fh_flags h') = fl_append (fh_flags h)"
    and "exec_op S P (now, op) (h, s) = (Ok (fst (spec_op (fl_append (fh_flags h)) op (abs_handle h (view db s)))), (h', s'))"
    and "snd (spec_op (fl_append (fh_flags h)) op (abs_handle h (view db s))) = abs_handle h' (view db s')"
proof -
  obtain r h' s' where run: "exec_op S P (now, op) (h, s) = (r, (h', s'))" by (metis prod.collapse)
  from exec_op_ok [OF l v run] obtain out where ok: "r = Ok out" "good s'" by auto
  note run' = run [unfolded ok(1)]
  have h: "handle_inv S db h (view db s)" "zero_tail h (view db s)" using l by (auto simp: live_handle_def)
  note u = op_valid_u64 [OF l v]
  note i = exec_op_inv [OF run' h(1) u] and ref = exec_op_refines [OF run' h(1) u h(2)]
  have "live_handle db h' s'"
    using i ref ok(2) exec_op_dense [OF l v run'] l by (auto simp: live_handle_def same_handle_def)
  with that [of h' s'] run' ref i show ?thesis by (simp add: same_handle_def)
qed

lemma exec_ops_live:
  assumes "live_handle db h s" and "run_valid (fl_append (fh_flags h)) (map snd ops) (abs_handle h (view db s))"
  shows "\<exists>h' s'. exec_ops S P ops (h, s)
      = (Ok (fst (spec_run (fl_append (fh_flags h)) (map snd ops) (abs_handle h (view db s)))), (h', s')) \<and>
    snd (spec_run (fl_append (fh_flags h)) (map snd ops) (abs_handle h (view db s))) = abs_handle h' (view db s') \<and>
    live_handle db h' s'"
  using assms
proof (induction ops arbitrary: h s)
  case (Cons x ops)
  obtain now op where x: "x = (now, op)" by (cases x)
  let ?app = "fl_append (fh_flags h)" and ?a = "abs_handle h (view db s)"
  have v: "op_valid ?app op ?a" and vs: "run_valid ?app (map snd ops) (snd (spec_op ?app op ?a))"
    using Cons.prems(2) x by simp_all
  obtain h1 s1 where l1: "live_handle db h1 s1" "fl_append (fh_flags h1) = ?app"
    and e1: "exec_op S P (now, op) (h, s) = (Ok (fst (spec_op ?app op ?a)), (h1, s1))"
    and a1: "snd (spec_op ?app op ?a) = abs_handle h1 (view db s1)"
    by (rule exec_op_live [OF Cons.prems(1) v])
  from Cons.IH [OF l1(1)] vs l1(2) a1 obtain h' s' where
    "exec_ops S P ops (h1, s1) = (Ok (fst (spec_run ?app (map snd ops) (abs_handle h1 (view db s1)))), (h', s'))"
    "snd (spec_run ?app (map snd ops) (abs_handle h1 (view db s1))) = abs_handle h' (view db s')" "live_handle db h' s'"
    by auto
  with e1 a1 x show ?case by (auto simp: exec_ops_def io_bind_eq_Ok split_beta)
qed (auto simp: exec_ops_def)

end

end
