(* ===== verification/Handle_Properties.thy ===== *)
theory Handle_Properties
  imports Mem_Examples Liveness
begin

text \<open>
  The properties of a file handle: what its operations return and leave behind, on success, on a failure
  of the store and on a panic. Three of them show behaviours the code does not intend.
\<close>

section \<open>Reads\<close>

text \<open>C12. A positional read returns the bytes of the file from the offset on, as many as the buffer holds
  and the file has, and leaves the rest of the buffer and the store alone. Without read access it is an
  invalid argument that leaves the buffer as it was; with it an error comes only from a read that has
  something to fetch. Such a read succeeds only where the chunk of the offset is absent or reaches up to it,
  and panics only where it ends before.\<close>

theorem pread_returns_file_bytes:
  assumes "chunk_store_spec st view" and "pread h offset (buf, s) = (r, (buf', s'))"
    and "fh_wf st h" and "chunk_keys_ok (fh_file_id h) (view s)"
  shows "view s' = view s \<and> length buf' = length buf \<and>
    (case r of
       Ok n \<Rightarrow> fl_read (fh_flags h) \<and> n = min (length buf) (fh_size h - offset) \<and>
              buf' = take n (drop offset (file_bytes h (view s))) @ drop n buf \<and>
              (offset < fh_size h \<and> buf \<noteq> [] \<longrightarrow> readable_at (chunks h) (view s) offset)
     | Err e \<Rightarrow> if fl_read (fh_flags h) then offset < fh_size h \<and> buf \<noteq> []
              else code e = CodeInvalidArgument \<and> buf' = buf
     | Panic _ \<Rightarrow> offset < fh_size h \<and> buf \<noteq> [] \<and> \<not> readable_at (chunks h) (view s) offset)"
  by (rule chunk_store_spec.pread_spec [OF assms])

theorem pread_returns_file_bytes_witness:
  "\<exists>s'. pread (small_handle flags_read_only 3) 1 ([9, 9, 9, 9], mem_empty) = (Ok 2, ([0, 0, 9, 9], s')) \<and>
     mem_view ''d'' s' = Map.empty"
proof -
  let ?h = "small_handle flags_read_only 3"
  have wf: "fh_wf (slatedb_chunk_store mem_slatedb ''d'') ?h" by (rule small_handle_wf) (simp add: u64_size_def)
  have keys: "chunk_keys_ok (fh_file_id ?h) (mem_view ''d'' mem_empty)" by (simp add: chunk_keys_ok_def)
  have "fst (pread ?h 1 ([9, 9, 9, 9], mem_empty)) = Ok 2" by code_simp
  from run_obtain [OF this] obtain buf s' where run: "pread ?h 1 ([9, 9, 9, 9], mem_empty) = (Ok 2, (buf, s'))"
    by (elim exE)
  from pread_returns_file_bytes [OF mem_store.chunk_store_spec_axioms run wf keys] run
  show ?thesis by (simp add: numeral_eq_Suc)
qed

text \<open>C15. A dense file never panics: when every position below the size is covered by its chunk, no
  positional read panics, and the file stays dense under writes that start inside it or at its end and
  under truncations that do not grow it.\<close>

theorem dense_files_do_not_panic:
  assumes "chunk_store_spec st view" and "fh_wf st h" and "chunk_keys_ok (fh_file_id h) (view s)"
    and "dense h (view s)"
  shows "(\<forall>offset buf q. fst (pread h offset (buf, s)) \<noteq> Panic q) \<and>
    (\<forall>now data offset h' s'. pwrite now data offset (h, s) = (Ok (), (h', s')) \<and> offset \<le> fh_size h \<longrightarrow>
       dense h' (view s')) \<and>
    (\<forall>now n h' s'. fh_truncate now n (h, s) = (Ok (), (h', s')) \<and> n \<le> fh_size h \<longrightarrow> dense h' (view s'))"
proof (intro conjI allI impI)
  fix offset buf q
  obtain r buf' s' where run: "pread h offset (buf, s) = (r, (buf', s'))" by (metis prod.collapse)
  have "readable_at (chunks h) (view s) offset" if "offset < fh_size h"
    using that assms(4) by (auto simp: dense_def intro: covered_readable)
  with chunk_store_spec.pread_spec [OF assms(1) run assms(2,3)] run show "fst (pread h offset (buf, s)) \<noteq> Panic q"
    by (cases r) auto
next
  fix now data offset h' s'
  assume w: "pwrite now data offset (h, s) = (Ok (), (h', s')) \<and> offset \<le> fh_size h"
  then have "view s' = view s" using chunk_store_spec.pwrite_spec [OF assms(1) _ assms(2)] by blast
  with w chunk_store_spec.pwrite_dense [OF assms(1) _ assms(2,4)] show "dense h' (view s')" by metis
next
  fix now n h' s'
  assume t: "fh_truncate now n (h, s) = (Ok (), (h', s')) \<and> n \<le> fh_size h"
  then have "n < u64_size" using assms(2) by (auto simp: fh_wf_def)
  with t have "view s' = view s" using chunk_store_spec.fh_truncate_spec [OF assms(1) _ assms(2,3)] by blast
  with t chunk_store_spec.fh_truncate_dense [OF assms(1) _ assms(2,4,3)] show "dense h' (view s')" by metis
qed

theorem dense_files_do_not_panic_witness:
  "\<exists>h1 s1 h2 s2. pwrite 0 [1, 2, 3, 4, 5] 0 (small_handle flags_read_write 0, mem_empty) = (Ok (), (h1, s1)) \<and>
     fh_size h1 = 5 \<and> (\<forall>offset buf q. fst (pread h1 offset (buf, s1)) \<noteq> Panic q) \<and>
     fh_truncate 0 3 (h1, s1) = (Ok (), (h2, s2)) \<and>
     fh_size h2 = 3 \<and> (\<forall>offset buf q. fst (pread h2 offset (buf, s2)) \<noteq> Panic q)"
proof -
  let ?st = "slatedb_chunk_store mem_slatedb ''d''" and ?V = "mem_view ''d''"
  let ?h = "small_handle flags_read_write 0" and ?w = "[1, 2, 3, 4, 5] :: bytes"
  note no_panic = dense_files_do_not_panic [OF mem_store.chunk_store_spec_axioms]
  have keys: "chunk_keys_ok f Map.empty" for f by (simp add: chunk_keys_ok_def)
  have h: "fh_wf ?st ?h" "dense ?h (?V mem_empty)" by (simp_all add: dense_def)
  let ?R = "pwrite 0 ?w 0 (?h, mem_empty)"
  have 1: "fst ?R = Ok ()" by code_simp
  have 2: "fst (fh_truncate 0 3 (snd ?R)) = Ok ()" by code_simp
  from run_obtain [OF 1] obtain h1 s1 where w: "?R = (Ok (), (h1, s1))" by (elim exE)
  from run_obtain [OF 2 [unfolded w snd_conv]] obtain h2 s2 where t: "fh_truncate 0 3 (h1, s1) = (Ok (), (h2, s2))"
    by (elim exE)
  note sp = mem_store.pwrite_spec [OF w h(1)]
  have h1: "?V s1 = Map.empty" "fh_wf ?st h1" "fh_size h1 = 5" using sp by auto
  have d1: "dense h1 (?V s1)" using no_panic [of "''d''" ?h mem_empty, OF h(1) _ h(2)] keys w by auto
  have n: "(3 :: nat) < u64_size" by (simp add: u64_size_def)
  have keys1: "chunk_keys_ok (fh_file_id h1) (?V s1)" by (simp add: h1 keys)
  note sp2 = mem_store.fh_truncate_spec [OF t h1(2) keys1 n]
  have h2: "?V s2 = Map.empty" "fh_wf ?st h2" "fh_size h2 = 3" using sp2 h1(1) by auto
  note use1 = no_panic [of "''d''" h1 s1, OF h1(2) keys1 d1]
  have "(3 :: nat) \<le> fh_size h1" using h1(3) by simp
  with use1 t have d2: "dense h2 (?V s2)" by blast
  have "chunk_keys_ok (fh_file_id h2) (?V s2)" by (simp add: h2 keys)
  note use2 = no_panic [of "''d''" h2 s2, OF h2(2) this d2]
  show ?thesis
    by (rule exI [of _ h1], rule exI [of _ s1], rule exI [of _ h2], rule exI [of _ s2],
        intro conjI w t h1(3) h2(3) use1 [THEN conjunct1] use2 [THEN conjunct1])
qed

text \<open>C23. Reading behind a short chunk panics. On a store that serves every call, a read with access panics
  exactly when it starts inside the file, has a buffer, and the chunk of its offset exists but ends before
  the offset: the empty slice behind the end of the chunk is out of range. The file has a zero there, which
  is what a byte array returns.\<close>

theorem short_chunk_read_panics:
  assumes "reliable_store st view good" and "good s" and "fh_wf st h" and "chunk_keys_ok (fh_file_id h) (view s)"
    and "fl_read (fh_flags h)"
  shows "((\<exists>msg. fst (pread h offset (buf, s)) = Panic msg) \<longleftrightarrow> buf \<noteq> [] \<and> offset < fh_size h \<and>
      (\<exists>c. chunk_at (chunks h) (view s) (cm_index (chunks h) offset) = Some c \<and> length c < cm_offset (chunks h) offset)) \<and>
    ((\<exists>msg. fst (pread h offset (buf, s)) = Panic msg) \<longrightarrow> file_bytes h (view s) ! offset = 0)"
proof -
  obtain r buf' s' where run: "pread h offset (buf, s) = (r, (buf', s'))" by (metis prod.collapse)
  have st: "chunk_store_spec st view" using assms(1) by (rule reliable_store.axioms)
  have g: "reliable_store.good_for view good (fh_file_id h) s"
    using assms(2,4) by (simp add: reliable_store.good_for_def [OF assms(1)])
  from reliable_store.pread_ok [OF assms(1,3) g assms(5) run] have no: "\<forall>e. r \<noteq> Err e" by blast
  have short: "\<not> readable_at (chunks h) (view s) offset \<longleftrightarrow>
      (\<exists>c. chunk_at (chunks h) (view s) (cm_index (chunks h) offset) = Some c \<and> length c < cm_offset (chunks h) offset)"
    by (auto simp: readable_at_def not_le)
  have zero: "file_bytes h (view s) ! offset = 0" if "\<not> readable_at (chunks h) (view s) offset" "offset < fh_size h"
    using that by (auto simp: short file_byte_def byte_or_zero_def)
  note sp = chunk_store_spec.pread_spec [OF st run assms(3,4)]
  show ?thesis using sp no run zero unfolding short [symmetric] by (cases r) auto
qed

theorem short_chunk_read_panics_witness:
  "\<exists>h1 s1 h2 s2 msg. pwrite 0 [7] 2 (small_handle flags_read_write 0, mem_empty) = (Ok (), (h1, s1)) \<and>
     fh_truncate 0 6 (h1, s1) = (Ok (), (h2, s2)) \<and> fst (pread h2 4 ([9], s2)) = Panic msg \<and>
     fst (spec_run False [Pwrite [7] 2, Truncate 6, Pread 1 4] ([], 0)) = [[], [], [0]]"
proof -
  let ?st = "slatedb_chunk_store mem_slatedb ''d''" and ?V = "mem_view ''d''"
  let ?h = "small_handle flags_read_write 0" and ?w = "[7] :: bytes"
  have keys: "chunk_keys_ok f Map.empty" for f by (simp add: chunk_keys_ok_def)
  let ?R1 = "pwrite 0 ?w 2 (?h, mem_empty)" and ?R2 = "\<lambda>R. fh_truncate 0 6 (snd R)"
  have 1: "fst ?R1 = Ok ()" by code_simp
  have 2: "fst (?R2 ?R1) = Ok ()" by code_simp
  have 3: "map_of (cm_pending (chunks (fst (snd (?R2 ?R1))))) 1 = Some (Written [7])" by code_simp
  have 4: "mem_faults (snd (snd (?R2 ?R1))) = []" by code_simp
  from run_obtain [OF 1] obtain h1 s1 where w: "?R1 = (Ok (), (h1, s1))" by (elim exE)
  note 2 = 2 [unfolded w snd_conv] and 3 = 3 [unfolded w snd_conv] and 4 = 4 [unfolded w snd_conv]
  from run_obtain [OF 2] obtain h2 s2 where t: "fh_truncate 0 6 (h1, s1) = (Ok (), (h2, s2))" by (elim exE)
  note 3 = 3 [unfolded t fst_conv snd_conv] and 4 = 4 [unfolded t fst_conv snd_conv]
  have h: "fh_wf ?st ?h" by simp
  note sp = mem_store.pwrite_spec [OF w h]
  have h1: "?V s1 = Map.empty" "fh_wf ?st h1" "same_handle ?h h1" using sp by auto
  have n: "(6 :: nat) < u64_size" by (simp add: u64_size_def)
  have "chunk_keys_ok (fh_file_id h1) (?V s1)" by (simp add: h1 keys)
  note sp2 = mem_store.fh_truncate_spec [OF t h1(2) this n]
  have h2: "?V s2 = Map.empty" "fh_wf ?st h2" "fh_size h2 = 6" "same_handle ?h h2"
    using sp2 h1 by (auto intro: same_handle_trans)
  have geo: "cm_chunk_size (chunks h2) = 4" "cm_chunk_base_offset (chunks h2) = 2" "fl_read (fh_flags h2)"
    using h2(4) by (simp_all add: same_handle_def same_file_def chunk_manager_new_def)
  have "chunk_keys_ok (fh_file_id h2) (?V s2)" by (simp add: h2 keys)
  from short_chunk_read_panics [OF mem_live.live.reliable_store_axioms 4 h2(2) this geo(3), of 4 "[9]"]
  have "\<exists>msg. fst (pread h2 4 ([9], s2)) = Panic msg"
    using 3 h2(1,3) by (simp add: geo chunk_at_def chunk_index_of_def chunk_offset_of_def)
  moreover have "fst (spec_run False [Pwrite [7] 2, Truncate 6, Pread 1 4] ([], 0)) = [[], [], [0]]" by code_simp
  ultimately show ?thesis using w t by blast
qed

text \<open>At the end of the file a sequential read does not check the access: on a handle without read
  access it returns zero bytes, while a positional read at the same place is an invalid argument.\<close>

lemma read_at_end_skips_check:
  assumes "\<not> fl_read (fh_flags h)" and "fh_size h \<le> position h"
  shows "fh_read (h, (buf, s)) = (Ok 0, (h, (buf, s))) \<and>
    (\<exists>e. pread h (position h) (buf, s) = (Err e, (buf, s)) \<and> code e = CodeInvalidArgument)"
  using assms
  by (simp add: fh_read_def saturating_sub_def usize_try_from_def pread_def ensure_readable_def flags_ensure_def
      invalid_argument_def code_def)

section \<open>Writes\<close>

text \<open>C13. A write that fails leaves a prefix of its data staged and nothing else changed: the size, the
  time and the dirty mark are kept, so is the store, and it never panics. A write that succeeds writes all
  of it and grows the file to its end.\<close>

theorem pwrite_effect:
  assumes "chunk_store_spec st view" and "pwrite now data offset (h, s) = (r, (h', s'))" and "fh_wf st h"
  shows "view s' = view s \<and> fh_wf st h' \<and> position h' = position h \<and> (\<forall>p. r \<noteq> Panic p) \<and>
    (\<exists>n \<le> length data.
       (\<forall>p. file_byte (chunks h') (view s) p = (if offset \<le> p \<and> p < offset + n then data ! (p - offset)
          else file_byte (chunks h) (view s) p)) \<and>
       (r = Ok () \<longrightarrow> n = length data \<and> fl_write (fh_flags h) \<and> (data \<noteq> [] \<longrightarrow>
          offset + length data < u64_size \<and> fh_size h' = max (fh_size h) (offset + length data))) \<and>
       (r \<noteq> Ok () \<longrightarrow> fh_size h' = fh_size h \<and> modified_at_ms h' = modified_at_ms h \<and>
          metadata_dirty h' = metadata_dirty h))"
proof -
  note sp = chunk_store_spec.pwrite_spec [OF assms]
  from sp obtain n where "n \<le> length data" and
    "\<forall>p. file_byte (chunks h') (view s) p = (if offset \<le> p \<and> p < offset + n then data ! (p - offset)
          else file_byte (chunks h) (view s) p)" and
    "r = Ok () \<longrightarrow> n = length data \<and> fl_write (fh_flags h) \<and> (data \<noteq> [] \<longrightarrow>
          offset + length data < u64_size \<and> fh_size h' = max (fh_size h) (offset + length data))" and
    "r \<noteq> Ok () \<longrightarrow> fh_size h' = fh_size h \<and> modified_at_ms h' = modified_at_ms h \<and>
          metadata_dirty h' = metadata_dirty h"
    by blast
  with sp show ?thesis by blast
qed

theorem pwrite_effect_witness:
  "\<exists>h' s'. pwrite 0 [1, 2, 3] 1 (small_handle flags_read_write 0, mem_empty) = (Ok (), (h', s')) \<and> fh_size h' = 4"
proof -
  let ?h = "small_handle flags_read_write 0"
  have wf: "fh_wf (slatedb_chunk_store mem_slatedb ''d'') ?h" by simp
  have "fst (pwrite 0 [1, 2, 3] 1 (?h, mem_empty)) = Ok ()" by code_simp
  from run_obtain [OF this] obtain h' s' where run: "pwrite 0 [1, 2, 3] 1 (?h, mem_empty) = (Ok (), (h', s'))"
    by (elim exE)
  from pwrite_effect [OF mem_store.chunk_store_spec_axioms run wf] run show ?thesis by auto
qed



text \<open>C14. Truncation sets the size and keeps the bytes below it; a shrinking one also zeroes what lies
  behind, so that a later growth shows zeros. A truncation that fails changes nothing, and none panics
  or touches the store.\<close>

theorem truncate_effect:
  assumes "chunk_store_spec st view" and "fh_truncate now n (h, s) = (r, (h', s'))" and "fh_wf st h"
    and "chunk_keys_ok (fh_file_id h) (view s)" and "n < u64_size"
  shows "view s' = view s \<and> fh_wf st h' \<and> position h' = position h \<and> (\<forall>p. r \<noteq> Panic p) \<and>
    (r \<noteq> Ok () \<longrightarrow> h' = h) \<and>
    (r = Ok () \<longrightarrow> fl_write (fh_flags h) \<and> fh_size h' = n \<and>
       (\<forall>p < u64_size. p < n \<or> n < fh_size h \<longrightarrow> file_byte (chunks h') (view s) p =
             (if p < n then file_byte (chunks h) (view s) p else 0)))"
  using chunk_store_spec.fh_truncate_spec [OF assms] by blast

theorem truncate_effect_witness:
  "\<exists>h' s'. fh_truncate 0 1 (small_handle flags_read_write 5, mem_empty) = (Ok (), (h', s')) \<and> fh_size h' = 1"
proof -
  let ?h = "small_handle flags_read_write 5"
  have wf: "fh_wf (slatedb_chunk_store mem_slatedb ''d'') ?h" by (rule small_handle_wf) (simp add: u64_size_def)
  have keys: "chunk_keys_ok (fh_file_id ?h) (mem_view ''d'' mem_empty)" by (simp add: chunk_keys_ok_def)
  have "fst (fh_truncate 0 1 (?h, mem_empty)) = Ok ()" by code_simp
  from run_obtain [OF this] obtain h' s' where run: "fh_truncate 0 1 (?h, mem_empty) = (Ok (), (h', s'))"
    by (elim exE)
  from truncate_effect [OF mem_store.chunk_store_spec_axioms run wf keys] run show ?thesis by (auto simp: u64_size_def)
qed

section \<open>Sync\<close>

text \<open>C4. Sync is atomic: the database shows the file's staged chunks and metadata all together or none of
  them, also when the write or the flush fails, and other databases are untouched. It never panics, a
  failed sync keeps the handle as it was, and after a successful one with something to write the database
  holds all of it, durably. Whatever it returns, the handle shows the same file as before.\<close>

theorem sync_atomic_durable:
  assumes "slate_db S view durable" and "sync S P (h, s) = (r, (h', s'))" and "handle_inv S db h (view db s)"
  shows "(\<forall>p. r \<noteq> Panic p) \<and> (r \<noteq> Ok () \<longrightarrow> h' = h) \<and>
    (view db s' = view db s \<or> view db s' = apply_batch (sync_batch P h) (view db s)) \<and>
    (\<forall>d. d \<noteq> db \<longrightarrow> view d s' = view d s) \<and>
    (r = Ok () \<and> (has_pending_changes (chunks h) \<or> metadata_dirty h) \<longrightarrow>
       view db s' = apply_batch (sync_batch P h) (view db s) \<and> durable db s' = view db s' \<and>
       \<not> has_pending_changes (chunks h') \<and> \<not> metadata_dirty h') \<and>
    file_bytes h' (view db s') = file_bytes h (view db s) \<and> position h' = position h"
proof -
  have h: "fh_wf (slatedb_chunk_store S db) h" "client h = ReadWrite db" and n: "fh_size h < u64_size"
    using assms(3) by (auto simp: handle_inv_def fh_wf_def)
  note keep = slate_db.sync_keeps_file [OF assms(1,2) h]
  note sp = slate_db.sync_spec [OF assms(1,2) h]
  have flushed: "view db s' = apply_batch (sync_batch P h) (view db s) \<and> durable db s' = view db s' \<and>
       \<not> has_pending_changes (chunks h') \<and> \<not> metadata_dirty h'"
    if "r = Ok () \<and> (has_pending_changes (chunks h) \<or> metadata_dirty h)"
  proof -
    have "h' = h\<lparr>chunks := mark_flushed (chunks h), metadata_dirty := False\<rparr>"
      and "view db s' = apply_batch (sync_batch P h) (view db s)" and "durable db s' = view db s'"
      using sp that unfolding has_pending_changes_def by blast+
    then show ?thesis by (simp add: has_pending_changes_def)
  qed
  have "file_bytes h' (view db s') = file_bytes h (view db s)" using keep shows_sameD(1) n by blast
  with sp keep flushed show ?thesis by blast
qed

theorem sync_atomic_durable_witness:
  "\<exists>h' s'. sync mem_slatedb proto_codec ((small_handle flags_read_write 0)\<lparr>metadata_dirty := True\<rparr>, mem_empty)
       = (Ok (), (h', s')) \<and> \<not> metadata_dirty h' \<and> mem_view ''d'' s' (metadata_key 1) \<noteq> None"
proof -
  let ?h = "(small_handle flags_read_write 0)\<lparr>metadata_dirty := True\<rparr>"
  have inv: "handle_inv mem_slatedb ''d'' ?h (mem_view ''d'' mem_empty)"
    using small_handle_inv [of 0 flags_read_write] by (simp add: handle_inv_def fh_wf_def)
  have "fst (sync mem_slatedb proto_codec (?h, mem_empty)) = Ok ()" by code_simp
  from run_obtain [OF this] obtain h' s' where run: "sync mem_slatedb proto_codec (?h, mem_empty) = (Ok (), (h', s'))"
    by (elim exE)
  have "apply_batch (sync_batch proto_codec ?h) Map.empty (metadata_key 1) \<noteq> None"
    using sync_batch_metadata [of proto_codec ?h Map.empty] by simp
  with sync_atomic_durable [OF mem_tx.slate_db_axioms run inv] run show ?thesis by simp
qed

text \<open>C25. Syncing a stale handle breaks the database. When the file of a handle is no longer in the catalog,
  because it was removed or replaced by a move, and the handle has something to write, a sync succeeds on
  a store that serves every call and leaves metadata that belongs to no path: the invariant of the catalog
  is lost.\<close>

theorem stale_sync_orphans:
  assumes "reliable_db S view durable good" and "good s"
    and "handle_inv S db h (view db s)" and "cm_pending (chunks h) \<noteq> [] \<or> metadata_dirty h"
    and "fh_file_id h \<notin> ran (catalog (view db s))"
  shows "\<exists>h' s'. sync S P (h, s) = (Ok (), (h', s')) \<and> view db s' (metadata_key (fh_file_id h)) \<noteq> None \<and>
    fh_file_id h \<notin> ran (catalog (view db s')) \<and> \<not> db_wf P (view db s')"
proof -
  let ?w = "apply_batch (sync_batch P h) (view db s)"
  have db: "slate_db S view durable" using assms(1) by (rule reliable_db.axioms)
  have c: "client h = ReadWrite db" "fh_wf (slatedb_chunk_store S db) h" using assms(3) by (auto simp: handle_inv_def)
  obtain r h' s' where r: "sync S P (h, s) = (r, (h', s'))" by (metis prod.collapse)
  from reliable_db.sync_ok [OF assms(1,2) c(1) r] slate_db.sync_spec [OF db r c(2,1)] r
  have run: "sync S P (h, s) = (Ok (), (h', s'))" by (cases r) auto
  have h: "cm_file_id (chunks h) = fh_file_id h" "fh_file_id h < u64_size"
    using assms(3) by (auto simp: handle_inv_def fh_wf_def)
  have w: "view db s' = ?w" using sync_result [OF db run assms(3,4)] by simp
  have "catalog ?w = catalog (view db s)"
    by (rule ext, rule catalog_cong, rule sync_batch_other) (simp_all add: h)
  then have out: "fh_file_id h \<notin> ran (catalog (view db s'))" using assms(5) w by simp
  have md: "view db s' (metadata_key (fh_file_id h)) \<noteq> None" using w by (simp add: sync_batch_metadata)
  from db_wf_orphans [of P "view db s'", OF _ h(2) md] out md run show ?thesis by blast
qed

theorem stale_sync_orphans_witness:
  "\<exists>h' s'. sync mem_slatedb proto_codec ((small_handle flags_read_write 0)\<lparr>metadata_dirty := True\<rparr>, mem_empty)
       = (Ok (), (h', s')) \<and> \<not> db_wf proto_codec (mem_view ''d'' s')"
proof -
  let ?h = "(small_handle flags_read_write 0)\<lparr>metadata_dirty := True\<rparr>"
  have inv: "handle_inv mem_slatedb ''d'' ?h (mem_view ''d'' mem_empty)"
    using small_handle_inv [of 0 flags_read_write] by (simp add: handle_inv_def fh_wf_def)
  have good: "mem_faults mem_empty = []" by (simp add: mem_empty_def)
  have "fh_file_id ?h \<notin> ran (catalog (mem_view ''d'' mem_empty))" by (simp add: ran_def)
  with stale_sync_orphans [OF mem_live.reliable_db_axioms good inv, where P = proto_codec] show ?thesis by auto
qed

end
