(* ===== verification/Catalog_Properties.thy ===== *)
theory Catalog_Properties
  imports Mem_Examples
begin

text \<open>
  The properties of the catalog of a database: its operations are atomic, change exactly the paths and
  files they name and keep the database well-formed. The catalog is the map from paths to file ids that
  the stored contents spell out.
\<close>

text \<open>C10. The catalog stays well-formed. Whatever removing, moving, creating, truncating or opening a path
  returns, with failures of the store at any point, the database satisfies its invariant afterwards: every
  path leads to a file with valid metadata, no two paths share a file, no metadata and no chunk is left
  without a path, and the id counter is above every id in use.\<close>

theorem catalog_operations_keep_wf:
  assumes "slate_tx S view durable tx_db tx_snapshot tx_writes" and "metadata_codec P" and "db_wf P (view db s)"
  shows "db_wf P (view db (snd (dm_remove_file S db p s))) \<and> db_wf P (view db (snd (dm_move_file S db p q s))) \<and>
    db_wf P (view db (snd (prepare_file_for_open S P now db p create truncate_existing s)))"
  using slate_tx.dm_remove_file_wf [OF assms(1) _ assms(3), of p]
    slate_tx.dm_move_file_wf [OF assms(1) _ assms(3), of p q]
    slate_tx.prepare_file_for_open_wf [OF assms(1) _ assms(3,2), of now p create truncate_existing]
  by (metis prod.collapse)

theorem catalog_operations_keep_wf_witness:
  "db_wf proto_codec (mem_view ''d'' (snd (dm_move_file mem_slatedb ''d'' ''f'' ''g'' (mem_one ''f'' [False, False, True]))))"
  using catalog_operations_keep_wf [OF mem_tx.slate_tx_axioms proto.metadata_codec_axioms, of "''d''" "mem_one ''f'' [False, False, True]" "''f''" "''g''"]
  by simp

text \<open>C17. Removing a file. On success the path was in the catalog, it is the one path that leaves it, and no
  key of the file is left, metadata and chunks, while every key of every other file is kept. A missing
  path is reported as such and changes nothing; a failure of the store changes nothing or completes the
  removal.\<close>

theorem remove_file_effect:
  assumes "slate_tx S view durable tx_db tx_snapshot tx_writes" and "dm_remove_file S db p s = (r, s')"
    and "db_wf P (view db s)" and "p \<noteq> []"
  shows "case r of
     Ok _ \<Rightarrow> \<exists>f. catalog (view db s) p = Some f \<and> catalog (view db s') = (catalog (view db s))(p := None) \<and>
        (\<forall>k. is_file_key f k \<longrightarrow> view db s' k = None) \<and>
        (\<forall>k. \<not> is_file_key f k \<and> k \<noteq> path_key p \<longrightarrow> view db s' k = view db s k)
   | Err e \<Rightarrow> (e = file_not_found p \<and> catalog (view db s) p = None \<and> view db s' = view db s) \<or>
        (code e = CodeSlateDb \<and> (view db s' = view db s \<or>
           (\<exists>f. catalog (view db s) p = Some f \<and> view db s' = removed p f (view db s))))
   | Panic _ \<Rightarrow> False"
proof (cases r)
  case (Ok u)
  then obtain f where f: "catalog (view db s) p = Some f" and v: "view db s' = removed p f (view db s)"
    using io_satD [OF slate_tx.dm_remove_file_sat [OF assms(1)] assms(2)] by auto
  have "catalog (view db s') = (catalog (view db s))(p := None)" by (simp add: v catalog_removed)
  moreover have "view db s' k = None" if "is_file_key f k" for k using that by (auto simp: v removed_def without_file_def)
  moreover have "view db s' k = view db s k" if "\<not> is_file_key f k" "k \<noteq> path_key p" for k
    using that by (simp add: v removed_def without_file_def)
  ultimately show ?thesis using f Ok by auto
next
  case (Err e)
  have "\<And>e. path_failure (view db s) p e \<Longrightarrow> e = file_not_found p \<and> catalog (view db s) p = None"
    using path_failure_wf assms(3,4) by blast
  with io_satD [OF slate_tx.dm_remove_file_sat [OF assms(1)] assms(2)] Err show ?thesis
    by (simp add: atomic_change_def) blast
next
  case (Panic q)
  with io_satD [OF slate_tx.dm_remove_file_sat [OF assms(1)] assms(2)] show ?thesis by simp
qed

theorem remove_file_effect_witness:
  "\<exists>s'. dm_remove_file mem_slatedb ''d'' ''f'' (mem_one ''f'' []) = (Ok (), s') \<and>
     catalog (mem_view ''d'' s') = Map.empty \<and> mem_view ''d'' s' (metadata_key 1) = None"
proof -
  have "fst (dm_remove_file mem_slatedb ''d'' ''f'' (mem_one ''f'' [])) = Ok ()" by code_simp
  then obtain s' where run: "dm_remove_file mem_slatedb ''d'' ''f'' (mem_one ''f'' []) = (Ok (), s')" by (metis prod.collapse)
  have "is_file_key 1 (metadata_key 1)" by (simp add: is_file_key_def)
  with remove_file_effect [OF mem_tx.slate_tx_axioms run, of proto_codec] run show ?thesis by auto
qed

text \<open>C16. Moving a file. On success the source path was in the catalog and the file now stands under the
  target path alone, with all its keys kept; a file the target named before is gone with all of its keys;
  no other path, no key of another file and not the id counter changes. A missing source is reported and changes nothing; a
  failure of the store changes nothing or completes the move. Moving a path onto itself does nothing.\<close>

theorem move_file_effect:
  assumes "slate_tx S view durable tx_db tx_snapshot tx_writes" and "dm_move_file S db src target s = (r, s')"
    and "db_wf P (view db s)" and "src \<noteq> []" and "target \<noteq> []"
  shows "case r of
     Ok _ \<Rightarrow> (src = target \<and> view db s' = view db s) \<or>
       (src \<noteq> target \<and> (\<exists>f. catalog (view db s) src = Some f \<and>
          catalog (view db s') = (catalog (view db s))(src := None, target \<mapsto> f) \<and>
          (\<forall>g k. g < u64_size \<and> is_file_key g k \<longrightarrow>
             view db s' k = (if catalog (view db s) target = Some g then None else view db s k)) \<and>
          view db s' NEXT_FILE_ID_KEY = view db s NEXT_FILE_ID_KEY))
   | Err e \<Rightarrow> (e = file_not_found src \<and> catalog (view db s) src = None \<and> view db s' = view db s) \<or>
        (code e = CodeSlateDb \<and> (view db s' = view db s \<or>
           (\<exists>f. catalog (view db s) src = Some f \<and> view db s' = moved src target f (view db s))))
   | Panic _ \<Rightarrow> False"
proof (cases r)
  case (Ok u)
  note sat = io_satD [OF slate_tx.dm_move_file_sat [OF assms(1)] assms(2)]
  show ?thesis
  proof (cases "src = target")
    case False
    with sat Ok obtain f where f: "catalog (view db s) src = Some f"
      and v: "view db s' = moved src target f (view db s)" by auto
    have "view db s' k = (if catalog (view db s) target = Some g then None else view db s k)"
      if k: "g < u64_size \<and> is_file_key g k" for g k
    proof -
      have np: "k \<noteq> path_key q" for q using k by auto
      show ?thesis
      proof (cases "catalog (view db s) target")
        case None
        with np show ?thesis by (simp add: v moved_def)
      next
        case (Some g')
        then have "g' \<noteq> f" "g' < u64_size" using db_wf_inj [OF assms(3) f] False catalog_bound by blast+
        moreover have "is_file_key g' k \<longleftrightarrow> g' = g" using file_key_unique [of g' k g] k \<open>g' < u64_size\<close> by blast
        ultimately show ?thesis using Some np by (simp add: v moved_def without_file_def)
      qed
    qed
    moreover have "view db s' NEXT_FILE_ID_KEY = view db s NEXT_FILE_ID_KEY"
      using catalog_bound [of "view db s" target] by (auto simp: v moved_def without_file_def is_file_key_def split: option.split)
    ultimately show ?thesis using f catalog_moved [OF f, of target] v Ok False by simp
  qed (use sat Ok in auto)
next
  case (Err e)
  have "\<And>e. path_failure (view db s) src e \<Longrightarrow> e = file_not_found src \<and> catalog (view db s) src = None"
    using path_failure_wf assms(3,4) by blast
  moreover have "\<not> (path_failure (view db s) target e \<and> code e \<noteq> CodeFileNotFound)"
  proof -
    have "code (file_not_found target) = CodeFileNotFound" by (simp add: file_not_found_def code_def)
    then show ?thesis using path_failure_wf [OF _ assms(3,5), of e] by blast
  qed
  ultimately show ?thesis
    using io_satD [OF slate_tx.dm_move_file_sat [OF assms(1)] assms(2)] Err by (simp add: atomic_change_def) blast
next
  case (Panic q)
  with io_satD [OF slate_tx.dm_move_file_sat [OF assms(1)] assms(2)] show ?thesis by simp
qed

theorem move_file_effect_witness:
  "\<exists>s'. dm_move_file mem_slatedb ''d'' ''f'' ''g'' (mem_one ''f'' []) = (Ok (), s') \<and>
     catalog (mem_view ''d'' s') = [''g'' \<mapsto> 1]"
proof -
  have "fst (dm_move_file mem_slatedb ''d'' ''f'' ''g'' (mem_one ''f'' [])) = Ok ()" by code_simp
  then obtain s' where run: "dm_move_file mem_slatedb ''d'' ''f'' ''g'' (mem_one ''f'' []) = (Ok (), s')" by (metis prod.collapse)
  from move_file_effect [OF mem_tx.slate_tx_axioms run, of proto_codec] run show ?thesis by (auto simp: fun_eq_iff)
qed

text \<open>C18. Opening for writing. A path in the catalog gives its file: as it is, with nothing changed, or
  emptied of its chunks with fresh metadata when truncation was asked for. A path that is not there is
  created, if that was asked for, under an id no path and no key uses, and the counter moves on; without
  it the error says so. The id counter at its end is an error and never wraps.\<close>

theorem prepare_file_for_open_effect:
  assumes "slate_tx S view durable tx_db tx_snapshot tx_writes"
    and "prepare_file_for_open S P now db p create truncate_existing s = (r, s')"
    and "db_wf P (view db s)" and "p \<noteq> []"
  shows "case r of
     Ok (f, md) \<Rightarrow>
       (case catalog (view db s) p of
          Some g \<Rightarrow> f = g \<and> (if truncate_existing
             then md = file_metadata_new now \<and> view db s' = cleared P f md (view db s)
             else metadata_of P (view db s) f = Some md \<and> view db s' = view db s)
        | None \<Rightarrow> create \<and> md = file_metadata_new now \<and>
            (\<forall>k. is_file_key f k \<longrightarrow> view db s k = None) \<and> f \<notin> ran (catalog (view db s)) \<and>
            catalog (view db s') = (catalog (view db s))(p \<mapsto> f) \<and> next_file_id (view db s') = f + 1)
   | Err e \<Rightarrow> (e = file_not_found p \<and> \<not> create \<and> catalog (view db s) p = None \<and> view db s' = view db s) \<or>
        code e = CodeSlateDb \<or>
        (code e = CodeMetadataDecode \<and> next_file_id (view db s) = u64_size - 1 \<and> view db s' = view db s)
   | Panic _ \<Rightarrow> False"
proof -
  note sat = io_satD [OF slate_tx.prepare_file_for_open_sat [OF assms(1)] assms(2)]
  let ?v = "view db s"
  have path: "?v (path_key p) \<noteq> None \<longleftrightarrow> catalog ?v p \<noteq> None"
    using db_wf_path [OF assms(3)] by (auto elim: catalog_SomeE)
  have fresh: "(\<forall>k. is_file_key f k \<longrightarrow> ?v k = None) \<and> f \<notin> ran (catalog ?v)" if f: "f = next_file_id ?v" "f < u64_size" for f
  proof -
    have "f \<notin> ran (catalog ?v)" using db_wf_next(2) [OF assms(3)] f(1) by (auto simp: ran_def)
    with db_wf_orphan_key [OF assms(3) f(2)] show ?thesis by blast
  qed
  show ?thesis
  proof (cases r)
    case (Ok fm)
    obtain f md where fm: "fm = (f, md)" by (cases fm)
    show ?thesis
    proof (cases "catalog ?v p")
      case None
      then have "?v (path_key p) = None" using path by simp
      with sat Ok fm have new: "create" "f = next_file_id ?v" "0 < f" "f + 1 < u64_size" "md = file_metadata_new now"
        "view db s' = created P p md ?v" by auto
      then show ?thesis
        using Ok fm None fresh [of f] catalog_created [of ?v P p md] next_created [of ?v P p md] by auto
    next
      case (Some g)
      then have "?v (path_key p) \<noteq> None" using path by simp
      with sat Ok fm Some show ?thesis by (cases truncate_existing) auto
    qed
  next
    case (Err e)
    with sat assms(3,4) path show ?thesis by auto
  next
    case (Panic q)
    with sat show ?thesis by simp
  qed
qed

theorem prepare_file_for_open_effect_witness:
  "\<exists>s'. prepare_file_for_open mem_slatedb proto_codec 7 ''d'' ''g'' True False (mem_one ''f'' [])
       = (Ok (2, file_metadata_new 7), s') \<and> catalog (mem_view ''d'' s') = [''f'' \<mapsto> 1, ''g'' \<mapsto> 2]"
proof -
  let ?R = "prepare_file_for_open mem_slatedb proto_codec 7 ''d'' ''g'' True False (mem_one ''f'' [])"
  have "fst ?R = Ok (2, file_metadata_new 7)" by code_simp
  then obtain s' where run: "?R = (Ok (2, file_metadata_new 7), s')" by (metis prod.collapse)
  from prepare_file_for_open_effect [OF mem_tx.slate_tx_axioms run] run show ?thesis by simp
qed

text \<open>C19. Lookups agree with the catalog. A path exists exactly when the catalog has it; opening it for
  reading gives its id and its stored metadata, or says that it is not there; neither changes anything.
  Over a well-formed database every other error is one of the store.\<close>

theorem lookups_agree_with_catalog:
  assumes "slate_db S view durable" and "db_wf P (view db s)" and "p \<noteq> []"
    and "dm_file_exists (db_get S db) p s = (rx, sx)" and "dm_open_file P (db_get S db) p s = (ro, so)"
  shows "view db sx = view db s \<and> view db so = view db s \<and>
    (case rx of Ok b \<Rightarrow> b \<longleftrightarrow> catalog (view db s) p \<noteq> None | Err e \<Rightarrow> code e = CodeSlateDb | Panic _ \<Rightarrow> False) \<and>
    (case ro of
       Ok (f, md) \<Rightarrow> catalog (view db s) p = Some f \<and> metadata_of P (view db s) f = Some md \<and> metadata_ok md
     | Err e \<Rightarrow> (e = file_not_found p \<and> catalog (view db s) p = None) \<or> code e = CodeSlateDb
     | Panic _ \<Rightarrow> False)"
proof -
  have path: "view db s (path_key p) \<noteq> None \<longleftrightarrow> catalog (view db s) p \<noteq> None"
    using db_wf_path [OF assms(2)] by (auto elim: catalog_SomeE)
  have md: "metadata_ok md" if "catalog (view db s) p = Some f" "metadata_of P (view db s) f = Some md" for f md
    using db_wf_metadata [OF assms(2) that(1)] that(2) by auto
  note x = slate_db.writer_file_exists [OF assms(1,4)] and o = slate_db.writer_open_file [OF assms(1,5)]
  have "view db sx = view db s" "view db so = view db s" using x o by simp_all
  moreover have "case rx of Ok b \<Rightarrow> b \<longleftrightarrow> catalog (view db s) p \<noteq> None | Err e \<Rightarrow> code e = CodeSlateDb | Panic _ \<Rightarrow> False"
    using x path assms(3) by (cases rx) auto
  moreover have "case ro of
       Ok (f, md) \<Rightarrow> catalog (view db s) p = Some f \<and> metadata_of P (view db s) f = Some md \<and> metadata_ok md
     | Err e \<Rightarrow> (e = file_not_found p \<and> catalog (view db s) p = None) \<or> code e = CodeSlateDb
     | Panic _ \<Rightarrow> False"
    using o path assms(2,3) md by (cases ro) auto
  ultimately show ?thesis by blast
qed

theorem lookups_agree_with_catalog_witness:
  "fst (dm_file_exists (db_get mem_slatedb ''d'') ''f'' (mem_one ''f'' [])) = Ok True"
proof -
  let ?s = "mem_one ''f'' []"
  obtain rx sx where x: "dm_file_exists (db_get mem_slatedb ''d'') ''f'' ?s = (rx, sx)" by fastforce
  obtain ro so where o: "dm_open_file proto_codec (db_get mem_slatedb ''d'') ''f'' ?s = (ro, so)" by fastforce
  have "case rx of Ok b \<Rightarrow> True | _ \<Rightarrow> False"
  proof -
    have "case fst (dm_file_exists (db_get mem_slatedb ''d'') ''f'' ?s) of Ok b \<Rightarrow> True | _ \<Rightarrow> False" by code_simp
    then show ?thesis by (simp only: x fst_conv)
  qed
  with lookups_agree_with_catalog [OF mem_tx.slate_db_axioms _ _ x o] x show ?thesis by (cases rx) auto
qed

end
