(* ===== verification/Fs_Open.thy ===== *)
theory Fs_Open
  imports File_System
begin

text \<open>
  The constructors of the filesystem (\<open>SlateDbFileSystem::open*\<close> of \<open>rust/src/fs.rs\<close>) over an object store
  in S3, in memory or in a local directory. OpenDAL's operators, the directory creation and the Tokio
  runtime belong to the environment: the record \<open>environment\<close> holds those calls. An operator is known by
  what it says about itself. A path is the bytes of its name.
\<close>

record 's environment =
  operator_memory :: "string + operator_info"
  operator_fs :: "string \<Rightarrow> string \<Rightarrow> string + operator_info"
  operator_s3 :: "s3_builder \<Rightarrow> string + operator_info"
  create_dir_all :: "string \<Rightarrow> 's \<Rightarrow> ((io_error_kind \<times> string) + unit) \<times> 's"
  runtime_build :: "usize option \<Rightarrow> usize option \<Rightarrow> 's \<Rightarrow> (string + unit) \<times> 's"
  lossy_text :: "string \<Rightarrow> string"

text \<open>\<open>Path::display\<close>: the path itself where it is valid UTF-8, else a lossy rendering.\<close>

definition path_display :: "'s environment \<Rightarrow> string \<Rightarrow> string" where
  "path_display E p = (case from_utf8 p of Some s \<Rightarrow> s | None \<Rightarrow> lossy_text E p)"

text \<open>\<open>Path::join\<close> with a relative path.\<close>

definition path_join :: "string \<Rightarrow> string \<Rightarrow> string" where
  "path_join root p = (if root = [] \<or> last root = CHR ''/'' then root @ p else root @ ''/'' @ p)"

definition open_fs ::
  "('s, 'db, 'rd) slate_builder \<Rightarrow> CacheConfig \<Rightarrow> string \<Rightarrow> operator_info \<Rightarrow> ('db, 'rd) file_system outcome" where
  "open_fs B default_config dbpath info = open_with_cache_config B dbpath info default_config"

definition open_s3_with_cache_config ::
  "'s environment \<Rightarrow> ('s, 'db, 'rd) slate_builder \<Rightarrow> string \<Rightarrow> S3StorageConfig \<Rightarrow> CacheConfig
     \<Rightarrow> ('s, ('db, 'rd) file_system) io" where
  "open_s3_with_cache_config E B dbpath config cache =
     io_lift (o_bind (build_s3_operator config (operator_s3 E)) (\<lambda>operator.
       open_with_cache_config B dbpath operator cache))"

definition open_s3 ::
  "'s environment \<Rightarrow> ('s, 'db, 'rd) slate_builder \<Rightarrow> CacheConfig \<Rightarrow> string \<Rightarrow> S3StorageConfig
     \<Rightarrow> ('s, ('db, 'rd) file_system) io" where
  "open_s3 E B default_config dbpath config =
     io_lift (o_bind (build_s3_operator config (operator_s3 E)) (\<lambda>operator.
       open_fs B default_config dbpath operator))"

definition open_in_memory_with_cache_config ::
  "'s environment \<Rightarrow> ('s, 'db, 'rd) slate_builder \<Rightarrow> string \<Rightarrow> CacheConfig \<Rightarrow> ('s, ('db, 'rd) file_system) io" where
  "open_in_memory_with_cache_config E B dbpath cache =
     io_lift (case operator_memory E of
         Inl src \<Rightarrow> Err (io_with_source ''failed to initialize OpenDAL memory storage'' src)
       | Inr operator \<Rightarrow> open_with_cache_config B dbpath operator cache)"

definition open_in_memory ::
  "'s environment \<Rightarrow> ('s, 'db, 'rd) slate_builder \<Rightarrow> CacheConfig \<Rightarrow> string \<Rightarrow> ('s, ('db, 'rd) file_system) io" where
  "open_in_memory E B default_config dbpath = open_in_memory_with_cache_config E B dbpath default_config"

definition make_root :: "'s environment \<Rightarrow> string \<Rightarrow> ('s, unit) io" where
  "make_root E root = (\<lambda>s. case create_dir_all E root s of
     (Inr _, s') \<Rightarrow> (Ok (), s')
   | (Inl (k, src), s') \<Rightarrow> (Err (from_io_error k src), s'))"

definition valid_utf8_or :: "string \<Rightarrow> string \<Rightarrow> string outcome" where
  "valid_utf8_or p msg = (case from_utf8 p of Some s \<Rightarrow> Ok s | None \<Rightarrow> Err (invalid_argument msg))"

definition open_local_with_cache_config ::
  "'s environment \<Rightarrow> ('s, 'db, 'rd) slate_builder \<Rightarrow> string \<Rightarrow> string \<Rightarrow> CacheConfig
     \<Rightarrow> ('s, ('db, 'rd) file_system) io" where
  "open_local_with_cache_config E B dbpath root cache =
     io_bind (io_lift (valid_utf8_or root (''local OpenDAL root is not valid UTF-8: '' @ path_display E root))) (\<lambda>root_str.
     io_bind (make_root E root) (\<lambda>_.
     let dir = path_join root ''.atomic-write'' in
     io_bind (io_lift (valid_utf8_or dir
         (''local OpenDAL atomic write directory is not valid UTF-8: '' @ path_display E dir))) (\<lambda>dir_str.
     io_lift (case operator_fs E root_str dir_str of
         Inl src \<Rightarrow> Err (io_with_source (''failed to initialize OpenDAL storage at '' @ path_display E root) src)
       | Inr operator \<Rightarrow> open_with_cache_config B dbpath operator cache))))"

definition open_local ::
  "'s environment \<Rightarrow> ('s, 'db, 'rd) slate_builder \<Rightarrow> CacheConfig \<Rightarrow> string \<Rightarrow> string
     \<Rightarrow> ('s, ('db, 'rd) file_system) io" where
  "open_local E B default_config dbpath root = open_local_with_cache_config E B dbpath root default_config"

definition fs_name :: "('db, 'rd) file_system \<Rightarrow> string" where
  "fs_name fs = NAME"

section \<open>What a constructor gives\<close>

text \<open>A new filesystem is open, has no clients, and keeps the configuration it was given.\<close>

definition fresh_fs :: "('s, 'db, 'rd) slate_builder \<Rightarrow> string \<Rightarrow> CacheConfig \<Rightarrow> ('db, 'rd) file_system \<Rightarrow> bool" where
  "fresh_fs B dbpath cache fs \<longleftrightarrow> database_path fs = dbpath \<and> dbpath \<noteq> [] \<and> cache_config fs = cache \<and>
     db_cache fs = build_db_cache (foyer_default_shards B) cache \<and> databases fs = [] \<and> \<not> closed fs"

lemma open_with_cache_config_fresh:
  "open_with_cache_config B dbpath info cache = Ok fs \<Longrightarrow> fresh_fs B dbpath cache fs"
  by (auto simp: open_with_cache_config_def fresh_fs_def split: if_splits)

lemma o_bind_Ok_fresh:
  "o_bind m (\<lambda>operator. open_with_cache_config B dbpath operator cache) = Ok fs \<Longrightarrow> fresh_fs B dbpath cache fs"
  by (cases m) (auto dest: open_with_cache_config_fresh)

lemma constructors_fresh:
  "open_s3_with_cache_config E B dbpath config cache s = (Ok fs, s') \<Longrightarrow> fresh_fs B dbpath cache fs \<and> s' = s"
  "open_in_memory_with_cache_config E B dbpath cache s = (Ok fs, s') \<Longrightarrow> fresh_fs B dbpath cache fs \<and> s' = s"
  "open_local_with_cache_config E B dbpath root cache s = (Ok fs, s')
     \<Longrightarrow> fresh_fs B dbpath cache fs \<and> create_dir_all E root s = (Inr (), s')"
  by (auto simp: open_s3_with_cache_config_def open_in_memory_with_cache_config_def io_lift_def io_bind_def
      open_local_with_cache_config_def make_root_def Let_def
      dest: o_bind_Ok_fresh open_with_cache_config_fresh split: sum.splits outcome.splits prod.splits)

text \<open>The second check of a local root cannot fail after the first.\<close>

lemma utf8_valid_append_ascii:
  "utf8_valid bs \<Longrightarrow> \<forall>b \<in> set cs. b < 128 \<Longrightarrow> utf8_valid (bs @ cs)"
  by (induction bs rule: utf8_valid.induct) (auto intro: utf8_valid_ascii split: if_splits list.splits)

lemma atomic_write_dir_valid:
  "from_utf8 root = Some r \<Longrightarrow> from_utf8 (path_join root ''.atomic-write'') = Some (path_join root ''.atomic-write'')"
  by (auto simp: from_utf8_def path_join_def intro!: utf8_valid_append_ascii split: if_splits)

end
