(* ===== verification/Ffi_Lifecycle.thy ===== *)
theory Ffi_Lifecycle
  imports Ffi_Spec Fs_Open
begin

text \<open>
  Creation and destruction of filesystems and handles across the C ABI (\<open>rust/src/ffi.rs\<close>). The output
  of a constructor is a pointer to a pointer: \<open>None\<close> is a null output, \<open>Some None\<close> a null filesystem.
\<close>

definition DATABASE_PATH :: string where
  "DATABASE_PATH = ''duckdb-object-storage''"

section \<open>The runtime\<close>

record ffi_runtime_config =
  f_async_threads :: u64
  f_blocking_threads :: u64

record runtime_config =
  async_threads :: "usize option"
  blocking_threads :: "usize option"

definition parse_runtime_config :: "ffi_runtime_config option \<Rightarrow> runtime_config outcome" where
  "parse_runtime_config q = (case q of
     None \<Rightarrow> Ok \<lparr>async_threads = None, blocking_threads = None\<rparr>
   | Some c \<Rightarrow>
       o_bind (optional_thread_count (f_async_threads c) ''async thread count'') (\<lambda>n.
       o_bind (optional_thread_count (f_blocking_threads c) ''blocking thread count'') (\<lambda>m.
       Ok \<lparr>async_threads = n, blocking_threads = m\<rparr>)))"

text \<open>The setters of Tokio's builder panic on zero threads.\<close>

definition builder_threads :: "string \<Rightarrow> usize option \<Rightarrow> usize option outcome" where
  "builder_threads what n = (if n = Some 0 then Panic (what @ '' cannot be set to 0'') else Ok n)"

definition create_runtime :: "'s environment \<Rightarrow> runtime_config \<Rightarrow> ('s, unit) io" where
  "create_runtime E c =
     io_bind (io_lift (builder_threads ''Worker threads'' (async_threads c))) (\<lambda>workers.
     io_bind (io_lift (builder_threads ''Max blocking threads'' (blocking_threads c))) (\<lambda>blocking.
     \<lambda>s. case runtime_build E workers blocking s of
       (Inr _, s') \<Rightarrow> (Ok (), s')
     | (Inl src, s') \<Rightarrow> (Err (io_with_source ''failed to initialize Tokio runtime'' src), s')))"

section \<open>Constructors\<close>

record ('s, 'db, 'rd) create_call =
  cr_output :: "('db, 'rd) file_system option option"
  cr_world :: 's

definition require_output :: "'a option \<Rightarrow> string \<Rightarrow> 'a outcome" where
  "require_output output name = require_ptr (name @ '' must not be null'') output"

definition on_world :: "('s, 'a) io \<Rightarrow> (('s, 'db, 'rd) create_call, 'a) io" where
  "on_world m = (\<lambda>c. case m (cr_world c) of (r, s) \<Rightarrow> (r, c\<lparr>cr_world := s\<rparr>))"

text \<open>The frame the three constructors share: the output is null until the filesystem is there.\<close>

definition creating ::
  "(('s, 'db, 'rd) create_call, ('db, 'rd) file_system) io \<Rightarrow> (('s, 'db, 'rd) create_call, unit) io" where
  "creating m =
     io_bind io_get (\<lambda>c.
     io_bind (io_lift (require_output (cr_output c) ''filesystem output'')) (\<lambda>_.
     io_bind (io_put (c\<lparr>cr_output := Some None\<rparr>)) (\<lambda>_.
     io_bind m (\<lambda>fs.
     io_bind io_get (\<lambda>c. io_put (c\<lparr>cr_output := Some (Some fs)\<rparr>))))))"

definition slatedb_fs_create_memory ::
  "(error \<Rightarrow> string option) \<Rightarrow> 's environment \<Rightarrow> ('s, 'db, 'rd) slate_builder \<Rightarrow> CacheConfig
     \<Rightarrow> ffi_cache_config option \<Rightarrow> ffi_runtime_config option \<Rightarrow> (string \<times> ('s, 'db, 'rd) create_call, int) io" where
  "slatedb_fs_create_memory loc E B default_config cache_cfg runtime_cfg = ffi_result loc (creating (
     io_bind (io_lift (parse_runtime_config runtime_cfg)) (\<lambda>rt.
     io_bind (io_lift (parse_cache_config default_config cache_cfg)) (\<lambda>cc.
     io_bind (on_world (create_runtime E rt)) (\<lambda>_.
     on_world (open_in_memory_with_cache_config E B DATABASE_PATH cc))))))"

definition slatedb_fs_create_local ::
  "(error \<Rightarrow> string option) \<Rightarrow> 's environment \<Rightarrow> ('s, 'db, 'rd) slate_builder \<Rightarrow> CacheConfig \<Rightarrow> string option
     \<Rightarrow> ffi_cache_config option \<Rightarrow> ffi_runtime_config option \<Rightarrow> (string \<times> ('s, 'db, 'rd) create_call, int) io" where
  "slatedb_fs_create_local loc E B default_config root cache_cfg runtime_cfg = ffi_result loc (creating (
     io_bind (io_lift (parse_runtime_config runtime_cfg)) (\<lambda>rt.
     io_bind (io_lift (require_path root ''local root'')) (\<lambda>root.
     io_bind (io_lift (if root = [] then Err (invalid_argument ''local root must not be empty'') else Ok ())) (\<lambda>_.
     io_bind (io_lift (parse_cache_config default_config cache_cfg)) (\<lambda>cc.
     io_bind (on_world (create_runtime E rt)) (\<lambda>_.
     on_world (open_local_with_cache_config E B DATABASE_PATH root cc))))))))"

definition slatedb_fs_create_s3 ::
  "(error \<Rightarrow> string option) \<Rightarrow> 's environment \<Rightarrow> ('s, 'db, 'rd) slate_builder \<Rightarrow> CacheConfig \<Rightarrow> ffi_s3_config option
     \<Rightarrow> ffi_cache_config option \<Rightarrow> ffi_runtime_config option \<Rightarrow> (string \<times> ('s, 'db, 'rd) create_call, int) io" where
  "slatedb_fs_create_s3 loc E B default_config config cache_cfg runtime_cfg = ffi_result loc (creating (
     io_bind (io_lift (parse_runtime_config runtime_cfg)) (\<lambda>rt.
     io_bind (io_lift (require_s3_config config)) (\<lambda>s3.
     io_bind (io_lift (parse_cache_config default_config cache_cfg)) (\<lambda>cc.
     io_bind (on_world (create_runtime E rt)) (\<lambda>_.
     on_world (open_s3_with_cache_config E B DATABASE_PATH s3 cc)))))))"

section \<open>Destruction\<close>

text \<open>The box is freed whatever closing returns, and a panic ends at the boundary.\<close>

definition slatedb_fs_destroy ::
  "('s, 'db, 'rd) slate_builder \<Rightarrow> (('db, 'rd) file_system option \<times> 's, unit) io" where
  "slatedb_fs_destroy B = (\<lambda>(p, s). case p of
     None \<Rightarrow> (Ok (), (None, s))
   | Some fs \<Rightarrow> (case fs_close B (fs, s) of (_, (_, s')) \<Rightarrow> (Ok (), (None, s'))))"

definition slatedb_file_destroy ::
  "(error \<Rightarrow> string option) \<Rightarrow> ('s, 'db, 'rd, 'tx) slatedb \<Rightarrow> codec \<Rightarrow> (string \<times> ('s, 'db, 'rd) call, unit) io" where
  "slatedb_file_destroy loc S P = (\<lambda>(msg, c). case handle_ptr c of
     None \<Rightarrow> (Ok (), (msg, c))
   | Some _ \<Rightarrow> (case slatedb_file_close loc S P (msg, c) of (_, (msg', c')) \<Rightarrow> (Ok (), (msg', c'\<lparr>handle_ptr := None\<rparr>))))"

definition slatedb_fs_last_error_message :: "(string \<times> 'w, string) io" where
  "slatedb_fs_last_error_message = (\<lambda>(msg, w). (Ok msg, (msg, w)))"

definition slatedb_fs_name :: string where
  "slatedb_fs_name = ''SlateDBFileSystem''"

section \<open>The contract of the constructors\<close>

text \<open>Thread counts of a caller never make Tokio's builder panic.\<close>

lemma optional_thread_count_nonzero: "optional_thread_count n name = Ok t \<Longrightarrow> t \<noteq> Some 0"
  by (auto simp: optional_thread_count_def fits_platform_def usize_try_from_def split: if_splits option.splits)

lemma parse_runtime_config_nonzero:
  "parse_runtime_config q = Ok rt \<Longrightarrow> async_threads rt \<noteq> Some 0 \<and> blocking_threads rt \<noteq> Some 0"
  by (auto simp: parse_runtime_config_def o_bind_def dest: optional_thread_count_nonzero
      split: option.splits outcome.splits)

lemma create_runtime_no_panic:
  "parse_runtime_config q = Ok rt \<Longrightarrow> fst (create_runtime E rt s) \<noteq> Panic p"
  using parse_runtime_config_nonzero [of q rt]
  by (auto simp: create_runtime_def builder_threads_def split: prod.splits sum.splits)

text \<open>Steps that leave the output alone.\<close>

definition keeps_output :: "(('s, 'db, 'rd) create_call, 'a) io \<Rightarrow> bool" where
  "keeps_output m \<longleftrightarrow> (\<forall>c. cr_output (snd (m c)) = cr_output c)"

named_theorems output_intros

lemma keeps_lift [output_intros]: "keeps_output (io_lift r)"
  by (simp add: keeps_output_def)

lemma keeps_world [output_intros]: "keeps_output (on_world m)"
  by (simp add: keeps_output_def on_world_def split: prod.splits)

lemma keeps_bind [output_intros]: "keeps_output m \<Longrightarrow> (\<And>x. keeps_output (f x)) \<Longrightarrow> keeps_output (io_bind m f)"
  unfolding keeps_output_def io_bind_def by (auto split: prod.split outcome.split) (metis snd_conv)+

lemma creating_spec:
  "creating m c = (if cr_output c = None then (Err (invalid_argument ''filesystem output must not be null''), c)
    else case m (c\<lparr>cr_output := Some None\<rparr>) of
      (Ok fs, c') \<Rightarrow> (Ok (), c'\<lparr>cr_output := Some (Some fs)\<rparr>)
    | (Err e, c') \<Rightarrow> (Err e, c') | (Panic p, c') \<Rightarrow> (Panic p, c'))"
  by (auto simp: creating_def require_output_def require_ptr_def io_bind_def split: prod.splits outcome.splits option.splits)

lemma creating_output:
  assumes "keeps_output m" and "creating m c = (r, c')"
  shows "(cr_output c = None \<and> c' = c \<and> r = Err (invalid_argument ''filesystem output must not be null'')) \<or>
    (cr_output c \<noteq> None \<and> (\<exists>fs c1. m (c\<lparr>cr_output := Some None\<rparr>) = (Ok fs, c1) \<and> r = Ok () \<and>
        c' = c1\<lparr>cr_output := Some (Some fs)\<rparr>)) \<or>
    (cr_output c \<noteq> None \<and> cr_output c' = Some None \<and> (\<nexists>u. r = Ok u))"
proof (cases "m (c\<lparr>cr_output := Some None\<rparr>)")
  case (Pair q c1)
  have "cr_output c1 = Some None" using assms(1) Pair by (metis keeps_output_def create_call.select_convs(1)
        create_call.surjective create_call.update_convs(1) snd_conv)
  with Pair assms(2) show ?thesis by (cases q) (auto simp: creating_spec split: if_splits)
qed

text \<open>The contract: what a constructor leaves in its output for each code it returns.\<close>

definition create_ok ::
  "('s, 'db, 'rd) slate_builder \<Rightarrow> CacheConfig outcome \<Rightarrow> ('s, 'db, 'rd) create_call
     \<Rightarrow> int outcome \<times> (string \<times> ('s, 'db, 'rd) create_call) \<Rightarrow> bool" where
  "create_ok B cc c res = (case res of (r, (_, c')) \<Rightarrow>
     (cr_output c = None \<and> r = Ok 6 \<and> c' = c) \<or>
     (cr_output c \<noteq> None \<and> (\<exists>fs cfg. r = Ok 0 \<and> cr_output c' = Some (Some fs) \<and> cc = Ok cfg \<and>
        fresh_fs B DATABASE_PATH cfg fs)) \<or>
     (cr_output c \<noteq> None \<and> (\<exists>n. r = Ok n \<and> n \<noteq> 0) \<and> cr_output c' = Some None))"

lemma create_ok_entry:
  assumes "keeps_output m" and "\<And>c fs c'. m c = (Ok fs, c') \<Longrightarrow> \<exists>cfg. cc = Ok cfg \<and> fresh_fs B DATABASE_PATH cfg fs"
  shows "create_ok B cc c (ffi_result loc (creating m) (msg, c))"
proof -
  obtain r c' where cr: "creating m c = (r, c')" by fastforce
  have nz: "error_code_i32 (code e) \<noteq> 0" for e using error_code_range [of "code e"] by linarith
  have six: "error_code_i32 CodeInvalidArgument = 6" by (simp add: error_code_i32_def)
  from creating_output [OF assms(1) cr] show ?thesis
  proof (elim disjE conjE exE)
    fix fs c1
    assume "m (c\<lparr>cr_output := Some None\<rparr>) = (Ok fs, c1)" and "r = Ok ()" and "cr_output c \<noteq> None"
      and "c' = c1\<lparr>cr_output := Some (Some fs)\<rparr>"
    with assms(2) cr show ?thesis by (force simp: create_ok_def ffi_result_eq)
  next
    assume "cr_output c \<noteq> None" and "cr_output c' = Some None" and "\<nexists>u. r = Ok u"
    with cr nz show ?thesis by (cases r) (auto simp: create_ok_def ffi_result_eq)
  qed (use cr six in \<open>simp add: create_ok_def ffi_result_eq\<close>)
qed

lemma io_bind_OkE:
  assumes "io_bind m f s = (Ok y, s')"
  obtains x s1 where "m s = (Ok x, s1)" and "f x s1 = (Ok y, s')"
  using assms by (auto simp: io_bind_def split: prod.splits outcome.splits)

lemma on_world_Ok: "on_world m c = (Ok x, c') \<Longrightarrow> \<exists>s'. m (cr_world c) = (Ok x, s')"
  by (auto simp: on_world_def split: prod.splits)

lemmas constructor_defs = slatedb_fs_create_memory_def slatedb_fs_create_local_def slatedb_fs_create_s3_def

lemma constructors_contract:
  "create_ok B (parse_cache_config D cache_cfg) c (slatedb_fs_create_memory loc E B D cache_cfg runtime_cfg (msg, c))"
  "create_ok B (parse_cache_config D cache_cfg) c (slatedb_fs_create_local loc E B D root cache_cfg runtime_cfg (msg, c))"
  "create_ok B (parse_cache_config D cache_cfg) c (slatedb_fs_create_s3 loc E B D config cache_cfg runtime_cfg (msg, c))"
  unfolding constructor_defs
  by (rule create_ok_entry, intro output_intros,
      fastforce elim!: io_bind_OkE dest!: on_world_Ok dest: constructors_fresh simp: io_lift_def)+

section \<open>The contract of the destructors\<close>

lemma fs_destroy_closes:
  "slatedb_fs_destroy B (Some fs, s) = (Ok (), (None, snd (snd (fs_close B (fs, s)))))"
  by (simp add: slatedb_fs_destroy_def split_beta)

text \<open>A new filesystem has only its cache to close.\<close>

lemma destroy_fresh:
  "fresh_fs B dbpath cache fs \<Longrightarrow> slatedb_fs_destroy B (Some fs, s) = (Ok (), (None,
     case build_db_cache (foyer_default_shards B) cache of None \<Rightarrow> s | Some c \<Rightarrow> snd (close_cache B c s)))"
  by (auto simp: fs_destroy_closes fs_close_def fresh_fs_def Let_def simp del: build_db_cache_None
      split: option.splits prod.splits)

text \<open>Destroying a usable handle leaves the store as closing it does.\<close>

lemma file_destroy_closes:
  assumes "handle_ptr c = Some fh" and "\<not> poisoned fh" and "slot fh = Some h"
    and "fh_close S P (h, world c) = (q, (h', s'))"
  shows "\<exists>msg'. slatedb_file_destroy loc S P (msg, c) = (Ok (), (msg', c\<lparr>handle_ptr := None, world := s'\<rparr>))"
  using assms
  by (cases q) (auto simp: slatedb_file_destroy_def slatedb_file_close_def ffi_result_eq on_handle_def
      close_slot_def locked_slot_def require_ptr_def with_guard_def split: prod.splits)

end
