(* ===== verification/System_Properties.thy ===== *)
theory System_Properties
  imports Mem_Examples Ffi_Lifecycle
begin

text \<open>
  The properties of the filesystem and of its C interface: how paths map to databases, when a database is
  opened for writing, what closing does, and what a caller across the boundary can rely on.
\<close>

section \<open>Paths and databases\<close>

text \<open>C33. Groups and their places in the store. A path with a companion suffix belongs to the group named by
  what comes before the suffix; every other path is its own group. A database that is not itself named like
  a companion file shares its group with its companion files; one that is named like a companion does not:
  its own group is the name before its suffix, that of its companions is its full name. Different groups
  have different places in the object store, none below another, all directly below the directory of the
  filesystem, whatever slashes and percent signs a group has.\<close>

theorem groups_partition_paths:
  "(\<forall>db suf. db \<noteq> [] \<and> last db \<noteq> CHR ''/'' \<and> suf \<in> {''.wal'', ''.wal.checkpoint'', ''.wal.recovery''} \<longrightarrow>
      database_group (db @ suf) = db) \<and>
   (\<forall>p. (\<nexists>db suf. p = db @ suf \<and> db \<noteq> [] \<and> last db \<noteq> CHR ''/'' \<and>
        suf \<in> {''.wal'', ''.wal.checkpoint'', ''.wal.recovery''}) \<longrightarrow> database_group p = p) \<and>
   (\<forall>db f. companion_of db f \<longrightarrow> (database_group f = database_group db \<longleftrightarrow> (\<nexists>b. companion_of b db))) \<and>
   (\<forall>db f b. companion_of db f \<and> companion_of b db \<longrightarrow> database_group db = b \<and> database_group f = db \<and> b \<noteq> db) \<and>
   (slatedb_path fs g = slatedb_path fs g' \<longleftrightarrow> g = g') \<and> \<not> prefix (slatedb_path fs g @ ''/'') (slatedb_path fs g') \<and>
   (\<exists>name. slatedb_path fs g = database_path fs @ ''/'' @ name \<and> CHR ''/'' \<notin> set name)"
proof (intro conjI allI)
  have comp: "companion_of db p \<longleftrightarrow> (\<exists>suf. p = db @ suf \<and> db \<noteq> [] \<and> last db \<noteq> CHR ''/'' \<and>
      suf \<in> {''.wal'', ''.wal.checkpoint'', ''.wal.recovery''})" for db p
    by (auto simp: companion_of_def DATABASE_COMPANION_SUFFIXES_def)
  have own: "companion_of b db \<Longrightarrow> b \<noteq> db" for b db by (auto simp: comp)
  fix db suf p f b :: string
  show "db \<noteq> [] \<and> last db \<noteq> CHR ''/'' \<and> suf \<in> {''.wal'', ''.wal.checkpoint'', ''.wal.recovery''} \<longrightarrow>
      database_group (db @ suf) = db" using companion_group [of db "db @ suf"] by (auto simp: comp)
  show "(\<nexists>db suf. p = db @ suf \<and> db \<noteq> [] \<and> last db \<noteq> CHR ''/'' \<and>
      suf \<in> {''.wal'', ''.wal.checkpoint'', ''.wal.recovery''}) \<longrightarrow> database_group p = p"
    using database_group_cases [of p] by (auto simp: comp)
  show "companion_of db f \<longrightarrow> (database_group f = database_group db \<longleftrightarrow> (\<nexists>b. companion_of b db))"
    using companion_group [of db f] companion_group [of _ db] database_group_cases [of db] own [of _ db] by metis
  show "companion_of db f \<and> companion_of b db \<longrightarrow> database_group db = b \<and> database_group f = db \<and> b \<noteq> db"
    using companion_group own by blast
  show "slatedb_path fs g = slatedb_path fs g' \<longleftrightarrow> g = g'" by (rule slatedb_path_inj)
  show "\<not> prefix (slatedb_path fs g @ ''/'') (slatedb_path fs g')" by (rule slatedb_path_flat)
  show "\<exists>name. slatedb_path fs g = database_path fs @ ''/'' @ name \<and> CHR ''/'' \<notin> set name"
    using flatten_group_no_slash [of g] by (auto simp: slatedb_path_def)
qed

theorem groups_partition_paths_witness:
  "database_group ''a/b.db.wal.recovery'' = ''a/b.db'' \<and> database_group ''f.wal'' = database_group ''f'' \<and>
   database_group ''f.wal.wal'' = ''f.wal'' \<and> slatedb_path (small_fs None) ''a/b'' \<noteq> slatedb_path (small_fs None) ''a%2Fb''"
proof (intro conjI)
  note t = groups_partition_paths [of "small_fs None" "''a/b''" "''a%2Fb''"]
  from t have suf: "database_group (db @ suf) = db"
    if "db \<noteq> [] \<and> last db \<noteq> CHR ''/'' \<and> suf \<in> {''.wal'', ''.wal.checkpoint'', ''.wal.recovery''}" for db suf
    using that by (blast dest: conjunct1)
  show "database_group ''a/b.db.wal.recovery'' = ''a/b.db''" using suf [of "''a/b.db''" "''.wal.recovery''"] by simp
  show "database_group ''f.wal.wal'' = ''f.wal''" using suf [of "''f.wal''" "''.wal''"] by simp
  have f: "companion_of ''f'' ''f.wal''" "\<nexists>b. companion_of b ''f''"
    by (auto simp: companion_of_def DATABASE_COMPANION_SUFFIXES_def Cons_eq_append_conv)
  from t have "companion_of ''f'' ''f.wal'' \<longrightarrow>
      (database_group ''f.wal'' = database_group ''f'' \<longleftrightarrow> (\<nexists>b. companion_of b ''f''))" by blast
  with f show "database_group ''f.wal'' = database_group ''f''" by blast
  show "slatedb_path (small_fs None) ''a/b'' \<noteq> slatedb_path (small_fs None) ''a%2Fb''" using t by simp
qed

text \<open>The group of a companion's name is not always final: stripping one suffix can leave a name that
  ends in a suffix again. The log of a database that is itself called \<open>x.wal\<close> is in the group \<open>x.wal\<close>, but
  the database \<open>x.wal\<close> is in the group \<open>x\<close>, so the two are kept in different stores.\<close>

lemma group_not_idempotent:
  "database_group ''x.wal.wal'' = ''x.wal'' \<and> database_group ''x.wal'' = ''x'' \<and>
   slatedb_path fs (database_group ''x.wal.wal'') \<noteq> slatedb_path fs (database_group ''x.wal'')"
proof -
  have g: "database_group ''x.wal.wal'' = ''x.wal''" "database_group ''x.wal'' = ''x''" by code_simp+
  then show ?thesis by (simp add: slatedb_path_inj)
qed

section \<open>Clients\<close>

text \<open>C20. One writer per group. Asking for the writer of a path gives the one its group has, without
  touching the store, or opens one that is from then on the writer of the group; no other group's writer
  changes. A request that does not create reports a database that was never written as a missing file,
  and a failure never leaves a writer behind. Checking that a file exists and opening a handle without
  write access open none: they do the same whatever opening a writer would do.\<close>

theorem one_writer_per_group:
  assumes "write_db B p create (fs, s) = (r, (fs', s'))" and "\<not> closed fs"
  shows "same_config fs fs' \<and> (\<forall>g. g \<noteq> database_group p \<longrightarrow> writer_of fs' g = writer_of fs g) \<and>
    (case r of
       Ok db \<Rightarrow> writer_of fs' (database_group p) = Some db \<and>
         (writer_of fs (database_group p) \<noteq> None \<longrightarrow> writer_of fs (database_group p) = Some db \<and> s' = s)
     | Err e \<Rightarrow> writer_of fs' (database_group p) = None \<and> (e = file_not_found p \<and> \<not> create \<or> code e = CodeSlateDb)
     | Panic _ \<Rightarrow> False) \<and>
    fs_file_exists (B\<lparr>build_db := X\<rparr>) S q = fs_file_exists B S q \<and>
    (\<not> fl_write fl \<longrightarrow> fs_open_file (B\<lparr>build_db := X\<rparr>) S P now q fl = fs_open_file B S P now q fl)"
  using write_db_spec [OF assms] reads_open_no_writer [where B = B and X = X and S = S and p = q]
  by (simp add: fs_open_file_def)

theorem one_writer_per_group_witness:
  "\<exists>fs' s'. write_db mem_builder ''f.wal'' True (small_fs (Some ''d''), mem_empty) = (Ok ''d'', (fs', s')) \<and> s' = mem_empty"
proof -
  let ?R = "write_db mem_builder ''f.wal'' True (small_fs (Some ''d''), mem_empty)"
  have "fst ?R = Ok ''d''" by code_simp
  from run_obtain [OF this] obtain fs' s' where run: "?R = (Ok ''d'', (fs', s'))" by (elim exE)
  from one_writer_per_group [where X = "\<lambda>_ s. (Inl mem_unavailable, s)" and S = mem_slatedb and q = "''f''"
      and fl = flags_read_only and P = proto_codec and now = 0, OF run] run show ?thesis by auto
qed

text \<open>C31. Closing always closes: whatever errors the clients report, the filesystem is closed afterwards, holds
  no client and no cache, and keeps its configuration; a second close succeeds and does nothing, and every operation is refused as an invalid argument and
  changes nothing.\<close>

theorem close_is_final:
  assumes "fs_close B (fs, s) = (r, (fs', s'))"
  shows "closed fs' \<and> (\<forall>g. writer_of fs' g = None \<and> reader_of fs' g = None) \<and> db_cache fs' = None \<and>
    database_path fs' = database_path fs \<and> (\<forall>p. r \<noteq> Panic p) \<and> fs_close B (fs', s') = (Ok (), (fs', s')) \<and>
    (\<exists>e. fs_open_file B S P now p fl (fs', s1) = (Err e, (fs', s1)) \<and> code e = CodeInvalidArgument) \<and>
    (\<exists>e. fs_file_exists B S p (fs', s1) = (Err e, (fs', s1)) \<and> code e = CodeInvalidArgument) \<and>
    (\<exists>e. fs_remove_file B S p (fs', s1) = (Err e, (fs', s1)) \<and> code e = CodeInvalidArgument) \<and>
    (\<exists>e. fs_move_file B S p q (fs', s1) = (Err e, (fs', s1)) \<and> code e = CodeInvalidArgument)"
proof -
  have fs': "fs' = fs\<lparr>closed := True, databases := [], db_cache := None\<rparr>" and np: "\<forall>p. r \<noteq> Panic p"
    using fs_close_spec [OF assms] by blast+
  have "fs_close B (fs', s') = (Ok (), (fs', s'))" by (rule fs_close_again) (simp_all add: fs')
  moreover have "closed fs'" by (simp add: fs')
  note closed_operations [OF this]
  ultimately show ?thesis using np by (intro conjI) (simp_all add: fs' writer_of_def reader_of_def)
qed

theorem close_is_final_witness:
  "fs_close mem_builder (snd (fs_close mem_builder (small_fs (Some ''d''), mem_empty)))
     = (Ok (), snd (fs_close mem_builder (small_fs (Some ''d''), mem_empty)))"
  using close_is_final [of mem_builder "small_fs (Some ''d'')" mem_empty] by (metis prod.collapse)

text \<open>Everything a filesystem has open, in the order of its databases, and closing all of a list.\<close>

datatype ('db, 'rd) open_part = OpenWriter 'db | OpenReader 'rd | OpenCache SplitCache

definition client_parts :: "('db, 'rd) slatedb_client \<Rightarrow> ('db, 'rd) open_part list" where
  "client_parts c = (case read_write c of None \<Rightarrow> [] | Some db \<Rightarrow> [OpenWriter db]) @
     (case reader c of None \<Rightarrow> [] | Some rd \<Rightarrow> [OpenReader rd])"

definition open_parts :: "('db, 'rd) file_system \<Rightarrow> ('db, 'rd) open_part list" where
  "open_parts fs = concat (map (client_parts \<circ> snd) (databases fs)) @
     (case db_cache fs of None \<Rightarrow> [] | Some c \<Rightarrow> [OpenCache c])"

fun close_part :: "('s, 'db, 'rd) slate_builder \<Rightarrow> ('db, 'rd) open_part \<Rightarrow> 's \<Rightarrow> (slatedb_error + unit) \<times> 's" where
  "close_part B (OpenWriter db) = close_db B db"
| "close_part B (OpenReader rd) = close_reader B rd"
| "close_part B (OpenCache c) = close_cache B c"

fun close_parts :: "('s, 'db, 'rd) slate_builder \<Rightarrow> ('db, 'rd) open_part list \<Rightarrow> 's \<Rightarrow> (slatedb_error + unit) list \<times> 's" where
  "close_parts B [] s = ([], s)"
| "close_parts B (x # xs) s = (case close_part B x s of (r, s1) \<Rightarrow> case close_parts B xs s1 of (rs, s2) \<Rightarrow> (r # rs, s2))"

fun first_failure :: "(slatedb_error + unit) list \<Rightarrow> unit outcome" where
  "first_failure [] = Ok ()"
| "first_failure (Inr u # rs) = first_failure rs"
| "first_failure (Inl e # rs) = Err (from_slatedb_error e)"

definition with_failures :: "unit outcome \<Rightarrow> (slatedb_error + unit) list \<times> 's \<Rightarrow> unit outcome \<times> 's" where
  "with_failures x R = (case x of Ok _ \<Rightarrow> first_failure (fst R) | _ \<Rightarrow> x, snd R)"

lemma with_failures_Nil [simp]: "with_failures x ([], s) = (x, s)"
  by (cases x) (simp_all add: with_failures_def)

lemma with_failures_Cons: "with_failures x (r # rs, s) = with_failures (keep_first x r) (rs, s)"
  by (cases x; cases r) (simp_all add: with_failures_def keep_first_def from_slate_def)

lemma close_parts_step:
  "with_failures x (close_parts B (a # xs) s) =
   (case close_part B a s of (r, s1) \<Rightarrow> with_failures (keep_first x r) (close_parts B xs s1))"
  by (simp add: with_failures_Cons split: prod.split)

lemma close_parts_append:
  "with_failures x (close_parts B (xs @ ys) s) =
   (case with_failures x (close_parts B xs s) of (x', s') \<Rightarrow> with_failures x' (close_parts B ys s'))"
proof (induction xs arbitrary: s x)
  case (Cons a xs)
  obtain r s1 where "close_part B a s = (r, s1)" by fastforce
  with Cons.IH [of "keep_first x r" s1] show ?case
    by (simp only: append_Cons close_parts_step prod.case)
qed simp

lemma close_client_parts: "close_client B c (x, s) = with_failures x (close_parts B (client_parts c) s)"
  by (auto simp: close_client_def client_parts_def with_failures_Cons split: option.split prod.split)

lemma close_clients_parts:
  "foldl (\<lambda>st e. close_client B (snd e) st) (x, s) es = with_failures x (close_parts B (concat (map (client_parts \<circ> snd) es)) s)"
proof (induction es arbitrary: x s)
  case (Cons e es)
  obtain x1 s1 where one: "close_client B (snd e) (x, s) = (x1, s1)" by fastforce
  with Cons.IH [of x1 s1] show ?case by (simp add: close_parts_append close_client_parts [symmetric])
qed simp

text \<open>C32. Every client is closed, once, whatever the others do. Closing a filesystem runs the close of each
  writer and each reader of its databases and of the cache, one after the other, each in the world the one
  before left, failed or not; it returns the first failure among them, and success exactly when there is
  none.\<close>

theorem close_reports_first_failure:
  "\<exists>fs'. fs_close B (fs, s) = (first_failure (fst (close_parts B (open_parts fs) s)), (fs', snd (close_parts B (open_parts fs) s))) \<and>
     length (fst (close_parts B (open_parts fs) s)) = length (open_parts fs) \<and>
     (first_failure (fst (close_parts B (open_parts fs) s)) = Ok () \<longleftrightarrow>
        set (fst (close_parts B (open_parts fs) s)) \<subseteq> {Inr ()})"
proof -
  have len: "length (fst (close_parts B xs s)) = length xs" for xs s
    by (induction xs arbitrary: s) (auto split: prod.split simp: prod.case_eq_if)
  have ok: "first_failure rs = Ok () \<longleftrightarrow> set rs \<subseteq> {Inr ()}" for rs
    by (induction rs rule: first_failure.induct) auto
  obtain x s1 where st: "foldl (\<lambda>st e. close_client B (snd e) st) (Ok (), s) (databases fs) = (x, s1)" by fastforce
  have "with_failures (Ok ()) (close_parts B (open_parts fs) s) = with_failures x (close_parts B
      (case db_cache fs of None \<Rightarrow> [] | Some c \<Rightarrow> [OpenCache c]) s1)"
    by (simp add: open_parts_def close_parts_append close_clients_parts [symmetric] st)
  then have "\<exists>fs'. fs_close B (fs, s) = (fst (with_failures (Ok ()) (close_parts B (open_parts fs) s)),
      (fs', snd (with_failures (Ok ()) (close_parts B (open_parts fs) s))))"
    by (auto simp: fs_close_def st with_failures_Cons split: option.split prod.split)
  then show ?thesis by (simp add: with_failures_def len ok)
qed

theorem close_reports_first_failure_witness:
  "\<exists>fs'. fs_close (mem_builder\<lparr>close_db := \<lambda>p s. (Inl mem_unavailable, s\<lparr>mem_faults := True # mem_faults s\<rparr>)\<rparr>)
     ((small_fs None)\<lparr>databases := [(''f'', \<lparr>read_write = Some ''d'', reader = Some ''e''\<rparr>), (''g'', \<lparr>read_write = Some ''h'', reader = None\<rparr>)]\<rparr>, mem_empty)
   = (Err (from_slatedb_error mem_unavailable), (fs', mem_empty\<lparr>mem_faults := [True, True]\<rparr>))"
proof -
  let ?B = "mem_builder\<lparr>close_db := \<lambda>p s. (Inl mem_unavailable, s\<lparr>mem_faults := True # mem_faults s\<rparr>)\<rparr>"
  let ?fs = "(small_fs None)\<lparr>databases := [(''f'', \<lparr>read_write = Some ''d'', reader = Some ''e''\<rparr>), (''g'', \<lparr>read_write = Some ''h'', reader = None\<rparr>)]\<rparr>"
  have "close_parts ?B (open_parts ?fs) mem_empty
      = ([Inl mem_unavailable, Inr (), Inl mem_unavailable], mem_empty\<lparr>mem_faults := [True, True]\<rparr>)"
    by (simp add: open_parts_def client_parts_def small_fs_def mem_builder_def mem_empty_def)
  with close_reports_first_failure [of ?B ?fs mem_empty] show ?thesis by simp
qed

section \<open>Configuration\<close>

text \<open>The S3 configurations that are refused.\<close>

definition s3_refused :: "S3StorageConfig \<Rightarrow> bool" where
  "s3_refused c \<longleftrightarrow> s3_bucket c = [] \<or> (s3_key_id c = None) \<noteq> (s3_secret c = None) \<or>
     (s3_session_token c \<noteq> None \<and> s3_key_id c = None)"

text \<open>C39. The S3 configuration is checked before anything is built from it: an empty bucket, one of key id and
  secret without the other, and a session token without a key are refused as invalid arguments. Otherwise the
  operator is built from the configured values and nothing else: bucket, root, region, the addressing style,
  key, secret and token as given, unsigned exactly when there is no key, neither configuration files nor the
  metadata service of the machine consulted; an endpoint with a scheme is passed on, one without gets
  \<open>https\<close> or \<open>http\<close> by the setting of the caller. A failure of the builder is passed on as an I/O error.\<close>

theorem s3_configuration_checked:
  "(s3_refused c \<longrightarrow> (\<exists>e. build_s3_operator c operator_new = Err e \<and> code e = CodeInvalidArgument)) \<and>
   (\<not> s3_refused c \<longrightarrow> (\<exists>b. build_s3_operator c operator_new = (case operator_new b of Inr op \<Rightarrow> Ok op
        | Inl e \<Rightarrow> Err (io_with_source ''failed to initialize OpenDAL S3 storage'' e)) \<and>
      sb_bucket b = s3_bucket c \<and> sb_root b = s3_root c \<and> sb_region b = s3_region c \<and>
      sb_access_key_id b = s3_key_id c \<and> sb_secret_access_key b = s3_secret c \<and> sb_session_token b = s3_session_token c \<and>
      sb_skip_signature b = (s3_key_id c = None) \<and> sb_disable_config_load b \<and> sb_disable_ec2_metadata b \<and>
      sb_virtual_host_style b = s3_virtual_host_style c \<and> (sb_endpoint b = None \<longleftrightarrow> s3_endpoint c = None) \<and>
      (\<forall>e. s3_endpoint c = Some e \<and> contains ''://'' e \<longrightarrow> sb_endpoint b = Some e) \<and>
      (\<forall>e. s3_endpoint c = Some e \<and> \<not> contains ''://'' e \<and> s3_use_ssl c \<longrightarrow> sb_endpoint b = Some (''https://'' @ e)) \<and>
      (\<forall>e. s3_endpoint c = Some e \<and> \<not> contains ''://'' e \<and> \<not> s3_use_ssl c \<longrightarrow> sb_endpoint b = Some (''http://'' @ e))))"
proof (intro conjI impI)
  assume "s3_refused c"
  then show "\<exists>e. build_s3_operator c operator_new = Err e \<and> code e = CodeInvalidArgument"
    unfolding s3_refused_def
    by (cases "s3_bucket c = []"; cases "s3_key_id c"; cases "s3_secret c"; simp add: build_s3_operator_def)
next
  assume "\<not> s3_refused c"
  then have ok: "s3_bucket c \<noteq> []" "s3_key_id c = None \<longleftrightarrow> s3_secret c = None" "s3_key_id c = None \<Longrightarrow> s3_session_token c = None"
    by (auto simp: s3_refused_def)
  let ?b = "\<lparr>sb_bucket = s3_bucket c, sb_root = s3_root c,
      sb_endpoint = map_option (\<lambda>e. if contains ''://'' e then e
        else if s3_use_ssl c then ''https://'' @ e else ''http://'' @ e) (s3_endpoint c),
      sb_region = s3_region c, sb_access_key_id = s3_key_id c, sb_secret_access_key = s3_secret c,
      sb_session_token = s3_session_token c, sb_skip_signature = (s3_key_id c = None),
      sb_disable_config_load = True, sb_disable_ec2_metadata = True, sb_virtual_host_style = s3_virtual_host_style c\<rparr>"
  have "build_s3_operator c operator_new = (case operator_new ?b of Inr op \<Rightarrow> Ok op
      | Inl e \<Rightarrow> Err (io_with_source ''failed to initialize OpenDAL S3 storage'' e))"
    using ok by (cases "s3_key_id c") (auto simp: build_s3_operator_def Let_def split: sum.split)
  then show "\<exists>b. build_s3_operator c operator_new = (case operator_new b of Inr op \<Rightarrow> Ok op
        | Inl e \<Rightarrow> Err (io_with_source ''failed to initialize OpenDAL S3 storage'' e)) \<and>
      sb_bucket b = s3_bucket c \<and> sb_root b = s3_root c \<and> sb_region b = s3_region c \<and>
      sb_access_key_id b = s3_key_id c \<and> sb_secret_access_key b = s3_secret c \<and> sb_session_token b = s3_session_token c \<and>
      sb_skip_signature b = (s3_key_id c = None) \<and> sb_disable_config_load b \<and> sb_disable_ec2_metadata b \<and>
      sb_virtual_host_style b = s3_virtual_host_style c \<and> (sb_endpoint b = None \<longleftrightarrow> s3_endpoint c = None) \<and>
      (\<forall>e. s3_endpoint c = Some e \<and> contains ''://'' e \<longrightarrow> sb_endpoint b = Some e) \<and>
      (\<forall>e. s3_endpoint c = Some e \<and> \<not> contains ''://'' e \<and> s3_use_ssl c \<longrightarrow> sb_endpoint b = Some (''https://'' @ e)) \<and>
      (\<forall>e. s3_endpoint c = Some e \<and> \<not> contains ''://'' e \<and> \<not> s3_use_ssl c \<longrightarrow> sb_endpoint b = Some (''http://'' @ e))"
    by (intro exI [of _ ?b]) auto
qed

definition keyless_s3_config :: S3StorageConfig where
  "keyless_s3_config = \<lparr>s3_bucket = ''b'', s3_root = None, s3_endpoint = Some ''minio:9000'', s3_region = None, s3_key_id = Some ''k'',
     s3_secret = None, s3_session_token = None, s3_use_ssl = False, s3_virtual_host_style = False\<rparr>"

theorem s3_configuration_checked_witness:
  "(\<exists>e. build_s3_operator keyless_s3_config Inr = Err e \<and> code e = CodeInvalidArgument) \<and>
   (\<exists>b. build_s3_operator (keyless_s3_config\<lparr>s3_secret := Some ''s''\<rparr>) Inr = Ok b \<and>
      sb_endpoint b = Some ''http://minio:9000'' \<and> sb_secret_access_key b = Some ''s'' \<and> \<not> sb_skip_signature b)"
proof
  show "\<exists>e. build_s3_operator keyless_s3_config Inr = Err e \<and> code e = CodeInvalidArgument"
    using s3_configuration_checked [of keyless_s3_config Inr] by (simp add: keyless_s3_config_def s3_refused_def)
  have "\<not> contains ''://'' ''minio:9000''" by code_simp
  with s3_configuration_checked [of "keyless_s3_config\<lparr>s3_secret := Some ''s''\<rparr>" Inr]
  show "\<exists>b. build_s3_operator (keyless_s3_config\<lparr>s3_secret := Some ''s''\<rparr>) Inr = Ok b \<and>
      sb_endpoint b = Some ''http://minio:9000'' \<and> sb_secret_access_key b = Some ''s'' \<and> \<not> sb_skip_signature b"
    by (auto simp: keyless_s3_config_def s3_refused_def)
qed

text \<open>The cache configurations that are accepted.\<close>

definition cache_path_given :: "ffi_cache_config \<Rightarrow> bool" where
  "cache_path_given f \<longleftrightarrow> f_persistent_cache_path f \<noteq> None \<and> f_persistent_cache_path f \<noteq> Some []"

definition cache_accepted :: "ffi_cache_config \<Rightarrow> bool" where
  "cache_accepted f \<longleftrightarrow> (case f_persistent_cache_path f of None \<Rightarrow> True | Some bs \<Rightarrow> from_utf8 bs \<noteq> None) \<and>
     (cache_path_given f \<longrightarrow> 0 < f_persistent_cache_size_bytes f \<and> 0 < f_persistent_cache_part_size_bytes f \<and>
       1024 dvd f_persistent_cache_part_size_bytes f)"

text \<open>C40. The cache configuration of a caller. None gives the default. Otherwise it is accepted exactly when the
  path, if there is one, is valid UTF-8, and a path that is not empty comes with a positive size and a part
  size that is a positive multiple of 1024; it is an invalid argument otherwise. What is accepted is what
  the caller gave, field by field: an empty path means no persistent cache, zero shards the default
  number, and any value but zero sets a switch.\<close>

theorem cache_configuration_checked:
  assumes "f_persistent_cache_size_bytes f < u64_size" and "f_persistent_cache_part_size_bytes f < u64_size"
    and "f_cache_shards f < u64_size"
  shows "parse_cache_config default_config None = Ok default_config \<and>
    (cache_accepted f \<longrightarrow> parse_cache_config default_config (Some f) = Ok \<lparr>
       block_cache_size_bytes = f_block_cache_size_bytes f, metadata_cache_size_bytes = f_metadata_cache_size_bytes f,
       cache_shards = (if f_cache_shards f = 0 then None else Some (f_cache_shards f)),
       persistent_cache_path = (if cache_path_given f then f_persistent_cache_path f else None),
       persistent_cache_size_bytes = f_persistent_cache_size_bytes f,
       persistent_cache_part_size_bytes = f_persistent_cache_part_size_bytes f,
       persistent_cache_on_flush = (f_persistent_cache_on_flush f \<noteq> 0),
       persistent_cache_on_compaction = (f_persistent_cache_on_compaction f \<noteq> 0)\<rparr>) \<and>
    (\<not> cache_accepted f \<longrightarrow> (\<exists>e. parse_cache_config default_config (Some f) = Err e \<and> code e = CodeInvalidArgument))"
proof -
  have utf8: "from_utf8 bs = Some s \<Longrightarrow> s = bs" for bs s by (simp add: from_utf8_def split: if_splits)
  have fits: "fits_platform n what = Ok n" if "n < u64_size" for n what
    using that by (simp add: fits_platform_def usize_try_from_def)
  note fit = fits [OF assms(1)] fits [OF assms(2)] fits [OF assms(3)]
  show ?thesis
  proof (cases "f_persistent_cache_path f")
    case None
    then show ?thesis
      by (simp add: parse_cache_config_def optional_string_def fit cache_accepted_def cache_path_given_def)
  next
    case (Some bs)
    show ?thesis
    proof (cases "from_utf8 bs")
      case None
      with Some show ?thesis by (simp add: parse_cache_config_def optional_string_def cache_accepted_def)
    next
      case u: (Some s)
      with utf8 have "s = bs" by blast
      with Some u show ?thesis
        by (simp add: parse_cache_config_def optional_string_def fit cache_accepted_def cache_path_given_def mod_eq_0_iff_dvd)
    qed
  qed
qed

definition demo_cache_config :: ffi_cache_config where
  "demo_cache_config = \<lparr>f_block_cache_size_bytes = 8, f_metadata_cache_size_bytes = 4, f_cache_shards = 3,
     f_persistent_cache_path = Some ''/c'', f_persistent_cache_size_bytes = 4096,
     f_persistent_cache_part_size_bytes = 2048, f_persistent_cache_on_flush = 1, f_persistent_cache_on_compaction = 0\<rparr>"

theorem cache_configuration_checked_witness:
  "parse_cache_config (cache_config_default 0 0) (Some demo_cache_config) = Ok \<lparr>
       block_cache_size_bytes = 8, metadata_cache_size_bytes = 4, cache_shards = Some 3, persistent_cache_path = Some ''/c'',
       persistent_cache_size_bytes = 4096, persistent_cache_part_size_bytes = 2048,
       persistent_cache_on_flush = True, persistent_cache_on_compaction = False\<rparr> \<and>
   (\<exists>e. parse_cache_config (cache_config_default 0 0) (Some (demo_cache_config\<lparr>f_persistent_cache_part_size_bytes := 1500\<rparr>))
      = Err e \<and> code e = CodeInvalidArgument)"
proof
  have u: "from_utf8 ''/c'' \<noteq> None" by code_simp
  have d: "\<not> 1024 dvd (1500 :: nat)" by (simp add: dvd_eq_mod_eq_0)
  show "parse_cache_config (cache_config_default 0 0) (Some demo_cache_config) = Ok \<lparr>
       block_cache_size_bytes = 8, metadata_cache_size_bytes = 4, cache_shards = Some 3, persistent_cache_path = Some ''/c'',
       persistent_cache_size_bytes = 4096, persistent_cache_part_size_bytes = 2048,
       persistent_cache_on_flush = True, persistent_cache_on_compaction = False\<rparr>"
    using cache_configuration_checked [of demo_cache_config "cache_config_default 0 0"] u
    by (simp add: demo_cache_config_def cache_accepted_def cache_path_given_def u64_size_def)
  show "\<exists>e. parse_cache_config (cache_config_default 0 0) (Some (demo_cache_config\<lparr>f_persistent_cache_part_size_bytes := 1500\<rparr>))
      = Err e \<and> code e = CodeInvalidArgument"
    using cache_configuration_checked [of "demo_cache_config\<lparr>f_persistent_cache_part_size_bytes := 1500\<rparr>" "cache_config_default 0 0"] u d
    by (simp add: demo_cache_config_def cache_accepted_def cache_path_given_def u64_size_def)
qed

section \<open>The C interface\<close>

text \<open>C34. Nothing unwinds into C. Whatever an operation does, fail or panic, its entry point returns a code
  between 0 and 7, zero exactly for success; a failure leaves a message without a NUL byte for the thread,
  a success leaves the last message alone, and the state is the one the operation left.\<close>

theorem ffi_never_unwinds:
  "\<exists>c msg' w'. ffi_result loc m (msg, w) = (Ok c, (msg', w')) \<and> snd (m w) = w' \<and> 0 \<le> c \<and> c \<le> 7 \<and>
     (c = 0 \<longleftrightarrow> (\<exists>u. fst (m w) = Ok u)) \<and> (c = 0 \<longrightarrow> msg' = msg) \<and> (c \<noteq> 0 \<longrightarrow> CHR 0x00 \<notin> set msg')"
  by (rule ffi_result_total [of loc m msg w]) blast

theorem ffi_never_unwinds_witness:
  "\<exists>c msg' w'. ffi_result (\<lambda>_. None) (\<lambda>w. (Panic ''boom'', w)) (''old'', 5 :: nat) = (Ok c, (msg', w')) \<and> c \<noteq> 0 \<and> w' = 5"
  using ffi_never_unwinds [of "\<lambda>_. None" "\<lambda>w. (Panic ''boom'', w)" "''old''" "5 :: nat"] by auto

text \<open>C36. A panic under the exclusive lock poisons a handle, and a poisoned handle refuses everything: each of
  the ten entry points that lock it answers with the code of an invalid argument, and leaves the handle, the
  buffer and the store as they are, closing included, so that what was staged in it is never synced. Those
  with an output count set it to zero first. Destroying the handle frees it without touching the store.\<close>

theorem panic_poisons_handle:
  assumes "m (h, w) = (Panic q, (h', w'))" and "\<not> poisoned fh" and "slot fh = Some h"
    and "handle_ptr c = Some (fh\<lparr>slot := Some h', poisoned := True\<rparr>)"
  shows "with_exclusive_file_handle m (Some fh, w) = (Panic q, (handle_ptr c, w')) \<and>
    (\<exists>msg'. slatedb_file_sync loc S P (msg, c) = (Ok 6, (msg', c))) \<and>
    (\<exists>msg'. slatedb_file_close loc S P (msg, c) = (Ok 6, (msg', c))) \<and>
    (\<exists>msg'. slatedb_file_truncate loc now n (msg, c) = (Ok 6, (msg', c))) \<and>
    (\<exists>msg'. slatedb_file_seek loc n (msg, c) = (Ok 6, (msg', c))) \<and>
    (\<exists>msg'. slatedb_file_pwrite loc now len offset (msg, c) = (Ok 6, (msg', c))) \<and>
    (\<exists>msg'. slatedb_file_read loc len (msg, c) = (Ok 6, (msg', count_reset c))) \<and>
    (\<exists>msg'. slatedb_file_pread loc len offset (msg, c) = (Ok 6, (msg', count_reset c))) \<and>
    (\<exists>msg'. slatedb_file_write loc now len (msg, c) = (Ok 6, (msg', count_reset c))) \<and>
    (\<exists>msg'. slatedb_file_get_position loc (msg, c) = (Ok 6, (msg', count_reset c))) \<and>
    (\<exists>msg'. slatedb_file_get_size loc (msg, c) = (Ok 6, (msg', count_reset c))) \<and>
    (\<exists>msg'. slatedb_file_destroy loc S P (msg, c) = (Ok (), (msg', c\<lparr>handle_ptr := None\<rparr>)))"
proof -
  let ?fh = "fh\<lparr>slot := Some h', poisoned := True\<rparr>"
  have "poisoned ?fh" by simp
  note e = poisoned_entry_points [OF this assms(4)] poisoned_counted_points [OF this assms(4)]
  have d: "\<exists>msg'. slatedb_file_destroy loc S P (msg, c) = (Ok (), (msg', c\<lparr>handle_ptr := None\<rparr>))"
    using e(4) [of loc S P msg] assms(4) by (auto simp: slatedb_file_destroy_def)
  have "with_exclusive_file_handle m (Some fh, w) = (Panic q, (handle_ptr c, w'))"
    using exclusive_panic_poisons [of m h w q h' w' fh, OF assms(1-3)] assms(4) by simp
  then show ?thesis by (intro conjI e d)
qed

theorem panic_poisons_handle_witness:
  "\<exists>msg'. slatedb_file_get_size (\<lambda>_. None) ([], \<lparr>out_count = Some 9, buffer = None,
       handle_ptr = Some \<lparr>poisoned = True, slot = Some (small_handle flags_read_write 0)\<rparr>, world = mem_empty\<rparr>)
     = (Ok 6, (msg', \<lparr>out_count = Some 0, buffer = None,
       handle_ptr = Some \<lparr>poisoned = True, slot = Some (small_handle flags_read_write 0)\<rparr>, world = mem_empty\<rparr>))"
proof -
  let ?h = "small_handle flags_read_write 0"
  let ?c = "\<lparr>out_count = Some 9, buffer = None, handle_ptr = Some \<lparr>poisoned = True, slot = Some ?h\<rparr>, world = mem_empty\<rparr>"
  have r: "count_reset ?c = ?c\<lparr>out_count := Some 0\<rparr>" by (simp add: count_reset_def)
  have "\<exists>msg'. slatedb_file_get_size (\<lambda>_. None) ([], ?c) = (Ok 6, (msg', count_reset ?c))"
    by (rule panic_poisons_handle [of "\<lambda>x. (Panic ''boom'', x)" ?h mem_empty "''boom''" ?h mem_empty
        "\<lparr>poisoned = False, slot = Some ?h\<rparr>" ?c "\<lambda>_. None" mem_slatedb proto_codec "[]" 0 0 0 0,
        THEN conjunct2, THEN conjunct2, THEN conjunct2, THEN conjunct2, THEN conjunct2, THEN conjunct2,
        THEN conjunct2, THEN conjunct2, THEN conjunct2, THEN conjunct2, THEN conjunct1]) simp_all
  then show ?thesis unfolding r by simp
qed

text \<open>C37. Closing a handle is safe to repeat. A close that fails to sync keeps the handle open, so that it can
  be tried again; one that succeeds empties the handle, after which closing it again succeeds without an
  effect.\<close>

theorem close_can_be_repeated:
  assumes "close_slot S P (Some fh, s) = (r, (hp, s'))" and "\<not> poisoned fh" and "slot fh = Some h"
    and "fh_close S P (h, s) = (q, (h', s1))" and "\<forall>p. q \<noteq> Panic p"
  shows "s' = s1 \<and> r = q \<and> hp = Some (fh\<lparr>slot := (if q = Ok () then None else Some h')\<rparr>) \<and>
    (q = Ok () \<longrightarrow> close_slot S P (hp, s') = (Ok (), (hp, s')))"
  using close_slot_spec [OF assms] close_slot_again [of "fh\<lparr>slot := None\<rparr>" S P s'] assms(2) by auto

theorem close_can_be_repeated_witness:
  "\<exists>hp s'. close_slot mem_slatedb proto_codec (Some \<lparr>poisoned = False, slot = Some (small_handle flags_read_write 0)\<rparr>, mem_empty)
       = (Ok (), (hp, s')) \<and> close_slot mem_slatedb proto_codec (hp, s') = (Ok (), (hp, s'))"
proof -
  let ?h = "small_handle flags_read_write 0" and ?fh = "\<lparr>poisoned = False, slot = Some (small_handle flags_read_write 0)\<rparr>"
  obtain r hp s' where run: "close_slot mem_slatedb proto_codec (Some ?fh, mem_empty) = (r, (hp, s'))" by (metis prod.collapse)
  have "fst (fh_close mem_slatedb proto_codec (?h, mem_empty)) = Ok ()" by code_simp
  from run_obtain [OF this] obtain h' s1 where cl: "fh_close mem_slatedb proto_codec (?h, mem_empty) = (Ok (), (h', s1))"
    by (elim exE)
  from close_can_be_repeated [OF run _ _ cl] run show ?thesis by auto
qed

end
