(* ===== verification/Object_Store.thy ===== *)
theory Object_Store
  imports Errors
begin

text \<open>
  The object store SlateDB works on (\<open>rust/src/slatedb_object_store.rs\<close>): OpenDAL's store with one
  correction. OpenDAL reports every failed condition of a conditional read as \<open>Precondition\<close>; SlateDB
  expects \<open>NotModified\<close> where the condition was a negative one. The inner store is OpenDAL's and a record
  of its calls; error variants the source does not name are \<open>OtherStoreError\<close>, options it does not
  inspect are opaque.
\<close>

datatype 'e object_store_error =
  Precondition string string
| NotModified string string
| OtherStoreError 'e

record 'a get_options =
  if_match :: "string option"
  if_none_match :: "string option"
  if_modified_since :: "int option"
  if_unmodified_since :: "int option"
  get_rest :: 'a

record ('w, 'e, 'a, 'v) object_store =
  os_put_opts :: "path \<Rightarrow> bytes \<Rightarrow> 'a \<Rightarrow> 'w \<Rightarrow> ('e object_store_error + 'v) \<times> 'w"
  os_put_multipart_opts :: "path \<Rightarrow> 'a \<Rightarrow> 'w \<Rightarrow> ('e object_store_error + 'v) \<times> 'w"
  os_get_opts :: "path \<Rightarrow> 'a get_options \<Rightarrow> 'w \<Rightarrow> ('e object_store_error + 'v) \<times> 'w"
  os_delete_stream :: "('e object_store_error + path) list \<Rightarrow> 'w \<Rightarrow> ('e object_store_error + path) list \<times> 'w"
  os_list :: "path option \<Rightarrow> 'w \<Rightarrow> ('e object_store_error + 'v) list \<times> 'w"
  os_list_with_delimiter :: "path option \<Rightarrow> 'w \<Rightarrow> ('e object_store_error + 'v) \<times> 'w"
  os_copy_opts :: "path \<Rightarrow> path \<Rightarrow> 'a \<Rightarrow> 'w \<Rightarrow> ('e object_store_error + unit) \<times> 'w"

fun map_conditional_get_result ::
  "'e object_store_error + 'v \<Rightarrow> bool \<Rightarrow> 'e object_store_error + 'v" where
  "map_conditional_get_result (Inl (Precondition p src)) not_modified =
     (if not_modified then Inl (NotModified p src) else Inl (Precondition p src))"
| "map_conditional_get_result r _ = r"

definition store_get_opts ::
  "('w, 'e, 'a, 'v) object_store \<Rightarrow> path \<Rightarrow> 'a get_options \<Rightarrow> 'w \<Rightarrow> ('e object_store_error + 'v) \<times> 'w" where
  "store_get_opts Z location options w =
     (let not_modified = if_match options = None \<and> if_unmodified_since options = None \<and>
            (if_none_match options \<noteq> None \<or> if_modified_since options \<noteq> None)
      in case os_get_opts Z location options w of (r, w') \<Rightarrow> (map_conditional_get_result r not_modified, w'))"

text \<open>The other operations pass their arguments on.\<close>

definition slatedb_object_store_new :: "('w, 'e, 'a, 'v) object_store \<Rightarrow> ('w, 'e, 'a, 'v) object_store" where
  "slatedb_object_store_new Z =
     \<lparr>os_put_opts = (\<lambda>location payload options. os_put_opts Z location payload options),
      os_put_multipart_opts = (\<lambda>location options. os_put_multipart_opts Z location options),
      os_get_opts = (\<lambda>location options. store_get_opts Z location options),
      os_delete_stream = (\<lambda>locations. os_delete_stream Z locations),
      os_list = (\<lambda>pre. os_list Z pre),
      os_list_with_delimiter = (\<lambda>pre. os_list_with_delimiter Z pre),
      os_copy_opts = (\<lambda>from to options. os_copy_opts Z from to options)\<rparr>"

section \<open>Conditional reads\<close>

text \<open>
  The conditions of a read. A positive condition guards against a change (412 Precondition Failed), a
  negative one asks whether there was one (304 Not Modified). The answer of the inner store does not say
  which condition failed, so where both kinds are given the wrapper keeps \<open>Precondition\<close>.
\<close>

datatype get_condition = IfMatch string | IfUnmodifiedSince int | IfNoneMatch string | IfModifiedSince int

definition given_conditions :: "'a get_options \<Rightarrow> get_condition set" where
  "given_conditions options =
     IfMatch ` set_option (if_match options) \<union> IfUnmodifiedSince ` set_option (if_unmodified_since options)
     \<union> IfNoneMatch ` set_option (if_none_match options) \<union> IfModifiedSince ` set_option (if_modified_since options)"

fun negative :: "get_condition \<Rightarrow> bool" where
  "negative (IfNoneMatch _) = True"
| "negative (IfModifiedSince _) = True"
| "negative _ = False"

lemma not_modified_conditions:
  "(if_match options = None \<and> if_unmodified_since options = None \<and>
     (if_none_match options \<noteq> None \<or> if_modified_since options \<noteq> None))
   \<longleftrightarrow> given_conditions options \<noteq> {} \<and> (\<forall>c \<in> given_conditions options. negative c)"
  by (cases "if_match options"; cases "if_unmodified_since options"; cases "if_none_match options";
      cases "if_modified_since options") (simp_all add: given_conditions_def)

text \<open>
  Let the inner store fail with \<open>Precondition\<close> exactly when a given condition fails. Then the wrapper
  reports \<open>NotModified\<close> when one failed and all are negative, \<open>Precondition\<close> when one failed and a positive
  one is among them, and every other answer as it is.
\<close>

lemma get_opts_conditions:
  assumes inner: "os_get_opts Z location options w = (r, w')"
    and fails: "(\<exists>p src. r = Inl (Precondition p src)) \<longleftrightarrow> (\<exists>c \<in> given_conditions options. failed c)"
    and plain: "\<forall>p src. r \<noteq> Inl (NotModified p src)"
    and out: "store_get_opts Z location options w = (r', w'')"
  shows "w'' = w'"
    and "(\<exists>p src. r' = Inl (NotModified p src)) \<longleftrightarrow>
      (\<exists>c \<in> given_conditions options. failed c) \<and> (\<forall>c \<in> given_conditions options. negative c)"
    and "(\<exists>p src. r' = Inl (Precondition p src)) \<longleftrightarrow>
      (\<exists>c \<in> given_conditions options. failed c) \<and> (\<exists>c \<in> given_conditions options. \<not> negative c)"
    and "\<not> (\<exists>c \<in> given_conditions options. failed c) \<Longrightarrow> r' = r"
proof -
  let ?nm = "given_conditions options \<noteq> {} \<and> (\<forall>c \<in> given_conditions options. negative c)"
  have r': "r' = map_conditional_get_result r ?nm" and "w'' = w'"
    using out unfolding store_get_opts_def not_modified_conditions inner by (simp_all add: Let_def)
  show "w'' = w'" by fact
  show "(\<exists>p src. r' = Inl (NotModified p src)) \<longleftrightarrow>
      (\<exists>c \<in> given_conditions options. failed c) \<and> (\<forall>c \<in> given_conditions options. negative c)"
    unfolding r' fails [symmetric] using plain fails
    by (cases "(r, ?nm)" rule: map_conditional_get_result.cases) auto
  show "(\<exists>p src. r' = Inl (Precondition p src)) \<longleftrightarrow>
      (\<exists>c \<in> given_conditions options. failed c) \<and> (\<exists>c \<in> given_conditions options. \<not> negative c)"
    unfolding r' fails [symmetric] using fails
    by (cases "(r, ?nm)" rule: map_conditional_get_result.cases) auto
  show "r' = r" if "\<not> (\<exists>c \<in> given_conditions options. failed c)"
    unfolding r' using that fails by (cases "(r, ?nm)" rule: map_conditional_get_result.cases) auto
qed

end
