(* ===== verification/Io_Metrics.thy ===== *)
theory Io_Metrics
  imports Errors Complex_Main
begin

text \<open>
  The latency statistics of the storage requests (\<open>rust/src/io_metrics.rs\<close>): a running mean and a running
  sum of squared deviations per kind of request, each behind a mutex. The source computes in \<open>f64\<close>; the
  operations of the number type are a record \<open>f64_ops\<close>, so that the algorithm is written once, and its
  correctness is shown at \<open>exact_ops\<close>, the same algorithm over the reals. The rounding of \<open>f64\<close> is not
  modelled. A \<open>Duration\<close> is a number of nanoseconds.
\<close>

type_synonym duration = nat

record 'f f64_ops =
  f_zero :: 'f
  f_add :: "'f \<Rightarrow> 'f \<Rightarrow> 'f"
  f_sub :: "'f \<Rightarrow> 'f \<Rightarrow> 'f"
  f_mul :: "'f \<Rightarrow> 'f \<Rightarrow> 'f"
  f_div :: "'f \<Rightarrow> 'f \<Rightarrow> 'f"
  f_max :: "'f \<Rightarrow> 'f \<Rightarrow> 'f"
  f_sqrt :: "'f \<Rightarrow> 'f"
  f_of_u64 :: "u64 \<Rightarrow> 'f"
  as_secs_f64 :: "duration \<Rightarrow> 'f"
  from_secs_f64 :: "'f \<Rightarrow> duration outcome"

record io_operation_stats =
  request_count :: u64
  stat_bytes :: u64
  average_latency :: duration
  stddev_latency :: duration

record io_stats =
  ios_read :: io_operation_stats
  ios_write :: io_operation_stats
  ios_stat :: io_operation_stats
  ios_delete :: io_operation_stats
  ios_list :: io_operation_stats

record 'f running_stats =
  rs_count :: u64
  rs_bytes :: u64
  rs_mean :: 'f
  rs_squared_deviation_sum :: 'f

definition running_stats_default :: "'f f64_ops \<Rightarrow> 'f running_stats" where
  "running_stats_default F = \<lparr>rs_count = 0, rs_bytes = 0, rs_mean = f_zero F, rs_squared_deviation_sum = f_zero F\<rparr>"

definition running_record :: "'f f64_ops \<Rightarrow> duration \<Rightarrow> u64 \<Rightarrow> 'f running_stats \<Rightarrow> 'f running_stats" where
  "running_record F d n rs =
     (let latency = as_secs_f64 F d;
          cnt = u64_add (rs_count rs) 1;
          delta = f_sub F latency (rs_mean rs);
          mean = f_add F (rs_mean rs) (f_div F delta (f_of_u64 F cnt));
          delta_after_mean_update = f_sub F latency mean
      in \<lparr>rs_count = cnt, rs_bytes = u64_add (rs_bytes rs) n, rs_mean = mean,
          rs_squared_deviation_sum = f_add F (rs_squared_deviation_sum rs) (f_mul F delta delta_after_mean_update)\<rparr>)"

text \<open>\<open>Duration::from_secs_f64\<close> panics on a negative number and on one that is too large.\<close>

definition running_snapshot :: "'f f64_ops \<Rightarrow> 'f running_stats \<Rightarrow> io_operation_stats outcome" where
  "running_snapshot F rs =
     (let variance = (if rs_count rs = 0 then f_zero F
            else f_max F (f_div F (rs_squared_deviation_sum rs) (f_of_u64 F (rs_count rs))) (f_zero F))
      in o_bind (from_secs_f64 F (rs_mean rs)) (\<lambda>average.
         o_bind (from_secs_f64 F (f_sqrt F variance)) (\<lambda>stddev.
         Ok \<lparr>request_count = rs_count rs, stat_bytes = rs_bytes rs, average_latency = average, stddev_latency = stddev\<rparr>)))"

section \<open>The mutexes\<close>

record 'a mutex =
  m_inner :: 'a
  m_poisoned :: bool

text \<open>The guard is taken whether the mutex is poisoned or not; a panic under it poisons the mutex.\<close>

definition lock_or_recover :: "('a, 'b) io \<Rightarrow> ('a mutex, 'b) io" where
  "lock_or_recover m = (\<lambda>mx. case m (m_inner mx) of
     (Panic p, x) \<Rightarrow> (Panic p, \<lparr>m_inner = x, m_poisoned = True\<rparr>)
   | (r, x) \<Rightarrow> (r, mx\<lparr>m_inner := x\<rparr>))"

record 'f io_metrics =
  mt_read :: "'f running_stats mutex"
  mt_write :: "'f running_stats mutex"
  mt_stat :: "'f running_stats mutex"
  mt_delete :: "'f running_stats mutex"
  mt_list :: "'f running_stats mutex"

definition io_metrics_default :: "'f f64_ops \<Rightarrow> 'f io_metrics" where
  "io_metrics_default F =
     (let empty = \<lparr>m_inner = running_stats_default F, m_poisoned = False\<rparr>
      in \<lparr>mt_read = empty, mt_write = empty, mt_stat = empty, mt_delete = empty, mt_list = empty\<rparr>)"

definition locked_record :: "'f f64_ops \<Rightarrow> duration \<Rightarrow> u64 \<Rightarrow> 'f running_stats mutex \<Rightarrow> 'f running_stats mutex" where
  "locked_record F d n mx = snd (lock_or_recover (\<lambda>rs. (Ok (), running_record F d n rs)) mx)"

definition record_read :: "'f f64_ops \<Rightarrow> duration \<Rightarrow> u64 \<Rightarrow> 'f io_metrics \<Rightarrow> 'f io_metrics" where
  "record_read F d n ms = ms\<lparr>mt_read := locked_record F d n (mt_read ms)\<rparr>"

definition record_write :: "'f f64_ops \<Rightarrow> duration \<Rightarrow> u64 \<Rightarrow> 'f io_metrics \<Rightarrow> 'f io_metrics" where
  "record_write F d n ms = ms\<lparr>mt_write := locked_record F d n (mt_write ms)\<rparr>"

definition record_stat :: "'f f64_ops \<Rightarrow> duration \<Rightarrow> 'f io_metrics \<Rightarrow> 'f io_metrics" where
  "record_stat F d ms = ms\<lparr>mt_stat := locked_record F d 0 (mt_stat ms)\<rparr>"

definition record_delete :: "'f f64_ops \<Rightarrow> duration \<Rightarrow> 'f io_metrics \<Rightarrow> 'f io_metrics" where
  "record_delete F d ms = ms\<lparr>mt_delete := locked_record F d 0 (mt_delete ms)\<rparr>"

definition record_list :: "'f f64_ops \<Rightarrow> duration \<Rightarrow> 'f io_metrics \<Rightarrow> 'f io_metrics" where
  "record_list F d ms = ms\<lparr>mt_list := locked_record F d 0 (mt_list ms)\<rparr>"

text \<open>The five snapshots in the order of the source, each under its own guard.\<close>

definition locked_snapshot :: "'f f64_ops \<Rightarrow> ('f running_stats mutex, io_operation_stats) io" where
  "locked_snapshot F = lock_or_recover (\<lambda>rs. (running_snapshot F rs, rs))"

definition io_field :: "('s \<Rightarrow> 'a) \<Rightarrow> (('a \<Rightarrow> 'a) \<Rightarrow> 's \<Rightarrow> 's) \<Rightarrow> ('a, 'b) io \<Rightarrow> ('s, 'b) io" where
  "io_field get upd m = (\<lambda>s. case m (get s) of (r, a) \<Rightarrow> (r, upd (\<lambda>_. a) s))"

definition metrics_snapshot :: "'f f64_ops \<Rightarrow> ('f io_metrics, io_stats) io" where
  "metrics_snapshot F =
     io_bind (io_field mt_read mt_read_update (locked_snapshot F)) (\<lambda>rd.
     io_bind (io_field mt_write mt_write_update (locked_snapshot F)) (\<lambda>wr.
     io_bind (io_field mt_stat mt_stat_update (locked_snapshot F)) (\<lambda>st.
     io_bind (io_field mt_delete mt_delete_update (locked_snapshot F)) (\<lambda>dl.
     io_bind (io_field mt_list mt_list_update (locked_snapshot F)) (\<lambda>ls.
     io_return \<lparr>ios_read = rd, ios_write = wr, ios_stat = st, ios_delete = dl, ios_list = ls\<rparr>)))))"

section \<open>Exact arithmetic\<close>

text \<open>\<open>Duration::from_secs_f64\<close> rounds to the nearest nanosecond, ties to the even one.\<close>

definition round_half_even :: "real \<Rightarrow> int" where
  "round_half_even x = (if frac x = 1 / 2 \<and> even \<lfloor>x\<rfloor> then \<lfloor>x\<rfloor> else round x)"

lemma round_half_even_int [simp]: "round_half_even (of_int n) = n"
  by (simp add: round_half_even_def)

lemma round_half_even_nat [simp]:
  "round_half_even (real n) = int n" "round_half_even (numeral k) = numeral k" "round_half_even 1 = 1" "round_half_even 0 = 0"
  using round_half_even_int [of "int n"] round_half_even_int [of "numeral k"] round_half_even_int [of 1]
    round_half_even_int [of 0] by simp_all

definition exact_ops :: "real f64_ops" where
  "exact_ops = \<lparr>f_zero = 0, f_add = (+), f_sub = (-), f_mul = (*), f_div = (/), f_max = max, f_sqrt = sqrt,
     f_of_u64 = real, as_secs_f64 = (\<lambda>d. real d / 10 ^ 9),
     from_secs_f64 = (\<lambda>x. if x < 0 then Panic ''cannot convert float seconds to Duration: value is negative''
       else if 2 ^ 64 \<le> x then Panic ''cannot convert float seconds to Duration: value is either too big or NaN''
       else Ok (nat (round_half_even (x * 10 ^ 9))))\<rparr>"

lemma exact_ops_simps [simp]:
  "f_zero exact_ops = 0" "f_add exact_ops = (+)" "f_sub exact_ops = (-)" "f_mul exact_ops = (*)"
  "f_div exact_ops = (/)" "f_max exact_ops = max" "f_sqrt exact_ops = sqrt" "f_of_u64 exact_ops = real"
  "as_secs_f64 exact_ops d = real d / 10 ^ 9"
  by (simp_all add: exact_ops_def)

lemma from_secs_exact:
  "0 \<le> x \<Longrightarrow> x < 2 ^ 64 \<Longrightarrow> from_secs_f64 exact_ops x = Ok (nat (round_half_even (x * 10 ^ 9)))"
  by (simp add: exact_ops_def)

text \<open>The statistics after a list of requests, and the quantities they are meant to be.\<close>

definition record_all :: "'f f64_ops \<Rightarrow> (duration \<times> u64) list \<Rightarrow> 'f running_stats \<Rightarrow> 'f running_stats" where
  "record_all F rs st = fold (\<lambda>(d, n). running_record F d n) rs st"

definition mean_of :: "real list \<Rightarrow> real" where
  "mean_of xs = sum_list xs / real (length xs)"

definition variance_of :: "real list \<Rightarrow> real" where
  "variance_of xs = sum_list (map (\<lambda>x. (x - mean_of xs)\<^sup>2) xs) / real (length xs)"

definition secs :: "(duration \<times> u64) list \<Rightarrow> real list" where
  "secs rs = map (\<lambda>(d, _). real d / 10 ^ 9) rs"

lemma sum_squared_deviations:
  fixes xs :: "real list"
  shows "sum_list (map (\<lambda>x. (x - m)\<^sup>2) xs) = sum_list (map power2 xs) - 2 * m * sum_list xs + real (length xs) * m\<^sup>2"
  by (induction xs) (simp_all add: power2_diff algebra_simps)

text \<open>One step of the algorithm keeps the sums it stands for.\<close>

lemma welford_step:
  fixes x m q c :: real
  assumes "c * m = a" and "q = b - c * m\<^sup>2" and "0 \<le> c"
  defines "m' \<equiv> m + (x - m) / (c + 1)"
  shows "(c + 1) * m' = a + x" and "q + (x - m) * (x - m') = b + x\<^sup>2 - (c + 1) * m'\<^sup>2"
proof -
  define e where "e = (x - m) / (c + 1)"
  have x: "x = m + (c + 1) * e" using assms(3) by (simp add: e_def field_simps)
  have m': "m' = m + e" by (simp add: m'_def e_def)
  show "(c + 1) * m' = a + x" unfolding m' x using assms(1) by (simp add: algebra_simps)
  show "q + (x - m) * (x - m') = b + x\<^sup>2 - (c + 1) * m'\<^sup>2"
    unfolding m' x assms(2) by (simp add: power2_eq_square algebra_simps)
qed

lemma record_all_snoc: "record_all F (rs @ [(d, n)]) st = running_record F d n (record_all F rs st)"
  by (simp add: record_all_def)

lemma welford_sums:
  assumes "length rs < u64_size"
  defines "st \<equiv> record_all exact_ops rs (running_stats_default exact_ops)"
  shows "rs_count st = length rs \<and> real (length rs) * rs_mean st = sum_list (secs rs) \<and>
    rs_squared_deviation_sum st = sum_list (map power2 (secs rs)) - real (length rs) * (rs_mean st)\<^sup>2 \<and>
    rs_bytes st = sum_list (map snd rs) mod u64_size"
  using assms(1) unfolding st_def
proof (induction rs rule: rev_induct)
  case Nil
  show ?case by (simp add: record_all_def running_stats_default_def secs_def)
next
  case (snoc r rs)
  obtain d n where r: "r = (d, n)" by (cases r)
  let ?st = "record_all exact_ops rs (running_stats_default exact_ops)" and ?x = "real d / 10 ^ 9"
  have IH: "rs_count ?st = length rs" "real (length rs) * rs_mean ?st = sum_list (secs rs)"
    "rs_squared_deviation_sum ?st = sum_list (map power2 (secs rs)) - real (length rs) * (rs_mean ?st)\<^sup>2"
    "rs_bytes ?st = sum_list (map snd rs) mod u64_size"
    using snoc by simp_all
  let ?m = "rs_mean ?st" and ?c = "real (length rs)"
  let ?m' = "?m + (?x - ?m) / (?c + 1)"
  have cnt: "u64_add (rs_count ?st) 1 = length rs + 1" using IH(1) snoc.prems by (simp add: u64_add_exact)
  have new: "record_all exact_ops (rs @ [r]) (running_stats_default exact_ops) =
      \<lparr>rs_count = length rs + 1, rs_bytes = u64_add (rs_bytes ?st) n, rs_mean = ?m',
       rs_squared_deviation_sum = rs_squared_deviation_sum ?st + (?x - ?m) * (?x - ?m')\<rparr>"
    unfolding r record_all_snoc running_record_def Let_def cnt exact_ops_simps by (simp add: add.commute)
  have sums: "sum_list (secs (rs @ [r])) = sum_list (secs rs) + ?x"
    "sum_list (map power2 (secs (rs @ [r]))) = sum_list (map power2 (secs rs)) + ?x\<^sup>2"
    "real (length (rs @ [r])) = ?c + 1"
    by (simp_all add: secs_def r)
  have bytes: "u64_add (rs_bytes ?st) n = sum_list (map snd (rs @ [r])) mod u64_size"
    by (simp add: IH(4) u64_add_def r mod_add_left_eq)
  show ?case unfolding new sums using welford_step [OF IH(2,3), of ?x] bytes by simp
qed

text \<open>So the mean and the variance are the ones of the recorded latencies.\<close>

lemma welford_mean_variance:
  assumes "length rs < u64_size" and "rs \<noteq> []"
  defines "st \<equiv> record_all exact_ops rs (running_stats_default exact_ops)"
  shows "rs_mean st = mean_of (secs rs)"
    and "rs_squared_deviation_sum st / real (rs_count st) = variance_of (secs rs)"
proof -
  note w = welford_sums [OF assms(1), folded st_def]
  have n: "real (length rs) \<noteq> 0" using assms(2) by simp
  have len: "length (secs rs) = length rs" by (simp add: secs_def)
  have s: "sum_list (secs rs) = real (length rs) * rs_mean st" using w by simp
  then show m: "rs_mean st = mean_of (secs rs)" using n by (simp add: mean_of_def len field_simps)
  have q: "rs_squared_deviation_sum st = sum_list (map power2 (secs rs)) - real (length rs) * (rs_mean st)\<^sup>2"
    using w by simp
  have "sum_list (map (\<lambda>x. (x - mean_of (secs rs))\<^sup>2) (secs rs)) = rs_squared_deviation_sum st"
    unfolding sum_squared_deviations m [symmetric] s len q by (simp add: power2_eq_square)
  then show "rs_squared_deviation_sum st / real (rs_count st) = variance_of (secs rs)"
    using w by (simp add: variance_of_def len)
qed

text \<open>Both stay in the range of a duration when the latencies do, so that a snapshot cannot panic.\<close>

lemma mean_of_bounds:
  assumes "\<forall>x \<in> set xs. 0 \<le> x \<and> x < b" and "xs \<noteq> []"
  shows "0 \<le> mean_of xs" and "mean_of xs < b"
proof -
  have "0 \<le> sum_list xs" using assms(1) by (intro sum_list_nonneg) auto
  then show "0 \<le> mean_of xs" by (simp add: mean_of_def)
  have "sum_list xs < real (length xs) * b"
    using assms
  proof (induction xs)
    case (Cons x xs)
    then show ?case by (cases "xs = []") (auto simp: algebra_simps intro: add_strict_mono)
  qed simp
  then show "mean_of xs < b" using assms(2) by (simp add: mean_of_def field_simps)
qed

lemma variance_of_bounds:
  assumes "\<forall>x \<in> set xs. 0 \<le> x \<and> x < b" and "xs \<noteq> []"
  shows "0 \<le> variance_of xs" and "sqrt (variance_of xs) < b"
proof -
  have "0 \<le> (\<Sum>x\<leftarrow>xs. (x - mean_of xs)\<^sup>2)" by (intro sum_list_nonneg) auto
  then show "0 \<le> variance_of xs" by (simp add: variance_of_def)
  have b: "0 \<le> b" using assms by (cases xs) auto
  have "variance_of xs = mean_of (map (\<lambda>x. (x - mean_of xs)\<^sup>2) xs)" by (simp add: variance_of_def mean_of_def)
  moreover have "mean_of (map (\<lambda>x. (x - mean_of xs)\<^sup>2) xs) < b\<^sup>2"
  proof (rule mean_of_bounds(2))
    show "\<forall>y \<in> set (map (\<lambda>x. (x - mean_of xs)\<^sup>2) xs). 0 \<le> y \<and> y < b\<^sup>2"
      using assms mean_of_bounds [OF assms] by (auto simp: abs_square_less_1 intro!: power2_strict_mono)
  qed (use assms in simp)
  ultimately have "variance_of xs < b\<^sup>2" by simp
  then show "sqrt (variance_of xs) < b" using b real_sqrt_less_mono by fastforce
qed

lemma snapshot_exact:
  assumes "length rs < u64_size" and "\<forall>(d, n) \<in> set rs. d < 2 ^ 64 * 10 ^ 9"
  defines "st \<equiv> record_all exact_ops rs (running_stats_default exact_ops)"
  shows "running_snapshot exact_ops st = Ok \<lparr>request_count = length rs, stat_bytes = sum_list (map snd rs) mod u64_size,
    average_latency = nat (round_half_even (mean_of (secs rs) * 10 ^ 9)),
    stddev_latency = nat (round_half_even (sqrt (variance_of (secs rs)) * 10 ^ 9))\<rparr>"
proof (cases "rs = []")
  case True
  then show ?thesis
    using from_secs_exact [of 0]
    by (simp add: st_def record_all_def running_stats_default_def running_snapshot_def secs_def mean_of_def variance_of_def)
next
  case False
  have bounds: "\<forall>x \<in> set (secs rs). 0 \<le> x \<and> x < 2 ^ 64"
  proof
    fix x assume "x \<in> set (secs rs)"
    then obtain d n where "(d, n) \<in> set rs" and x: "x = real d / 10 ^ 9" by (auto simp: secs_def)
    with assms(2) have "d < 2 ^ 64 * 10 ^ 9" by auto
    then have "real d < real (2 ^ 64 * 10 ^ 9)" by (simp only: of_nat_less_iff)
    then show "0 \<le> x \<and> x < 2 ^ 64" by (simp add: x)
  qed
  have ne: "secs rs \<noteq> []" using False by (simp add: secs_def)
  note w = welford_sums [OF assms(1), folded st_def]
  note mv = welford_mean_variance [OF assms(1) False, folded st_def]
  note mb = mean_of_bounds [OF bounds ne] and vb = variance_of_bounds [OF bounds ne]
  have sd: "from_secs_f64 exact_ops (sqrt (variance_of (secs rs))) = Ok (nat (round_half_even (sqrt (variance_of (secs rs)) * 10 ^ 9)))"
    using vb by (intro from_secs_exact) auto
  have count: "rs_count st = length rs" "rs_bytes st = sum_list (map snd rs) mod u64_size" using w by simp_all
  then have "rs_count st \<noteq> 0" using False by simp
  moreover have "max (variance_of (secs rs)) 0 = variance_of (secs rs)" using vb(1) by simp
  ultimately have "running_snapshot exact_ops st = Ok \<lparr>request_count = rs_count st, stat_bytes = rs_bytes st,
    average_latency = nat (round_half_even (mean_of (secs rs) * 10 ^ 9)),
    stddev_latency = nat (round_half_even (sqrt (variance_of (secs rs)) * 10 ^ 9))\<rparr>"
    by (simp only: running_snapshot_def Let_def exact_ops_simps mv sd from_secs_exact [OF mb] if_False o_bind_simps)
  with count show ?thesis by simp
qed

section \<open>Poisoning\<close>

text \<open>A poisoned mutex behaves like any other.\<close>

lemma lock_ignores_poison:
  "fst (lock_or_recover m (mx\<lparr>m_poisoned := b\<rparr>)) = fst (lock_or_recover m mx)"
  "m_inner (snd (lock_or_recover m (mx\<lparr>m_poisoned := b\<rparr>))) = m_inner (snd (lock_or_recover m mx))"
  by (auto simp: lock_or_recover_def split: prod.splits outcome.splits)

lemma locked_record_inner [simp]:
  "m_inner (locked_record F d n mx) = running_record F d n (m_inner mx)"
  "m_poisoned (locked_record F d n mx) = m_poisoned mx"
  by (simp_all add: locked_record_def lock_or_recover_def)

end
