(* ===== verification/Ffi_Stats.thy ===== *)
theory Ffi_Stats
  imports Ffi_Spec Io_Metrics
begin

text \<open>
  The statistics entry points of the C ABI (\<open>rust/src/ffi.rs\<close>). The metrics of SlateDB are a lookup, the
  measurements of the storage requests are shared with the OpenDAL layer and part of the state of the
  call. An output pointer is an \<open>option\<close>, \<open>None\<close> being null.
\<close>

record ffi_cache_stats =
  fc_block_cache_hits :: u64
  fc_block_cache_misses :: u64
  fc_metadata_cache_hits :: u64
  fc_metadata_cache_misses :: u64
  fc_persistent_cache_hits :: u64
  fc_persistent_cache_misses :: u64
  fc_persistent_cache_entries :: u64
  fc_persistent_cache_size_bytes :: u64
  fc_persistent_cache_evictions :: u64
  fc_persistent_cache_evicted_bytes :: u64

record 'f ffi_io_stats =
  fi_read_request_count :: u64
  fi_read_average_latency_ms :: 'f
  fi_read_stddev_latency_ms :: 'f
  fi_write_request_count :: u64
  fi_write_average_latency_ms :: 'f
  fi_write_stddev_latency_ms :: 'f
  fi_stat_request_count :: u64
  fi_stat_average_latency_ms :: 'f
  fi_stat_stddev_latency_ms :: 'f
  fi_delete_request_count :: u64
  fi_delete_average_latency_ms :: 'f
  fi_delete_stddev_latency_ms :: 'f
  fi_list_request_count :: u64
  fi_list_average_latency_ms :: 'f
  fi_list_stddev_latency_ms :: 'f
  fi_read_bytes :: u64
  fi_write_bytes :: u64

record ('db, 'rd, 'f, 'o) stats_call =
  sc_fs :: "('db, 'rd) file_system option"
  sc_output :: "'o option"
  sc_io_metrics :: "'f io_metrics"

definition duration_as_milliseconds :: "'f f64_ops \<Rightarrow> duration \<Rightarrow> 'f" where
  "duration_as_milliseconds F d =
     f_add F (f_mul F (f_of_u64 F (d div 10 ^ 9)) (f_of_u64 F 1000))
       (f_div F (f_of_u64 F (d mod 10 ^ 9)) (f_of_u64 F 1000000))"

definition checked_pointers :: "string \<Rightarrow> (('db, 'rd, 'f, 'o) stats_call, unit) io" where
  "checked_pointers name =
     io_bind io_get (\<lambda>c.
     io_bind (io_lift (require_ptr ''filesystem pointer must not be null'' (sc_fs c))) (\<lambda>_.
     io_bind (io_lift (require_ptr (name @ '' must not be null'') (sc_output c))) (\<lambda>_. io_return ())))"

definition slatedb_fs_get_cache_stats ::
  "(error \<Rightarrow> string option) \<Rightarrow> metrics \<Rightarrow> (string \<times> ('db, 'rd, 'f, ffi_cache_stats) stats_call, int) io" where
  "slatedb_fs_get_cache_stats loc recorder = ffi_result loc (
     io_bind (checked_pointers ''cache stats output'') (\<lambda>_.
     io_bind io_get (\<lambda>c.
     let stats = cache_stats recorder in
     io_put (c\<lparr>sc_output := Some
       \<lparr>fc_block_cache_hits = st_block_cache_hits stats,
        fc_block_cache_misses = st_block_cache_misses stats,
        fc_metadata_cache_hits = st_metadata_cache_hits stats,
        fc_metadata_cache_misses = st_metadata_cache_misses stats,
        fc_persistent_cache_hits = st_persistent_cache_hits stats,
        fc_persistent_cache_misses = st_persistent_cache_misses stats,
        fc_persistent_cache_entries = st_persistent_cache_entries stats,
        fc_persistent_cache_size_bytes = st_persistent_cache_size_bytes stats,
        fc_persistent_cache_evictions = st_persistent_cache_evictions stats,
        fc_persistent_cache_evicted_bytes = st_persistent_cache_evicted_bytes stats\<rparr>\<rparr>))))"

definition to_ffi_io_stats :: "'f f64_ops \<Rightarrow> io_stats \<Rightarrow> 'f ffi_io_stats" where
  "to_ffi_io_stats F stats =
     \<lparr>fi_read_request_count = request_count (ios_read stats),
      fi_read_average_latency_ms = duration_as_milliseconds F (average_latency (ios_read stats)),
      fi_read_stddev_latency_ms = duration_as_milliseconds F (stddev_latency (ios_read stats)),
      fi_write_request_count = request_count (ios_write stats),
      fi_write_average_latency_ms = duration_as_milliseconds F (average_latency (ios_write stats)),
      fi_write_stddev_latency_ms = duration_as_milliseconds F (stddev_latency (ios_write stats)),
      fi_stat_request_count = request_count (ios_stat stats),
      fi_stat_average_latency_ms = duration_as_milliseconds F (average_latency (ios_stat stats)),
      fi_stat_stddev_latency_ms = duration_as_milliseconds F (stddev_latency (ios_stat stats)),
      fi_delete_request_count = request_count (ios_delete stats),
      fi_delete_average_latency_ms = duration_as_milliseconds F (average_latency (ios_delete stats)),
      fi_delete_stddev_latency_ms = duration_as_milliseconds F (stddev_latency (ios_delete stats)),
      fi_list_request_count = request_count (ios_list stats),
      fi_list_average_latency_ms = duration_as_milliseconds F (average_latency (ios_list stats)),
      fi_list_stddev_latency_ms = duration_as_milliseconds F (stddev_latency (ios_list stats)),
      fi_read_bytes = stat_bytes (ios_read stats),
      fi_write_bytes = stat_bytes (ios_write stats)\<rparr>"

definition slatedb_fs_get_io_stats ::
  "(error \<Rightarrow> string option) \<Rightarrow> 'f f64_ops \<Rightarrow> (string \<times> ('db, 'rd, 'f, 'f ffi_io_stats) stats_call, int) io" where
  "slatedb_fs_get_io_stats loc F = ffi_result loc (
     io_bind (checked_pointers ''I/O stats output'') (\<lambda>_.
     io_bind (io_field sc_io_metrics sc_io_metrics_update (metrics_snapshot F)) (\<lambda>stats.
     io_bind io_get (\<lambda>c. io_put (c\<lparr>sc_output := Some (to_ffi_io_stats F stats)\<rparr>)))))"

section \<open>What a caller reads\<close>

text \<open>A run of requests of all kinds, in the order in which the layer records them.\<close>

datatype request = ReadReq duration u64 | WriteReq duration u64 | StatReq duration | DeleteReq duration | ListReq duration

fun record_request :: "'f f64_ops \<Rightarrow> request \<Rightarrow> 'f io_metrics \<Rightarrow> 'f io_metrics" where
  "record_request F (ReadReq d n) ms = record_read F d n ms"
| "record_request F (WriteReq d n) ms = record_write F d n ms"
| "record_request F (StatReq d) ms = record_stat F d ms"
| "record_request F (DeleteReq d) ms = record_delete F d ms"
| "record_request F (ListReq d) ms = record_list F d ms"

definition reads_of :: "request list \<Rightarrow> (duration \<times> u64) list" where
  "reads_of qs = concat (map (\<lambda>q. case q of ReadReq d n \<Rightarrow> [(d, n)] | _ \<Rightarrow> []) qs)"

definition writes_of :: "request list \<Rightarrow> (duration \<times> u64) list" where
  "writes_of qs = concat (map (\<lambda>q. case q of WriteReq d n \<Rightarrow> [(d, n)] | _ \<Rightarrow> []) qs)"

definition stats_of :: "request list \<Rightarrow> (duration \<times> u64) list" where
  "stats_of qs = concat (map (\<lambda>q. case q of StatReq d \<Rightarrow> [(d, 0)] | _ \<Rightarrow> []) qs)"

definition deletes_of :: "request list \<Rightarrow> (duration \<times> u64) list" where
  "deletes_of qs = concat (map (\<lambda>q. case q of DeleteReq d \<Rightarrow> [(d, 0)] | _ \<Rightarrow> []) qs)"

definition lists_of :: "request list \<Rightarrow> (duration \<times> u64) list" where
  "lists_of qs = concat (map (\<lambda>q. case q of ListReq d \<Rightarrow> [(d, 0)] | _ \<Rightarrow> []) qs)"

lemmas kinds_defs = reads_of_def writes_of_def stats_of_def deletes_of_def lists_of_def

fun latency :: "request \<Rightarrow> duration" where
  "latency (ReadReq d _) = d" | "latency (WriteReq d _) = d" | "latency (StatReq d) = d"
| "latency (DeleteReq d) = d" | "latency (ListReq d) = d"

lemma kinds_length:
  "length (reads_of qs) \<le> length qs" "length (writes_of qs) \<le> length qs" "length (stats_of qs) \<le> length qs"
  "length (deletes_of qs) \<le> length qs" "length (lists_of qs) \<le> length qs"
  unfolding kinds_defs by (induction qs) (auto split: request.split)

lemma kinds_latency:
  assumes "\<forall>q \<in> set qs. latency q < b"
  shows "\<forall>(d, n) \<in> set (reads_of qs). d < b" "\<forall>(d, n) \<in> set (writes_of qs). d < b"
    "\<forall>(d, n) \<in> set (stats_of qs). d < b" "\<forall>(d, n) \<in> set (deletes_of qs). d < b"
    "\<forall>(d, n) \<in> set (lists_of qs). d < b"
  unfolding kinds_defs using assms by (auto split: request.splits)

text \<open>Each kind of request changes its own statistics only.\<close>

lemma record_requests_inner:
  fixes F :: "'f f64_ops" and ms :: "'f io_metrics"
  defines "after qs \<equiv> fold (record_request F) qs ms"
  shows "m_inner (mt_read (after qs)) = record_all F (reads_of qs) (m_inner (mt_read ms))"
    and "m_inner (mt_write (after qs)) = record_all F (writes_of qs) (m_inner (mt_write ms))"
    and "m_inner (mt_stat (after qs)) = record_all F (stats_of qs) (m_inner (mt_stat ms))"
    and "m_inner (mt_delete (after qs)) = record_all F (deletes_of qs) (m_inner (mt_delete ms))"
    and "m_inner (mt_list (after qs)) = record_all F (lists_of qs) (m_inner (mt_list ms))"
  unfolding after_def kinds_defs record_all_def
  by (induction qs arbitrary: ms)
    (auto simp: record_read_def record_write_def record_stat_def record_delete_def record_list_def split: request.split)

lemma io_field_snapshot:
  assumes "running_snapshot F (m_inner (get s)) = Ok st" and "upd (\<lambda>_. get s) s = s"
  shows "io_field get upd (locked_snapshot F) s = (Ok st, s)"
  using assms by (simp add: io_field_def locked_snapshot_def lock_or_recover_def)

lemma metrics_snapshot_Ok:
  assumes "running_snapshot F (m_inner (mt_read ms)) = Ok rd" and "running_snapshot F (m_inner (mt_write ms)) = Ok wr"
    and "running_snapshot F (m_inner (mt_stat ms)) = Ok st" and "running_snapshot F (m_inner (mt_delete ms)) = Ok dl"
    and "running_snapshot F (m_inner (mt_list ms)) = Ok ls"
  shows "metrics_snapshot F ms =
    (Ok \<lparr>ios_read = rd, ios_write = wr, ios_stat = st, ios_delete = dl, ios_list = ls\<rparr>, ms)"
  using assms by (simp add: metrics_snapshot_def io_field_snapshot)

text \<open>Over the reals, the milliseconds of a duration are its nanoseconds scaled.\<close>

lemma milliseconds_exact: "duration_as_milliseconds exact_ops d = real d / 10 ^ 6"
proof -
  have "real d = real (d div 10 ^ 9 * 10 ^ 9 + d mod 10 ^ 9)" by (simp only: div_mult_mod_eq)
  also have "\<dots> = real (d div 10 ^ 9) * 10 ^ 9 + real (d mod 10 ^ 9)"
    by (simp only: of_nat_add of_nat_mult of_nat_power of_nat_numeral)
  finally show ?thesis by (simp add: duration_as_milliseconds_def field_simps)
qed

definition operation_stats :: "(duration \<times> u64) list \<Rightarrow> io_operation_stats" where
  "operation_stats rs = \<lparr>request_count = length rs, stat_bytes = sum_list (map snd rs) mod u64_size,
     average_latency = nat (round_half_even (mean_of (secs rs) * 10 ^ 9)),
     stddev_latency = nat (round_half_even (sqrt (variance_of (secs rs)) * 10 ^ 9))\<rparr>"

definition expected_stats :: "request list \<Rightarrow> io_stats" where
  "expected_stats qs = \<lparr>ios_read = operation_stats (reads_of qs), ios_write = operation_stats (writes_of qs),
     ios_stat = operation_stats (stats_of qs), ios_delete = operation_stats (deletes_of qs),
     ios_list = operation_stats (lists_of qs)\<rparr>"

lemma metrics_default_inner [simp]:
  "m_inner (mt_read (io_metrics_default F)) = running_stats_default F"
  "m_inner (mt_write (io_metrics_default F)) = running_stats_default F"
  "m_inner (mt_stat (io_metrics_default F)) = running_stats_default F"
  "m_inner (mt_delete (io_metrics_default F)) = running_stats_default F"
  "m_inner (mt_list (io_metrics_default F)) = running_stats_default F"
  by (simp_all add: io_metrics_default_def Let_def)

lemma snapshot_after_requests:
  assumes "length qs < u64_size" and "\<forall>q \<in> set qs. latency q < 2 ^ 64 * 10 ^ 9"
  defines "ms \<equiv> fold (record_request exact_ops) qs (io_metrics_default exact_ops)"
  shows "metrics_snapshot exact_ops ms = (Ok (expected_stats qs), ms)"
proof -
  note len = kinds_length [of qs, THEN le_less_trans, OF assms(1)]
  note lat = kinds_latency [OF assms(2)]
  note snap = snapshot_exact [OF len(1) lat(1)] snapshot_exact [OF len(2) lat(2)] snapshot_exact [OF len(3) lat(3)]
    snapshot_exact [OF len(4) lat(4)] snapshot_exact [OF len(5) lat(5)]
  show ?thesis unfolding expected_stats_def operation_stats_def
    by (rule metrics_snapshot_Ok) (simp_all only: ms_def record_requests_inner metrics_default_inner snap)
qed

lemma io_stats_reported:
  assumes "length qs < u64_size" and "\<forall>q \<in> set qs. latency q < 2 ^ 64 * 10 ^ 9"
    and "sc_io_metrics c = fold (record_request exact_ops) qs (io_metrics_default exact_ops)"
    and "sc_fs c \<noteq> None" and "sc_output c \<noteq> None"
  shows "slatedb_fs_get_io_stats loc exact_ops (msg, c)
    = (Ok 0, (msg, c\<lparr>sc_output := Some (to_ffi_io_stats exact_ops (expected_stats qs))\<rparr>))"
proof -
  have "io_field sc_io_metrics sc_io_metrics_update (metrics_snapshot exact_ops) c = (Ok (expected_stats qs), c)"
    using snapshot_after_requests [OF assms(1,2)] assms(3) by (simp add: io_field_def)
  then show ?thesis using assms(4,5)
    by (auto simp: slatedb_fs_get_io_stats_def ffi_result_eq checked_pointers_def require_ptr_def)
qed

end
