(* ===== verification/Io_Metrics_Layer.thy ===== *)
theory Io_Metrics_Layer
  imports Io_Metrics
begin

text \<open>
  The OpenDAL layer that measures requests (\<open>rust/src/opendal_io_metrics_layer.rs\<close>). The service under the
  layer is OpenDAL's: the record \<open>service\<close> holds its calls, over a world \<open>'w\<close> that also has the clock.
  Readers, streams, writers, deleters and listers of the service are opaque handles \<open>'h\<close>, requests and
  responses opaque values \<open>'a\<close> and \<open>'v\<close>, its errors \<open>'e\<close>. The layer shares the metrics with the filesystem, so
  the state of its operations is the world and the metrics.
\<close>

record ('w, 'e, 'v, 'h, 'a) service =
  clock :: "'w \<Rightarrow> nat"
  svc_info :: 'v
  svc_capability :: 'v
  svc_create_dir :: "path \<Rightarrow> 'a \<Rightarrow> 'w \<Rightarrow> ('e + 'v) \<times> 'w"
  svc_stat :: "path \<Rightarrow> 'a \<Rightarrow> 'w \<Rightarrow> ('e + 'v) \<times> 'w"
  svc_read :: "path \<Rightarrow> 'a \<Rightarrow> 'w \<Rightarrow> ('e + 'h) \<times> 'w"
  svc_write :: "path \<Rightarrow> 'a \<Rightarrow> 'w \<Rightarrow> ('e + 'h) \<times> 'w"
  svc_delete :: "'w \<Rightarrow> ('e + 'h) \<times> 'w"
  svc_list :: "path \<Rightarrow> 'a \<Rightarrow> 'w \<Rightarrow> ('e + 'h) \<times> 'w"
  svc_copy :: "path \<Rightarrow> path \<Rightarrow> 'a \<Rightarrow> 'w \<Rightarrow> ('e + 'h) \<times> 'w"
  svc_compose :: "path \<Rightarrow> 'a \<Rightarrow> 'w \<Rightarrow> ('e + 'h) \<times> 'w"
  svc_rename :: "path \<Rightarrow> path \<Rightarrow> 'a \<Rightarrow> 'w \<Rightarrow> ('e + 'v) \<times> 'w"
  svc_restore :: "path \<Rightarrow> 'a \<Rightarrow> 'w \<Rightarrow> ('e + 'v) \<times> 'w"
  svc_presign :: "path \<Rightarrow> 'a \<Rightarrow> 'w \<Rightarrow> ('e + 'v) \<times> 'w"
  oio_open :: "'h \<Rightarrow> 'a \<Rightarrow> 'w \<Rightarrow> ('e + 'v \<times> 'h) \<times> 'w"
  oio_read :: "'h \<Rightarrow> 'a \<Rightarrow> 'w \<Rightarrow> ('e + 'v \<times> bytes) \<times> 'w"
  oio_stream_read :: "'h \<Rightarrow> 'w \<Rightarrow> ('e + bytes) \<times> 'w"
  oio_write :: "'h \<Rightarrow> bytes \<Rightarrow> 'w \<Rightarrow> ('e + unit) \<times> 'w"
  oio_copy_from :: "'h \<Rightarrow> path \<Rightarrow> 'a \<Rightarrow> 'w \<Rightarrow> ('e + unit) \<times> 'w"
  oio_writer_close :: "'h \<Rightarrow> 'w \<Rightarrow> ('e + 'v) \<times> 'w"
  oio_abort :: "'h \<Rightarrow> 'w \<Rightarrow> ('e + unit) \<times> 'w"
  oio_delete :: "'h \<Rightarrow> path \<Rightarrow> 'a \<Rightarrow> 'w \<Rightarrow> ('e + unit) \<times> 'w"
  oio_deleter_close :: "'h \<Rightarrow> 'w \<Rightarrow> ('e + unit) \<times> 'w"
  oio_next :: "'h \<Rightarrow> 'w \<Rightarrow> ('e + 'v option) \<times> 'w"

text \<open>\<open>Instant::elapsed\<close>: the clock is monotone.\<close>

definition elapsed :: "('w, 'e, 'v, 'h, 'a) service \<Rightarrow> nat \<Rightarrow> 'w \<Rightarrow> duration" where
  "elapsed V start w = clock V w - start"

record 'h metrics_stream =
  ms_inner :: 'h
  ms_start :: nat
  ms_bytes :: u64
  ms_recorded :: bool

text \<open>The deleter and the lister count no bytes.\<close>

record 'h metrics_cursor =
  mc_inner :: 'h
  mc_start :: nat
  mc_recorded :: bool

section \<open>The service\<close>

text \<open>Calls the layer only passes on.\<close>

definition pass_on :: "('w \<Rightarrow> 'r \<times> 'w) \<Rightarrow> 'w \<times> 'm \<Rightarrow> 'r \<times> ('w \<times> 'm)" where
  "pass_on f = (\<lambda>(w, ms). case f w of (r, w') \<Rightarrow> (r, (w', ms)))"

definition layer_create_dir :: "('w, 'e, 'v, 'h, 'a) service \<Rightarrow> path \<Rightarrow> 'a \<Rightarrow> 'w \<times> 'm \<Rightarrow> ('e + 'v) \<times> ('w \<times> 'm)" where
  "layer_create_dir V p a = pass_on (svc_create_dir V p a)"

definition layer_copy :: "('w, 'e, 'v, 'h, 'a) service \<Rightarrow> path \<Rightarrow> path \<Rightarrow> 'a \<Rightarrow> 'w \<times> 'm \<Rightarrow> ('e + 'h) \<times> ('w \<times> 'm)" where
  "layer_copy V p q a = pass_on (svc_copy V p q a)"

definition layer_compose :: "('w, 'e, 'v, 'h, 'a) service \<Rightarrow> path \<Rightarrow> 'a \<Rightarrow> 'w \<times> 'm \<Rightarrow> ('e + 'h) \<times> ('w \<times> 'm)" where
  "layer_compose V p a = pass_on (svc_compose V p a)"

definition layer_rename :: "('w, 'e, 'v, 'h, 'a) service \<Rightarrow> path \<Rightarrow> path \<Rightarrow> 'a \<Rightarrow> 'w \<times> 'm \<Rightarrow> ('e + 'v) \<times> ('w \<times> 'm)" where
  "layer_rename V p q a = pass_on (svc_rename V p q a)"

definition layer_restore :: "('w, 'e, 'v, 'h, 'a) service \<Rightarrow> path \<Rightarrow> 'a \<Rightarrow> 'w \<times> 'm \<Rightarrow> ('e + 'v) \<times> ('w \<times> 'm)" where
  "layer_restore V p a = pass_on (svc_restore V p a)"

definition layer_presign :: "('w, 'e, 'v, 'h, 'a) service \<Rightarrow> path \<Rightarrow> 'a \<Rightarrow> 'w \<times> 'm \<Rightarrow> ('e + 'v) \<times> ('w \<times> 'm)" where
  "layer_presign V p a = pass_on (svc_presign V p a)"

definition layer_stat ::
  "'f f64_ops \<Rightarrow> ('w, 'e, 'v, 'h, 'a) service \<Rightarrow> path \<Rightarrow> 'a \<Rightarrow> 'w \<times> 'f io_metrics \<Rightarrow> ('e + 'v) \<times> ('w \<times> 'f io_metrics)" where
  "layer_stat F V p a = (\<lambda>(w, ms). case svc_stat V p a w of (r, w') \<Rightarrow>
     (r, (w', record_stat F (elapsed V (clock V w) w') ms)))"

definition layer_read ::
  "'f f64_ops \<Rightarrow> ('w, 'e, 'v, 'h, 'a) service \<Rightarrow> path \<Rightarrow> 'a \<Rightarrow> 'w \<times> 'f io_metrics \<Rightarrow> ('e + 'h) \<times> ('w \<times> 'f io_metrics)" where
  "layer_read F V p a = (\<lambda>(w, ms). case svc_read V p a w of
     (Inr h, w') \<Rightarrow> (Inr h, (w', ms))
   | (Inl e, w') \<Rightarrow> (Inl e, (w', record_read F (elapsed V (clock V w) w') 0 ms)))"

definition layer_write ::
  "'f f64_ops \<Rightarrow> ('w, 'e, 'v, 'h, 'a) service \<Rightarrow> path \<Rightarrow> 'a \<Rightarrow> 'w \<times> 'f io_metrics
     \<Rightarrow> ('e + 'h metrics_stream) \<times> ('w \<times> 'f io_metrics)" where
  "layer_write F V p a = (\<lambda>(w, ms). case svc_write V p a w of
     (Inr h, w') \<Rightarrow> (Inr \<lparr>ms_inner = h, ms_start = clock V w, ms_bytes = 0, ms_recorded = False\<rparr>, (w', ms))
   | (Inl e, w') \<Rightarrow> (Inl e, (w', record_write F (elapsed V (clock V w) w') 0 ms)))"

definition layer_delete ::
  "'f f64_ops \<Rightarrow> ('w, 'e, 'v, 'h, 'a) service \<Rightarrow> 'w \<times> 'f io_metrics
     \<Rightarrow> ('e + 'h metrics_cursor) \<times> ('w \<times> 'f io_metrics)" where
  "layer_delete F V = (\<lambda>(w, ms). case svc_delete V w of
     (Inr h, w') \<Rightarrow> (Inr \<lparr>mc_inner = h, mc_start = clock V w, mc_recorded = False\<rparr>, (w', ms))
   | (Inl e, w') \<Rightarrow> (Inl e, (w', record_delete F (elapsed V (clock V w) w') ms)))"

definition layer_list ::
  "'f f64_ops \<Rightarrow> ('w, 'e, 'v, 'h, 'a) service \<Rightarrow> path \<Rightarrow> 'a \<Rightarrow> 'w \<times> 'f io_metrics
     \<Rightarrow> ('e + 'h metrics_cursor) \<times> ('w \<times> 'f io_metrics)" where
  "layer_list F V p a = (\<lambda>(w, ms). case svc_list V p a w of
     (Inr h, w') \<Rightarrow> (Inr \<lparr>mc_inner = h, mc_start = clock V w, mc_recorded = False\<rparr>, (w', ms))
   | (Inl e, w') \<Rightarrow> (Inl e, (w', record_list F (elapsed V (clock V w) w') ms)))"

section \<open>Readers\<close>

definition reader_open ::
  "'f f64_ops \<Rightarrow> ('w, 'e, 'v, 'h, 'a) service \<Rightarrow> 'h \<Rightarrow> 'a \<Rightarrow> 'w \<times> 'f io_metrics
     \<Rightarrow> ('e + 'v \<times> 'h metrics_stream) \<times> ('w \<times> 'f io_metrics)" where
  "reader_open F V h rng = (\<lambda>(w, ms). case oio_open V h rng w of
     (Inr (response, stream), w') \<Rightarrow>
       (Inr (response, \<lparr>ms_inner = stream, ms_start = clock V w, ms_bytes = 0, ms_recorded = False\<rparr>), (w', ms))
   | (Inl e, w') \<Rightarrow> (Inl e, (w', record_read F (elapsed V (clock V w) w') 0 ms)))"

definition reader_read ::
  "'f f64_ops \<Rightarrow> ('w, 'e, 'v, 'h, 'a) service \<Rightarrow> 'h \<Rightarrow> 'a \<Rightarrow> 'w \<times> 'f io_metrics
     \<Rightarrow> ('e + 'v \<times> bytes) \<times> ('w \<times> 'f io_metrics)" where
  "reader_read F V h rng = (\<lambda>(w, ms). case oio_read V h rng w of (r, w') \<Rightarrow>
     (r, (w', record_read F (elapsed V (clock V w) w') (case r of Inr (_, buf) \<Rightarrow> length buf | Inl _ \<Rightarrow> 0) ms)))"

section \<open>Recording once\<close>

text \<open>The state of a stream's operation: the stream, the world and the metrics.\<close>

type_synonym ('o, 'w, 'f) wrapped = "'o \<times> ('w \<times> 'f io_metrics)"

definition stream_record_once ::
  "(duration \<Rightarrow> u64 \<Rightarrow> 'f io_metrics \<Rightarrow> 'f io_metrics) \<Rightarrow> ('w, 'e, 'v, 'h, 'a) service
     \<Rightarrow> ('h metrics_stream, 'w, 'f) wrapped \<Rightarrow> ('h metrics_stream, 'w, 'f) wrapped" where
  "stream_record_once rec V = (\<lambda>(st, (w, ms)).
     if \<not> ms_recorded st
     then (st\<lparr>ms_recorded := True\<rparr>, (w, rec (elapsed V (ms_start st) w) (ms_bytes st) ms))
     else (st, (w, ms)))"

definition cursor_record_once ::
  "(duration \<Rightarrow> 'f io_metrics \<Rightarrow> 'f io_metrics) \<Rightarrow> ('w, 'e, 'v, 'h, 'a) service
     \<Rightarrow> ('h metrics_cursor, 'w, 'f) wrapped \<Rightarrow> ('h metrics_cursor, 'w, 'f) wrapped" where
  "cursor_record_once rec V = (\<lambda>(st, (w, ms)).
     if \<not> mc_recorded st
     then (st\<lparr>mc_recorded := True\<rparr>, (w, rec (elapsed V (mc_start st) w) ms))
     else (st, (w, ms)))"

subsection \<open>Read streams\<close>

definition read_stream_drop ::
  "'f f64_ops \<Rightarrow> ('w, 'e, 'v, 'h, 'a) service \<Rightarrow> ('h metrics_stream, 'w, 'f) wrapped \<Rightarrow> ('h metrics_stream, 'w, 'f) wrapped" where
  "read_stream_drop F V = stream_record_once (record_read F) V"

definition read_stream_read ::
  "'f f64_ops \<Rightarrow> ('w, 'e, 'v, 'h, 'a) service \<Rightarrow> ('h metrics_stream, 'w, 'f) wrapped
     \<Rightarrow> ('e + bytes) \<times> ('h metrics_stream, 'w, 'f) wrapped" where
  "read_stream_read F V = (\<lambda>(st, (w, ms)). case oio_stream_read V (ms_inner st) w of (r, w') \<Rightarrow>
     (r, (case r of
        Inr buf \<Rightarrow> if buf \<noteq> [] then (st\<lparr>ms_bytes := u64_add (ms_bytes st) (length buf)\<rparr>, (w', ms))
                   else stream_record_once (record_read F) V (st, (w', ms))
      | Inl _ \<Rightarrow> stream_record_once (record_read F) V (st, (w', ms)))))"

subsection \<open>Writers\<close>

definition writer_drop ::
  "'f f64_ops \<Rightarrow> ('w, 'e, 'v, 'h, 'a) service \<Rightarrow> ('h metrics_stream, 'w, 'f) wrapped \<Rightarrow> ('h metrics_stream, 'w, 'f) wrapped" where
  "writer_drop F V = stream_record_once (record_write F) V"

definition writer_write ::
  "'f f64_ops \<Rightarrow> ('w, 'e, 'v, 'h, 'a) service \<Rightarrow> bytes \<Rightarrow> ('h metrics_stream, 'w, 'f) wrapped
     \<Rightarrow> ('e + unit) \<times> ('h metrics_stream, 'w, 'f) wrapped" where
  "writer_write F V buf = (\<lambda>(st, (w, ms)). case oio_write V (ms_inner st) buf w of (r, w') \<Rightarrow>
     (r, (case r of Inr _ \<Rightarrow> st\<lparr>ms_bytes := u64_add (ms_bytes st) (length buf)\<rparr> | Inl _ \<Rightarrow> st, (w', ms))))"

definition writer_copy_from ::
  "'f f64_ops \<Rightarrow> ('w, 'e, 'v, 'h, 'a) service \<Rightarrow> path \<Rightarrow> 'a \<Rightarrow> ('h metrics_stream, 'w, 'f) wrapped
     \<Rightarrow> ('e + unit) \<times> ('h metrics_stream, 'w, 'f) wrapped" where
  "writer_copy_from F V p a = (\<lambda>(st, (w, ms)). case oio_copy_from V (ms_inner st) p a w of (r, w') \<Rightarrow> (r, (st, (w', ms))))"

definition writer_close ::
  "'f f64_ops \<Rightarrow> ('w, 'e, 'v, 'h, 'a) service \<Rightarrow> ('h metrics_stream, 'w, 'f) wrapped
     \<Rightarrow> ('e + 'v) \<times> ('h metrics_stream, 'w, 'f) wrapped" where
  "writer_close F V = (\<lambda>(st, (w, ms)). case oio_writer_close V (ms_inner st) w of (r, w') \<Rightarrow>
     (r, stream_record_once (record_write F) V (st, (w', ms))))"

definition writer_abort ::
  "'f f64_ops \<Rightarrow> ('w, 'e, 'v, 'h, 'a) service \<Rightarrow> ('h metrics_stream, 'w, 'f) wrapped
     \<Rightarrow> ('e + unit) \<times> ('h metrics_stream, 'w, 'f) wrapped" where
  "writer_abort F V = (\<lambda>(st, (w, ms)). case oio_abort V (ms_inner st) w of (r, w') \<Rightarrow>
     (r, stream_record_once (record_write F) V (st, (w', ms))))"

subsection \<open>Deleters and listers\<close>

definition deleter_drop ::
  "'f f64_ops \<Rightarrow> ('w, 'e, 'v, 'h, 'a) service \<Rightarrow> ('h metrics_cursor, 'w, 'f) wrapped \<Rightarrow> ('h metrics_cursor, 'w, 'f) wrapped" where
  "deleter_drop F V = cursor_record_once (record_delete F) V"

definition deleter_delete ::
  "'f f64_ops \<Rightarrow> ('w, 'e, 'v, 'h, 'a) service \<Rightarrow> path \<Rightarrow> 'a \<Rightarrow> ('h metrics_cursor, 'w, 'f) wrapped
     \<Rightarrow> ('e + unit) \<times> ('h metrics_cursor, 'w, 'f) wrapped" where
  "deleter_delete F V p a = (\<lambda>(st, (w, ms)). case oio_delete V (mc_inner st) p a w of (r, w') \<Rightarrow> (r, (st, (w', ms))))"

definition deleter_close ::
  "'f f64_ops \<Rightarrow> ('w, 'e, 'v, 'h, 'a) service \<Rightarrow> ('h metrics_cursor, 'w, 'f) wrapped
     \<Rightarrow> ('e + unit) \<times> ('h metrics_cursor, 'w, 'f) wrapped" where
  "deleter_close F V = (\<lambda>(st, (w, ms)). case oio_deleter_close V (mc_inner st) w of (r, w') \<Rightarrow>
     (r, cursor_record_once (record_delete F) V (st, (w', ms))))"

definition lister_drop ::
  "'f f64_ops \<Rightarrow> ('w, 'e, 'v, 'h, 'a) service \<Rightarrow> ('h metrics_cursor, 'w, 'f) wrapped \<Rightarrow> ('h metrics_cursor, 'w, 'f) wrapped" where
  "lister_drop F V = cursor_record_once (record_list F) V"

definition lister_next ::
  "'f f64_ops \<Rightarrow> ('w, 'e, 'v, 'h, 'a) service \<Rightarrow> ('h metrics_cursor, 'w, 'f) wrapped
     \<Rightarrow> ('e + 'v option) \<times> ('h metrics_cursor, 'w, 'f) wrapped" where
  "lister_next F V = (\<lambda>(st, (w, ms)). case oio_next V (mc_inner st) w of (r, w') \<Rightarrow>
     (r, (case r of Inr (Some _) \<Rightarrow> (st, (w', ms))
      | _ \<Rightarrow> cursor_record_once (record_list F) V (st, (w', ms)))))"

end
