(* ===== verification/Io_Metrics_Layer_Spec.thy ===== *)
theory Io_Metrics_Layer_Spec
  imports Io_Metrics_Layer
begin

text \<open>
  What the layer promises: it changes no result and makes no call of its own, and every request is recorded
  exactly once, however its stream, writer, deleter or lister is used. The four kinds share one contract,
  the locale \<open>records_once\<close>.
\<close>

section \<open>Objects that record once\<close>

locale records_once =
  fixes step :: "'ev \<Rightarrow> 'o \<times> 'c \<Rightarrow> 'o \<times> 'c"
    and dropped :: "'o \<times> 'c \<Rightarrow> 'o \<times> 'c"
    and recorded :: "'o \<Rightarrow> bool"
    and requests :: "'c \<Rightarrow> u64"
  assumes step_once: "step ev (x, c) = (x', c') \<Longrightarrow>
      (recorded x' = recorded x \<and> requests c' = requests c)
      \<or> (\<not> recorded x \<and> recorded x' \<and> requests c' = u64_add (requests c) 1)"
    and drop_once: "dropped (x, c) = (x', c') \<Longrightarrow>
      recorded x' \<and> requests c' = (if recorded x then requests c else u64_add (requests c) 1)"
begin

lemma run_once:
  "fold step evs (x, c) = (x', c') \<Longrightarrow>
   (recorded x \<longrightarrow> recorded x' \<and> requests c' = requests c) \<and>
   (\<not> recorded x \<longrightarrow> requests c' = (if recorded x' then u64_add (requests c) 1 else requests c))"
proof (induction evs arbitrary: x c)
  case (Cons ev evs)
  obtain x1 c1 where s: "step ev (x, c) = (x1, c1)" by fastforce
  with Cons.prems have "fold step evs (x1, c1) = (x', c')" by simp
  from Cons.IH [OF this] step_once [OF s] show ?case by auto
qed simp

text \<open>From its creation to its end an object records one request.\<close>

lemma one_request:
  assumes "\<not> recorded x" and "dropped (fold step evs (x, c)) = (x', c')"
  shows "recorded x' \<and> requests c' = u64_add (requests c) 1"
proof -
  obtain x1 c1 where f: "fold step evs (x, c) = (x1, c1)" by fastforce
  with assms(2) have "dropped (x1, c1) = (x', c')" by simp
  from drop_once [OF this] run_once [OF f] assms(1) show ?thesis by auto
qed

end

section \<open>Sessions\<close>

text \<open>A run of calls: their results in order, and the state after them.\<close>

fun run_calls :: "('ev \<Rightarrow> 's \<Rightarrow> 'r \<times> 's) \<Rightarrow> 'ev list \<Rightarrow> 's \<Rightarrow> 'r list \<times> 's" where
  "run_calls call [] s = ([], s)"
| "run_calls call (ev # evs) s = (case call ev s of (r, s1) \<Rightarrow> case run_calls call evs s1 of (rs, s2) \<Rightarrow> (r # rs, s2))"

lemma run_calls_fold: "snd (run_calls call evs s) = fold (\<lambda>ev s. snd (call ev s)) evs s"
  by (induction evs arbitrary: s) (simp_all add: split_beta)

text \<open>A whole session: the object is opened, used by any calls, and dropped at the end.\<close>

definition measured_session ::
  "('c \<Rightarrow> ('e + 'v \<times> 'o) \<times> 'c) \<Rightarrow> ('ev \<Rightarrow> 'o \<times> 'c \<Rightarrow> 'r \<times> ('o \<times> 'c)) \<Rightarrow> ('o \<times> 'c \<Rightarrow> 'o \<times> 'c) \<Rightarrow> 'ev list
     \<Rightarrow> 'c \<Rightarrow> ('e + 'v \<times> 'r list) \<times> 'c" where
  "measured_session opn call dropped evs c = (case opn c of
     (Inl e, c1) \<Rightarrow> (Inl e, c1)
   | (Inr (v, x), c1) \<Rightarrow> (case run_calls call evs (x, c1) of (rs, s) \<Rightarrow> (Inr (v, rs), snd (dropped s))))"

text \<open>The same session on the service itself, where dropping does nothing of interest.\<close>

definition plain_session ::
  "('w \<Rightarrow> ('e + 'v \<times> 'h) \<times> 'w) \<Rightarrow> ('ev \<Rightarrow> 'h \<Rightarrow> 'w \<Rightarrow> 'r \<times> 'w) \<Rightarrow> 'ev list \<Rightarrow> 'w \<Rightarrow> ('e + 'v \<times> 'r list) \<times> 'w" where
  "plain_session opn call evs w = (case opn w of
     (Inl e, w1) \<Rightarrow> (Inl e, w1)
   | (Inr (v, h), w1) \<Rightarrow> (case run_calls (\<lambda>ev. call ev h) evs w1 of (rs, w2) \<Rightarrow> (Inr (v, rs), w2)))"

text \<open>Opening without a response.\<close>

definition unit_response :: "('c \<Rightarrow> ('e + 'o) \<times> 'c) \<Rightarrow> 'c \<Rightarrow> ('e + unit \<times> 'o) \<times> 'c" where
  "unit_response opn c = apfst (map_sum id (Pair ())) (opn c)"

locale measured = records_once "\<lambda>ev s. snd (call ev s)" dropped recorded requests
  for call :: "'ev \<Rightarrow> 'o \<times> ('w \<times> 'm) \<Rightarrow> 'r \<times> ('o \<times> ('w \<times> 'm))"
    and dropped :: "'o \<times> ('w \<times> 'm) \<Rightarrow> 'o \<times> ('w \<times> 'm)" and recorded :: "'o \<Rightarrow> bool"
    and requests :: "'w \<times> 'm \<Rightarrow> u64" +
  fixes inner :: "'o \<Rightarrow> 'h" and plain :: "'ev \<Rightarrow> 'h \<Rightarrow> 'w \<Rightarrow> 'r \<times> 'w"
    and opn :: "'w \<times> 'm \<Rightarrow> ('e + 'v \<times> 'o) \<times> ('w \<times> 'm)" and plain_opn :: "'w \<Rightarrow> ('e + 'v \<times> 'h) \<times> 'w"
  assumes call_plain: "call ev (x, (w, ms)) = (r, (x', (w', ms'))) \<Longrightarrow> plain ev (inner x) w = (r, w') \<and> inner x' = inner x"
    and drop_world: "dropped (x, (w, ms)) = (x', (w', ms')) \<Longrightarrow> w' = w"
    and open_fails: "opn (w, ms) = (Inl e, (w', ms')) \<Longrightarrow>
      plain_opn w = (Inl e, w') \<and> requests (w', ms') = u64_add (requests (w, ms)) 1"
    and open_ok: "opn (w, ms) = (Inr (v, x), (w', ms')) \<Longrightarrow>
      plain_opn w = (Inr (v, inner x), w') \<and> requests (w', ms') = requests (w, ms) \<and> \<not> recorded x"
begin

lemma run_calls_plain:
  "run_calls call evs (x, (w, ms)) = (rs, (x', (w', ms'))) \<Longrightarrow> run_calls (\<lambda>ev. plain ev (inner x)) evs w = (rs, w')"
proof (induction evs arbitrary: x w ms rs)
  case (Cons ev evs)
  obtain r x1 w1 ms1 where c: "call ev (x, (w, ms)) = (r, (x1, (w1, ms1)))" by (metis prod.collapse)
  then obtain rs1 where "run_calls call evs (x1, (w1, ms1)) = (rs1, (x', (w', ms')))" and "rs = r # rs1"
    using Cons.prems by (auto split: prod.splits)
  with Cons.IH [of x1 w1 ms1 rs1] call_plain [OF c] show ?case by simp
qed simp

lemma session_measured:
  assumes "measured_session opn call dropped evs (w, ms) = (r, (w', ms'))"
  shows "plain_session plain_opn plain evs w = (r, w') \<and> requests (w', ms') = u64_add (requests (w, ms)) 1"
proof -
  obtain q w1 ms1 where q: "opn (w, ms) = (q, (w1, ms1))" by (metis prod.collapse)
  show ?thesis
  proof (cases q)
    case (Inl e)
    with q assms open_fails [of w ms e w1 ms1] show ?thesis
      by (simp add: measured_session_def plain_session_def)
  next
    case (Inr y)
    obtain v x where y: "y = (v, x)" by (cases y)
    have o: "opn (w, ms) = (Inr (v, x), (w1, ms1))" using q Inr y by simp
    obtain rs x2 w2 ms2 where run: "run_calls call evs (x, (w1, ms1)) = (rs, (x2, (w2, ms2)))" by (metis prod.collapse)
    obtain x3 w3 ms3 where d: "dropped (x2, (w2, ms2)) = (x3, (w3, ms3))" by (metis prod.collapse)
    have fold: "fold (\<lambda>ev s. snd (call ev s)) evs (x, (w1, ms1)) = (x2, (w2, ms2))"
      using run_calls_fold [of call evs "(x, (w1, ms1))"] run by simp
    have r: "r = Inr (v, rs)" "w' = w3" "ms' = ms3" using assms o run d by (simp_all add: measured_session_def)
    have "requests (w3, ms3) = u64_add (requests (w1, ms1)) 1"
      using one_request [of x evs "(w1, ms1)" x3 "(w3, ms3)"] open_ok [OF o] fold d by simp
    with open_ok [OF o] run_calls_plain [OF run] drop_world [OF d] r show ?thesis by (simp add: plain_session_def)
  qed
qed

end

section \<open>The four kinds\<close>

datatype 'a writer_event = WrWrite bytes | WrCopyFrom path 'a | WrClose | WrAbort

fun writer_call ::
  "'f f64_ops \<Rightarrow> ('w, 'e, 'v, 'h, 'a) service \<Rightarrow> 'a writer_event \<Rightarrow> ('h metrics_stream, 'w, 'f) wrapped
     \<Rightarrow> ('e + 'v option) \<times> ('h metrics_stream, 'w, 'f) wrapped" where
  "writer_call F V (WrWrite buf) c = apfst (map_sum id (\<lambda>_. None)) (writer_write F V buf c)"
| "writer_call F V (WrCopyFrom p a) c = apfst (map_sum id (\<lambda>_. None)) (writer_copy_from F V p a c)"
| "writer_call F V WrClose c = apfst (map_sum id Some) (writer_close F V c)"
| "writer_call F V WrAbort c = apfst (map_sum id (\<lambda>_. None)) (writer_abort F V c)"

fun writer_plain :: "('w, 'e, 'v, 'h, 'a) service \<Rightarrow> 'a writer_event \<Rightarrow> 'h \<Rightarrow> 'w \<Rightarrow> ('e + 'v option) \<times> 'w" where
  "writer_plain V (WrWrite buf) h w = apfst (map_sum id (\<lambda>_. None)) (oio_write V h buf w)"
| "writer_plain V (WrCopyFrom p a) h w = apfst (map_sum id (\<lambda>_. None)) (oio_copy_from V h p a w)"
| "writer_plain V WrClose h w = apfst (map_sum id Some) (oio_writer_close V h w)"
| "writer_plain V WrAbort h w = apfst (map_sum id (\<lambda>_. None)) (oio_abort V h w)"

datatype 'a deleter_event = DlDelete path 'a | DlClose

fun deleter_call ::
  "'f f64_ops \<Rightarrow> ('w, 'e, 'v, 'h, 'a) service \<Rightarrow> 'a deleter_event \<Rightarrow> ('h metrics_cursor, 'w, 'f) wrapped
     \<Rightarrow> ('e + unit) \<times> ('h metrics_cursor, 'w, 'f) wrapped" where
  "deleter_call F V (DlDelete p a) c = deleter_delete F V p a c"
| "deleter_call F V DlClose c = deleter_close F V c"

fun deleter_plain :: "('w, 'e, 'v, 'h, 'a) service \<Rightarrow> 'a deleter_event \<Rightarrow> 'h \<Rightarrow> 'w \<Rightarrow> ('e + unit) \<times> 'w" where
  "deleter_plain V (DlDelete p a) h w = oio_delete V h p a w"
| "deleter_plain V DlClose h w = oio_deleter_close V h w"

definition read_requests :: "'w \<times> 'f io_metrics \<Rightarrow> u64" where
  "read_requests c = rs_count (m_inner (mt_read (snd c)))"

definition write_requests :: "'w \<times> 'f io_metrics \<Rightarrow> u64" where
  "write_requests c = rs_count (m_inner (mt_write (snd c)))"

definition delete_requests :: "'w \<times> 'f io_metrics \<Rightarrow> u64" where
  "delete_requests c = rs_count (m_inner (mt_delete (snd c)))"

definition list_requests :: "'w \<times> 'f io_metrics \<Rightarrow> u64" where
  "list_requests c = rs_count (m_inner (mt_list (snd c)))"

lemma running_record_counts [simp]:
  "rs_count (running_record F d n rs) = u64_add (rs_count rs) 1"
  "rs_bytes (running_record F d n rs) = u64_add (rs_bytes rs) n"
  by (simp_all add: running_record_def Let_def)

lemmas record_defs = record_read_def record_write_def record_stat_def record_delete_def record_list_def
lemmas once_defs = stream_record_once_def cursor_record_once_def read_requests_def write_requests_def
  delete_requests_def list_requests_def record_defs

interpretation read_stream: measured "\<lambda>(_ :: unit). read_stream_read F V" "read_stream_drop F V"
  ms_recorded read_requests ms_inner "\<lambda>_. oio_stream_read V" "reader_open F V h rng" "oio_open V h rng" for F V h rng
  by unfold_locales
    (auto simp: read_stream_read_def read_stream_drop_def reader_open_def once_defs split: prod.splits sum.splits if_splits)

lemma writer_records_once:
  "writer_call F V ev (x, c) = (r, (x', c')) \<Longrightarrow>
     (ms_recorded x' = ms_recorded x \<and> write_requests c' = write_requests c)
     \<or> (\<not> ms_recorded x \<and> ms_recorded x' \<and> write_requests c' = u64_add (write_requests c) 1)"
  by (cases ev) (auto simp: writer_write_def writer_copy_from_def writer_close_def writer_abort_def once_defs
      split: prod.splits sum.splits if_splits)

lemma writer_call_plain:
  "writer_call F V ev (x, (w, ms)) = (r, (x', (w', ms'))) \<Longrightarrow> writer_plain V ev (ms_inner x) w = (r, w') \<and> ms_inner x' = ms_inner x"
  by (cases ev) (auto simp: writer_write_def writer_copy_from_def writer_close_def writer_abort_def once_defs
      split: prod.splits sum.splits if_splits)

interpretation writer: measured "writer_call F V" "writer_drop F V" ms_recorded write_requests ms_inner
  "writer_plain V" "unit_response (layer_write F V p a)" "unit_response (svc_write V p a)" for F V p a
proof
  fix ev x c x' c'
  show "snd (writer_call F V ev (x, c)) = (x', c') \<Longrightarrow>
      (ms_recorded x' = ms_recorded x \<and> write_requests c' = write_requests c)
      \<or> (\<not> ms_recorded x \<and> ms_recorded x' \<and> write_requests c' = u64_add (write_requests c) 1)"
    using writer_records_once [of F V ev x c _ x' c'] by (metis prod.collapse)
qed (auto simp: writer_drop_def unit_response_def layer_write_def once_defs writer_call_plain
    split: prod.splits sum.splits if_splits dest: writer_call_plain)

lemma deleter_records_once:
  "deleter_call F V ev (x, c) = (r, (x', c')) \<Longrightarrow>
     (mc_recorded x' = mc_recorded x \<and> delete_requests c' = delete_requests c)
     \<or> (\<not> mc_recorded x \<and> mc_recorded x' \<and> delete_requests c' = u64_add (delete_requests c) 1)"
  by (cases ev) (auto simp: deleter_delete_def deleter_close_def once_defs split: prod.splits if_splits)

lemma deleter_call_plain:
  "deleter_call F V ev (x, (w, ms)) = (r, (x', (w', ms'))) \<Longrightarrow> deleter_plain V ev (mc_inner x) w = (r, w') \<and> mc_inner x' = mc_inner x"
  by (cases ev) (auto simp: deleter_delete_def deleter_close_def once_defs split: prod.splits if_splits)

interpretation deleter: measured "deleter_call F V" "deleter_drop F V" mc_recorded delete_requests mc_inner
  "deleter_plain V" "unit_response (layer_delete F V)" "unit_response (svc_delete V)" for F V
proof
  fix ev x c x' c'
  show "snd (deleter_call F V ev (x, c)) = (x', c') \<Longrightarrow>
      (mc_recorded x' = mc_recorded x \<and> delete_requests c' = delete_requests c)
      \<or> (\<not> mc_recorded x \<and> mc_recorded x' \<and> delete_requests c' = u64_add (delete_requests c) 1)"
    using deleter_records_once [of F V ev x c _ x' c'] by (metis prod.collapse)
qed (auto simp: deleter_drop_def unit_response_def layer_delete_def once_defs
    split: prod.splits sum.splits if_splits dest: deleter_call_plain)

interpretation lister: measured "\<lambda>(_ :: unit). lister_next F V" "lister_drop F V"
  mc_recorded list_requests mc_inner "\<lambda>_. oio_next V" "unit_response (layer_list F V p a)" "unit_response (svc_list V p a)"
  for F V p a
  by unfold_locales
    (auto simp: lister_next_def lister_drop_def unit_response_def layer_list_def once_defs
      split: prod.splits sum.splits option.splits if_splits)

section \<open>Bytes\<close>

text \<open>What the stream delivered before its first error or its end.\<close>

fun delivered :: "('e + bytes) list \<Rightarrow> nat" where
  "delivered (Inr buf # rs) = (if buf = [] then 0 else length buf + delivered rs)"
| "delivered _ = 0"

definition read_bytes :: "'w \<times> 'f io_metrics \<Rightarrow> u64" where
  "read_bytes c = rs_bytes (m_inner (mt_read (snd c)))"

lemma u64_add_assoc: "u64_add (u64_add a b) c = u64_add a (u64_add b c)"
  by (simp add: u64_add_def mod_add_left_eq mod_add_right_eq add.assoc)

lemma u64_add_mod [simp]: "u64_add a (b mod u64_size) = u64_add a b"
  by (simp add: u64_add_def mod_add_right_eq)

text \<open>Once recorded, nothing changes the byte count any more.\<close>

lemma reads_after_record:
  "run_calls (\<lambda>_. read_stream_read F V) evs (st, c) = (rs, (st', c')) \<Longrightarrow> ms_recorded st \<Longrightarrow> ms_recorded st' \<and> read_bytes c' = read_bytes c"
proof (induction evs arbitrary: st c rs)
  case (Cons ev evs)
  obtain r st1 c1 where r: "read_stream_read F V (st, c) = (r, (st1, c1))" by (metis prod.collapse)
  have "ms_recorded st1 \<and> read_bytes c1 = read_bytes c"
    using r Cons.prems(2)
    by (auto simp: read_stream_read_def stream_record_once_def read_bytes_def split: prod.splits sum.splits if_splits)
  moreover obtain rs1 where "run_calls (\<lambda>_. read_stream_read F V) evs (st1, c1) = (rs1, (st', c'))" using Cons.prems(1) r by (auto split: prod.splits)
  ultimately show ?case using Cons.IH [of st1 c1 rs1] by simp
qed auto

lemma reads_then_drop:
  assumes "run_calls (\<lambda>_. read_stream_read F V) evs (st, c) = (rs, (st1, c1))" and "read_stream_drop F V (st1, c1) = (st2, c2)"
    and "\<not> ms_recorded st"
  shows "read_bytes c2 = u64_add (read_bytes c) (u64_add (ms_bytes st) (delivered rs))"
  using assms
proof (induction evs arbitrary: st c rs)
  case Nil
  then show ?case
    by (auto simp: read_stream_drop_def stream_record_once_def read_bytes_def record_read_def u64_add_def mod_add_right_eq
        split: prod.splits)
next
  case (Cons ev evs)
  obtain r st' c' where r: "read_stream_read F V (st, c) = (r, (st', c'))" by (metis prod.collapse)
  obtain rs1 where rs1: "run_calls (\<lambda>_. read_stream_read F V) evs (st', c') = (rs1, (st1, c1))" and rs: "rs = r # rs1"
    using Cons.prems(1) r by (auto split: prod.splits)
  show ?case
  proof (cases "\<exists>buf. r = Inr buf \<and> buf \<noteq> []")
    case True
    then obtain buf where buf: "r = Inr buf" "buf \<noteq> []" by blast
    then have "st' = st\<lparr>ms_bytes := u64_add (ms_bytes st) (length buf)\<rparr>" "read_bytes c' = read_bytes c"
      using r by (auto simp: read_stream_read_def read_bytes_def split: prod.splits sum.splits if_splits)
    with Cons.IH [OF rs1 Cons.prems(2)] Cons.prems(3) buf rs show ?thesis
      by (simp add: u64_add_assoc) (simp add: u64_add_def mod_add_right_eq)
  next
    case False
    then have d: "delivered rs = 0" unfolding rs by (cases r) auto
    from False have "ms_recorded st' \<and> read_bytes c' = u64_add (read_bytes c) (ms_bytes st)"
      using r Cons.prems(3)
      by (auto simp: read_stream_read_def stream_record_once_def read_bytes_def record_read_def split: prod.splits sum.splits if_splits)
    moreover from this have "ms_recorded st1 \<and> read_bytes c1 = read_bytes c'" using reads_after_record [OF rs1] by simp
    moreover have "read_bytes c2 = read_bytes c1"
      using Cons.prems(2) calculation by (auto simp: read_stream_drop_def stream_record_once_def split: prod.splits)
    ultimately show ?thesis using d by (simp add: u64_add_def mod_add_right_eq)
  qed
qed

text \<open>A whole session of a read stream.\<close>

lemma read_session_bytes:
  assumes "measured_session (reader_open F V h rng) (\<lambda>_. read_stream_read F V) (read_stream_drop F V) evs (w, ms) = (r, (w', ms'))"
  shows "read_bytes (w', ms') = u64_add (read_bytes (w, ms)) (case r of Inr (_, rs) \<Rightarrow> delivered rs | Inl _ \<Rightarrow> 0)"
proof (cases "oio_open V h rng w")
  case (Pair q w1)
  show ?thesis
  proof (cases q)
    case (Inl e)
    with Pair assms show ?thesis by (auto simp: measured_session_def reader_open_def read_bytes_def record_read_def)
  next
    case (Inr y)
    obtain v hd where y: "y = (v, hd)" by (cases y)
    let ?st = "\<lparr>ms_inner = hd, ms_start = clock V w, ms_bytes = 0, ms_recorded = False\<rparr>"
    obtain rs st1 c1 where run: "run_calls (\<lambda>_. read_stream_read F V) evs (?st, (w1, ms)) = (rs, (st1, c1))"
      by (metis prod.collapse)
    obtain st2 c2 where d: "read_stream_drop F V (st1, c1) = (st2, c2)" by (metis prod.collapse)
    have "r = Inr (v, rs)" "(w', ms') = c2"
      using assms Pair Inr y run d by (simp_all add: measured_session_def reader_open_def)
    moreover have "read_bytes (w1, ms) = read_bytes (w, ms)" by (simp add: read_bytes_def)
    ultimately show ?thesis using reads_then_drop [OF run d] by (simp add: u64_add_def mod_add_right_eq)
  qed
qed

end
