(* ===== verification/Service_Properties.thy ===== *)
theory Service_Properties
  imports Mem_Examples Liveness Object_Store Ffi_Lifecycle Ffi_Stats Io_Metrics_Layer_Spec
begin

text \<open>
  The properties of the parts around the files: the measurement of storage requests and its statistics,
  the conditional reads of the object store, the life cycle of a filesystem across the C ABI, and the
  success of sessions on a store that serves its calls.
\<close>

section \<open>Success\<close>

text \<open>C3. Sessions succeed. When the store serves every call, a handle that may read and write a dense file with
  nothing but zeros staged or stored behind its end (\<open>zero_tail\<close>, as for a new file) carries out any sequence of operations whose writes start within the file and whose truncations do not
  grow it: none of them fails or panics, and the results, the contents and the position are the ones of
  the abstract byte array.\<close>

theorem reliable_sessions_succeed:
  assumes "reliable_db S view durable good" and "good s" and "handle_inv S db h (view db s)"
    and "zero_tail h (view db s)" and "dense h (view db s)" and "fl_read (fh_flags h)" and "fl_write (fh_flags h)"
    and "run_valid (fl_append (fh_flags h)) (map snd ops) (file_bytes h (view db s), position h)"
  shows "\<exists>h' s' outs. exec_ops S P ops (h, s) = (Ok outs, (h', s')) \<and>
    spec_run (fl_append (fh_flags h)) (map snd ops) (file_bytes h (view db s), position h)
      = (outs, (file_bytes h' (view db s'), position h'))"
proof -
  have "reliable_db.live_handle S view good db h s"
    using assms by (simp add: reliable_db.live_handle_def)
  from reliable_db.exec_ops_live [OF assms(1) this, of ops P] assms(8)
  show ?thesis unfolding abs_handle_def by (metis prod.collapse)
qed

theorem reliable_sessions_succeed_witness:
  "\<exists>h' s' outs. exec_ops mem_slatedb proto_codec [(1, Write [1, 2, 3, 4, 5]), (2, Truncate 4), (3, Sync), (4, Pread 9 1)]
       (small_handle flags_read_write 0, mem_empty) = (Ok outs, (h', s')) \<and> outs = [[], [], [], [2, 3, 4]]"
proof -
  let ?h = "small_handle flags_read_write 0"
  let ?ops = "[(1, Write [1, 2, 3, 4, 5]), (2, Truncate 4), (3, Sync), (4, Pread 9 1)] :: (int \<times> file_op) list"
  have v: "run_valid False (map snd ?ops) ([], 0)" by code_simp
  have o: "fst (spec_run False (map snd ?ops) ([], 0)) = [[], [], [], [2, 3, 4]]" by code_simp
  have "dense ?h (mem_view ''d'' mem_empty)" by (simp add: dense_def)
  then have "\<exists>h' s' outs. exec_ops mem_slatedb proto_codec ?ops (?h, mem_empty) = (Ok outs, (h', s')) \<and>
    spec_run False (map snd ?ops) ([], 0) = (outs, (file_bytes h' (mem_view ''d'' s'), position h'))"
    using reliable_sessions_succeed [OF mem_live.reliable_db_axioms, of mem_empty "''d''" ?h ?ops proto_codec] v
    by (simp add: mem_empty_def [THEN arg_cong [of _ _ mem_faults]])
  with o show ?thesis by (metis fst_conv)
qed

section \<open>Measurements\<close>

text \<open>C21. The layer is transparent and counts right. Whatever a caller does with a read stream, a writer, a
  deleter or a lister, from opening to dropping it, in any order and with any failures: the results and
  the effects on the storage are those of the service without the layer, and exactly one request is
  recorded. So it is for a single read of a range and for a stat. A read adds the bytes it delivered, a
  stream those before its end or its first error.\<close>

theorem requests_recorded_once:
  fixes reads nexts :: "unit list"
  shows "(case measured_session (reader_open F V h rng) (\<lambda>_. read_stream_read F V) (read_stream_drop F V) reads (w, ms) of
     (r, (w', ms')) \<Rightarrow> plain_session (oio_open V h rng) (\<lambda>_. oio_stream_read V) reads w = (r, w') \<and>
       read_requests (w', ms') = u64_add (read_requests (w, ms)) 1 \<and>
       read_bytes (w', ms') = u64_add (read_bytes (w, ms)) (case r of Inr (_, rs) \<Rightarrow> delivered rs | Inl _ \<Rightarrow> 0)) \<and>
   (case measured_session (unit_response (layer_write F V p a)) (writer_call F V) (writer_drop F V) writes (w, ms) of
     (r, (w', ms')) \<Rightarrow> plain_session (unit_response (svc_write V p a)) (writer_plain V) writes w = (r, w') \<and>
       write_requests (w', ms') = u64_add (write_requests (w, ms)) 1) \<and>
   (case measured_session (unit_response (layer_delete F V)) (deleter_call F V) (deleter_drop F V) deletes (w, ms) of
     (r, (w', ms')) \<Rightarrow> plain_session (unit_response (svc_delete V)) (deleter_plain V) deletes w = (r, w') \<and>
       delete_requests (w', ms') = u64_add (delete_requests (w, ms)) 1) \<and>
   (case measured_session (unit_response (layer_list F V p a)) (\<lambda>_. lister_next F V) (lister_drop F V) nexts (w, ms) of
     (r, (w', ms')) \<Rightarrow> plain_session (unit_response (svc_list V p a)) (\<lambda>_. oio_next V) nexts w = (r, w') \<and>
       list_requests (w', ms') = u64_add (list_requests (w, ms)) 1) \<and>
   (case reader_read F V h rng (w, ms) of
     (r, (w', ms')) \<Rightarrow> oio_read V h rng w = (r, w') \<and> read_requests (w', ms') = u64_add (read_requests (w, ms)) 1 \<and>
       read_bytes (w', ms') = u64_add (read_bytes (w, ms)) (case r of Inr (_, buf) \<Rightarrow> length buf | Inl _ \<Rightarrow> 0)) \<and>
   (case layer_stat F V p a (w, ms) of
     (r, (w', ms')) \<Rightarrow> svc_stat V p a w = (r, w') \<and>
       rs_count (m_inner (mt_stat ms')) = u64_add (rs_count (m_inner (mt_stat ms))) 1)"
proof (intro conjI)
  show "case reader_read F V h rng (w, ms) of
     (r, (w', ms')) \<Rightarrow> oio_read V h rng w = (r, w') \<and> read_requests (w', ms') = u64_add (read_requests (w, ms)) 1 \<and>
       read_bytes (w', ms') = u64_add (read_bytes (w, ms)) (case r of Inr (_, buf) \<Rightarrow> length buf | Inl _ \<Rightarrow> 0)"
    by (auto simp: reader_read_def read_requests_def read_bytes_def record_read_def split: prod.split)
  show "case layer_stat F V p a (w, ms) of
     (r, (w', ms')) \<Rightarrow> svc_stat V p a w = (r, w') \<and>
       rs_count (m_inner (mt_stat ms')) = u64_add (rs_count (m_inner (mt_stat ms))) 1"
    by (auto simp: layer_stat_def record_stat_def split: prod.split)
qed (auto split: prod.split dest: read_stream.session_measured writer.session_measured deleter.session_measured
      lister.session_measured read_session_bytes)

text \<open>The mean and the deviation of the latencies, to the nanosecond, in milliseconds.\<close>

definition mean_ms :: "(duration \<times> u64) list \<Rightarrow> real" where
  "mean_ms rs = real (nat (round_half_even (mean_of (secs rs) * 10 ^ 9))) / 10 ^ 6"

definition stddev_ms :: "(duration \<times> u64) list \<Rightarrow> real" where
  "stddev_ms rs = real (nat (round_half_even (sqrt (variance_of (secs rs)) * 10 ^ 9))) / 10 ^ 6"

text \<open>C22. The statistics a caller reads are the mean and the population standard deviation of the latencies.
  After any sequence of requests of all kinds, in exact arithmetic, the entry point succeeds, every kind
  has its number of requests, its mean and its deviation to the nanosecond in milliseconds, and reads and
  writes have their bytes, wrapped to 64 bits.\<close>

theorem io_stats_are_mean_and_deviation:
  assumes "length qs < u64_size" and "\<forall>q \<in> set qs. latency q < 2 ^ 64 * 10 ^ 9"
    and "sc_io_metrics c = fold (record_request exact_ops) qs (io_metrics_default exact_ops)"
    and "sc_fs c \<noteq> None" and "sc_output c \<noteq> None"
  shows "slatedb_fs_get_io_stats loc exact_ops (msg, c) = (Ok 0, (msg, c\<lparr>sc_output := Some
     \<lparr>fi_read_request_count = length (reads_of qs), fi_read_average_latency_ms = mean_ms (reads_of qs),
      fi_read_stddev_latency_ms = stddev_ms (reads_of qs),
      fi_write_request_count = length (writes_of qs), fi_write_average_latency_ms = mean_ms (writes_of qs),
      fi_write_stddev_latency_ms = stddev_ms (writes_of qs),
      fi_stat_request_count = length (stats_of qs), fi_stat_average_latency_ms = mean_ms (stats_of qs),
      fi_stat_stddev_latency_ms = stddev_ms (stats_of qs),
      fi_delete_request_count = length (deletes_of qs), fi_delete_average_latency_ms = mean_ms (deletes_of qs),
      fi_delete_stddev_latency_ms = stddev_ms (deletes_of qs),
      fi_list_request_count = length (lists_of qs), fi_list_average_latency_ms = mean_ms (lists_of qs),
      fi_list_stddev_latency_ms = stddev_ms (lists_of qs),
      fi_read_bytes = sum_list (map snd (reads_of qs)) mod u64_size,
      fi_write_bytes = sum_list (map snd (writes_of qs)) mod u64_size\<rparr>\<rparr>))"
  using io_stats_reported [OF assms, of loc msg]
  by (simp add: to_ffi_io_stats_def expected_stats_def operation_stats_def milliseconds_exact mean_ms_def stddev_ms_def)

definition demo_stats_call :: "request list \<Rightarrow> (path, path, real, real ffi_io_stats) stats_call" where
  "demo_stats_call qs = \<lparr>sc_fs = Some (small_fs None), sc_output = Some (to_ffi_io_stats exact_ops (expected_stats [])),
     sc_io_metrics = fold (record_request exact_ops) qs (io_metrics_default exact_ops)\<rparr>"

theorem io_stats_are_mean_and_deviation_witness:
  "\<exists>st. slatedb_fs_get_io_stats (\<lambda>_. None) exact_ops
      ([], demo_stats_call [ReadReq 1000000000 5, StatReq 7, ReadReq 3000000000 7])
    = (Ok 0, ([], (demo_stats_call [ReadReq 1000000000 5, StatReq 7, ReadReq 3000000000 7])\<lparr>sc_output := Some st\<rparr>)) \<and>
    fi_read_request_count st = 2 \<and> fi_read_average_latency_ms st = 2000 \<and> fi_read_stddev_latency_ms st = 1000 \<and>
    fi_read_bytes st = 12 \<and> fi_stat_request_count st = 1 \<and> fi_write_request_count st = 0"
proof -
  let ?qs = "[ReadReq 1000000000 5, StatReq 7, ReadReq 3000000000 7]"
  have k: "reads_of ?qs = [(1000000000, 5), (3000000000, 7)]" "stats_of ?qs = [(7, 0)]" "writes_of ?qs = []"
    by (simp_all add: kinds_defs)
  have m: "mean_of (secs [(1000000000, 5), (3000000000, 7)]) = 2" by (simp add: secs_def mean_of_def)
  have v: "variance_of (secs [(1000000000, 5), (3000000000, 7)]) = 1"
    unfolding variance_of_def m by (simp add: secs_def power2_eq_square)
  have ms: "mean_ms [(1000000000, 5), (3000000000, 7)] = 2000" "stddev_ms [(1000000000, 5), (3000000000, 7)] = 1000"
    by (simp_all add: mean_ms_def stddev_ms_def m v)
  have "length ?qs < u64_size" "\<forall>q \<in> set ?qs. latency q < 2 ^ 64 * 10 ^ 9" by (simp_all add: u64_size_def)
  note stats = io_stats_are_mean_and_deviation [OF this, of "demo_stats_call ?qs" "\<lambda>_. None" "[]"]
  show ?thesis
    by (subst stats) (auto simp: demo_stats_call_def k ms u64_size_def)
qed

section \<open>Conditional reads\<close>

text \<open>C38. Conditional reads answer as SlateDB expects. Let the store below fail with \<open>Precondition\<close> exactly
  when a given condition fails. Then the read is \<open>NotModified\<close> exactly when one failed and all given ones
  are negative, \<open>Precondition\<close> exactly when one failed and a positive one was given, and otherwise what the
  store below answered; its effect is the one below.\<close>

theorem conditional_get_errors:
  assumes "os_get_opts Z location options w = (r, w')"
    and "(\<exists>p src. r = Inl (Precondition p src)) \<longleftrightarrow> (\<exists>c \<in> given_conditions options. failed c)"
    and "\<forall>p src. r \<noteq> Inl (NotModified p src)"
  shows "\<exists>r'. os_get_opts (slatedb_object_store_new Z) location options w = (r', w') \<and>
    ((\<exists>p src. r' = Inl (NotModified p src)) \<longleftrightarrow>
      (\<exists>c \<in> given_conditions options. failed c) \<and> (\<forall>c \<in> given_conditions options. negative c)) \<and>
    ((\<exists>p src. r' = Inl (Precondition p src)) \<longleftrightarrow>
      (\<exists>c \<in> given_conditions options. failed c) \<and> (\<exists>c \<in> given_conditions options. \<not> negative c)) \<and>
    ((\<exists>c \<in> given_conditions options. failed c) \<or> r' = r)"
proof -
  obtain r' w'' where g: "store_get_opts Z location options w = (r', w'')" by fastforce
  note sp = get_opts_conditions [OF assms g]
  show ?thesis using g sp by (intro exI [of _ r']) (auto simp: slatedb_object_store_new_def)
qed

definition etag_store :: "string \<Rightarrow> (unit, unit, unit, string) object_store" where
  "etag_store tag =
     \<lparr>os_put_opts = (\<lambda>_ _ _ w. (Inr [], w)), os_put_multipart_opts = (\<lambda>_ _ w. (Inr [], w)),
      os_get_opts = (\<lambda>p options w. (if if_none_match options = Some tag then Inl (Precondition p []) else Inr tag, w)),
      os_delete_stream = (\<lambda>ps w. (ps, w)), os_list = (\<lambda>_ w. ([], w)),
      os_list_with_delimiter = (\<lambda>_ w. (Inr [], w)), os_copy_opts = (\<lambda>_ _ _ w. (Inr (), w))\<rparr>"

theorem conditional_get_errors_witness:
  "\<exists>p src. fst (os_get_opts (slatedb_object_store_new (etag_store ''v1'')) ''k''
     \<lparr>if_match = None, if_none_match = Some ''v1'', if_modified_since = None, if_unmodified_since = None, get_rest = ()\<rparr> ())
   = Inl (NotModified p src)"
proof -
  let ?o = "\<lparr>if_match = None, if_none_match = Some ''v1'', if_modified_since = None, if_unmodified_since = None, get_rest = ()\<rparr>"
  have get: "os_get_opts (etag_store ''v1'') ''k'' ?o () = (Inl (Precondition ''k'' []), ())" by (simp add: etag_store_def)
  have given: "given_conditions ?o = {IfNoneMatch ''v1''}" by (simp add: given_conditions_def)
  show ?thesis using conditional_get_errors [OF get, of "\<lambda>c. c = IfNoneMatch ''v1''"] given by auto
qed

section \<open>Creating a filesystem\<close>

text \<open>C35. A constructor of the C ABI never unwinds and leaves a defined output: without an output pointer it
  is an invalid argument and nothing happens, on success the output is a new filesystem, open, without
  clients and with the cache configuration of the caller, and on any failure the output is null.\<close>

theorem create_outputs_defined:
  "create_ok B (parse_cache_config D cache_cfg) c (slatedb_fs_create_memory loc E B D cache_cfg runtime_cfg (msg, c)) \<and>
   create_ok B (parse_cache_config D cache_cfg) c (slatedb_fs_create_local loc E B D root_path cache_cfg runtime_cfg (msg, c)) \<and>
   create_ok B (parse_cache_config D cache_cfg) c (slatedb_fs_create_s3 loc E B D config cache_cfg runtime_cfg (msg, c))"
  by (intro conjI constructors_contract)

end
