(* ===== verification/Stored_Files.thy ===== *)
theory Stored_Files
  imports File_System_Spec
begin

text \<open>
  A database as a map from paths to files. \<open>stored_files P v\<close> is what a user of the filesystem thinks the
  contents \<open>v\<close> are: each path of the catalog with the bytes that its metadata and its chunks spell out.
  Every change of the catalog and every sync is one update of this map, so that the ids, the keys, the
  chunks and the encodings are details of the implementation.
\<close>

section \<open>The map\<close>

definition stored_byte :: "FileMetadata \<Rightarrow> contents \<Rightarrow> u64 \<Rightarrow> u64 \<Rightarrow> byte" where
  "stored_byte md v f p =
     chunk_byte (v (chunk_key f (chunk_index_of (md_chunk_size md) (md_chunk_base_offset md) p)))
       (chunk_offset_of (md_chunk_size md) (md_chunk_base_offset md) p)"

definition stored_file :: "codec \<Rightarrow> contents \<Rightarrow> u64 \<Rightarrow> bytes option" where
  "stored_file P v f =
     map_option (\<lambda>md. map (stored_byte md v f) [0 ..< md_size md]) (metadata_of P v f)"

definition stored_files :: "codec \<Rightarrow> contents \<Rightarrow> path \<rightharpoonup> bytes" where
  "stored_files P v p = Option.bind (catalog v p) (stored_file P v)"

text \<open>A file depends on its own keys only.\<close>

lemma stored_file_cong:
  assumes "\<And>k. is_file_key f k \<Longrightarrow> v' k = v k"
  shows "stored_file P v' f = stored_file P v f"
proof -
  have "metadata_of P v' f = metadata_of P v f" using assms by (intro metadata_of_cong) (simp add: is_file_key_def)
  moreover have "stored_byte md v' f = stored_byte md v f" for md
    using assms by (simp add: fun_eq_iff stored_byte_def is_file_key_def chunk_key_def)
  ultimately show ?thesis by (simp add: stored_file_def)
qed

lemma stored_files_dom: "db_wf P v \<Longrightarrow> stored_files P v p = None \<longleftrightarrow> catalog v p = None"
  using db_wf_metadata [of P v p] by (cases "catalog v p") (auto simp: stored_files_def stored_file_def)

lemma stored_files_at: "catalog v p = Some f \<Longrightarrow> stored_files P v p = stored_file P v f"
  by (simp add: stored_files_def)

text \<open>A change that gives path \<open>p\<close> the file \<open>f\<close> and touches no other path or file is an update at \<open>p\<close>.\<close>

lemma stored_files_update:
  assumes cat: "catalog v' = (catalog v)(p \<mapsto> f)" and f: "f < u64_size" and wf: "\<And>q. catalog v q = Some f \<Longrightarrow> q = p"
    and same: "\<And>q g k. catalog v q = Some g \<Longrightarrow> g \<noteq> f \<Longrightarrow> q \<noteq> p \<Longrightarrow> is_file_key g k \<Longrightarrow> v' k = v k"
  shows "stored_files P v' = (stored_files P v)(p := stored_file P v' f)"
proof
  fix q
  show "stored_files P v' q = ((stored_files P v)(p := stored_file P v' f)) q"
  proof (cases "q = p")
    case False
    show ?thesis
    proof (cases "catalog v q")
      case (Some g)
      then have "g \<noteq> f" using wf False by blast
      then have "stored_file P v' g = stored_file P v g" using same [OF Some _ False] by (intro stored_file_cong) blast
      with Some False cat show ?thesis by (simp add: stored_files_def)
    qed (use False cat in \<open>simp add: stored_files_def\<close>)
  qed (use cat in \<open>simp add: stored_files_def\<close>)
qed

section \<open>The changes of the catalog\<close>

lemma stored_file_new:
  assumes "metadata_codec P" and "v (metadata_key f) = Some (encode_to_bytes P (file_metadata_new now))"
  shows "stored_file P v f = Some []"
proof -
  have "metadata_u64 (file_metadata_new now)" using metadata_ok_new [of now] by (simp add: metadata_ok_def)
  then have "metadata_of P v f = Some (file_metadata_new now)" using assms(2) by (rule metadata_of_encoded [OF assms(1)])
  then show ?thesis by (simp add: stored_file_def file_metadata_new_def)
qed

lemma stored_files_removed:
  assumes wf: "db_wf P v" and f: "catalog v p = Some f"
  shows "stored_files P (removed p f v) = (stored_files P v)(p := None)"
proof
  fix q
  show "stored_files P (removed p f v) q = ((stored_files P v)(p := None)) q"
  proof (cases "q = p \<or> catalog v q = None")
    case False
    then obtain g where g: "catalog v q = Some g" and "q \<noteq> p" by auto
    then have "g \<noteq> f" using db_wf_inj [OF wf f] by blast
    then have "stored_file P (removed p f v) g = stored_file P v g"
      using catalog_bound [OF f] catalog_bound [OF g] file_key_unique [of f _ g]
      by (intro stored_file_cong) (auto simp: removed_def without_file_def)
    with g \<open>q \<noteq> p\<close> show ?thesis by (simp add: stored_files_def catalog_removed)
  qed (auto simp: stored_files_def catalog_removed)
qed

lemma stored_files_moved:
  assumes wf: "db_wf P v" and f: "catalog v src = Some f" and ne: "src \<noteq> target"
  shows "stored_files P (moved src target f v) = (stored_files P v)(src := None, target := stored_files P v src)"
proof
  fix q
  let ?v = "moved src target f v"
  note cat = catalog_moved [OF f, of target]
  have keep: "stored_file P ?v g = stored_file P v g" if g: "g < u64_size" "catalog v target \<noteq> Some g" for g
  proof (rule stored_file_cong)
    fix k assume k: "is_file_key g k"
    have "\<not> is_file_key g' k" if "catalog v target = Some g'" for g'
      using file_key_unique [OF _ k _ g(1), of g'] catalog_bound [OF that] g(2) that by blast
    with k show "?v k = v k" by (cases "catalog v target") (auto simp: moved_def without_file_def)
  qed
  have other: "catalog v target \<noteq> Some f" using db_wf_inj [OF wf f] ne by blast
  consider "q = target" | "q = src" "q \<noteq> target" | "q \<noteq> src" "q \<noteq> target" "catalog v q = None"
    | g where "q \<noteq> src" "q \<noteq> target" "catalog v q = Some g" by fastforce
  then show "stored_files P ?v q = ((stored_files P v)(src := None, target := stored_files P v src)) q"
  proof cases
    case 1
    with f keep [OF _ other] catalog_bound [OF f] show ?thesis by (simp add: stored_files_def cat)
  next
    case (4 g)
    then have "catalog v target \<noteq> Some g" using db_wf_inj [OF wf, of q g target] by blast
    with 4 keep [of g] catalog_bound [OF 4(3)] show ?thesis by (simp add: stored_files_def cat)
  qed (simp_all add: stored_files_def cat)
qed

lemma stored_files_cleared:
  assumes wf: "db_wf P v" and f: "catalog v p = Some f" and P: "metadata_codec P"
  shows "stored_files P (cleared P f (file_metadata_new now) v) = (stored_files P v)(p \<mapsto> [])"
proof -
  let ?v = "cleared P f (file_metadata_new now) v"
  have fb: "f < u64_size" using catalog_bound [OF f] by simp
  have "?v k = v k" if "catalog v q = Some g" "g \<noteq> f" "is_file_key g k" for q g k
    using that catalog_bound [OF that(1)] fb file_key_unique [of f k g] by (auto simp: cleared_def is_file_key_def)
  moreover have "catalog ?v = (catalog v)(p \<mapsto> f)" using f by (auto simp: catalog_cleared)
  ultimately have "stored_files P ?v = (stored_files P v)(p := stored_file P ?v f)"
    using db_wf_inj [OF wf _ f] by (intro stored_files_update [OF _ fb]) blast+
  then show ?thesis by (simp add: stored_file_new [OF P] cleared_def)
qed

lemma stored_files_created:
  assumes wf: "db_wf P v" and n: "next_file_id v + 1 < u64_size" and P: "metadata_codec P"
  shows "stored_files P (created P p (file_metadata_new now) v) = (stored_files P v)(p \<mapsto> [])"
proof -
  let ?f = "next_file_id v" and ?v = "created P p (file_metadata_new now) v"
  have fb: "0 < ?f" "?f < u64_size" using db_wf_next(1) [OF wf] n by auto
  have "?v k = v k" if "catalog v q = Some g" "g \<noteq> ?f" "is_file_key g k" for q g k
    using that catalog_bound [OF that(1)] fb by (auto simp: created_def)
  then have "stored_files P ?v = (stored_files P v)(p := stored_file P ?v ?f)"
    using db_wf_next(2) [OF wf] by (intro stored_files_update [OF catalog_created [OF fb] fb(2)]) blast+
  moreover have "stored_file P ?v ?f = Some []" using fb by (intro stored_file_new [OF P]) (simp add: created_def)
  ultimately show ?thesis by simp
qed

section \<open>Sync\<close>

text \<open>A handle that has nothing staged shows its metadata's file as it is stored.\<close>

lemma file_bytes_stored:
  assumes "fh_wf st h" and "\<And>i. i < u64_size \<Longrightarrow> chunk_at (chunks h) w i = v (chunk_key (fh_file_id h) i)"
    and "metadata_of P v (fh_file_id h) = Some (handle_metadata h)"
  shows "stored_file P v (fh_file_id h) = Some (file_bytes h w)"
proof -
  have wf: "cm_wf (chunks h)" "fh_size h < u64_size" using assms(1) by (auto simp: fh_wf_def)
  note g = cm_wf_geometry [OF wf(1)]
  have "stored_byte (handle_metadata h) v (fh_file_id h) p = file_byte (chunks h) w p" if "p < u64_size" for p
    using assms(2) [OF chunk_index_bound [OF g that]]
    by (simp add: stored_byte_def file_byte_def handle_metadata_def)
  with assms(3) wf(2) show ?thesis by (simp add: stored_file_def file_bytes_def handle_metadata_def)
qed

lemma stored_files_synced:
  assumes P: "metadata_codec P" and wf: "db_wf P v" and f: "catalog v p = Some (fh_file_id h)"
    and h: "handle_inv S db h v"
  shows "stored_files P (apply_batch (sync_batch P h) v) = (stored_files P v)(p \<mapsto> file_bytes h v)"
proof -
  let ?f = "fh_file_id h" and ?v = "apply_batch (sync_batch P h) v"
  have h': "fh_wf (slatedb_chunk_store S db) h" "cm_wf (chunks h)" "cm_file_id (chunks h) = ?f" "?f < u64_size"
    using h by (auto simp: handle_inv_def fh_wf_def)
  have other: "?v k = v k" if "\<And>i. k \<noteq> chunk_key ?f i" "k \<noteq> metadata_key ?f" for k
    by (rule sync_batch_other [OF that h'(3)])
  have "?v k = v k" if "catalog v q = Some g" "g \<noteq> ?f" "is_file_key g k" for q g k
  proof (rule other)
    have "\<not> is_file_key ?f k" using that h'(4) catalog_bound [OF that(1)] file_key_unique [of ?f k g] by blast
    then show "k \<noteq> chunk_key ?f i" "k \<noteq> metadata_key ?f" for i by (auto simp: is_file_key_def chunk_key_def)
  qed
  moreover have "catalog ?v = (catalog v)(p \<mapsto> ?f)"
  proof
    fix q
    have "catalog ?v q = catalog v q" by (rule catalog_cong, rule other) simp_all
    with f show "catalog ?v q = ((catalog v)(p \<mapsto> ?f)) q" by simp
  qed
  ultimately have "stored_files P ?v = (stored_files P v)(p := stored_file P ?v ?f)"
    using db_wf_inj [OF wf _ f] by (intro stored_files_update [OF _ h'(4)]) blast+
  moreover have "stored_file P ?v ?f = Some (file_bytes h v)"
    using metadata_of_encoded [OF P handle_metadata_u64 [OF h'(1)], of ?v ?f] sync_batch_metadata [of P h v]
    by (intro file_bytes_stored [OF h'(1)]) (simp_all add: sync_batch_chunk [OF h'(2,3)])
  ultimately show ?thesis by simp
qed

end
