(* ===== verification/Catalog_Liveness.thy ===== *)
theory Catalog_Liveness
  imports Liveness Stored_Files
begin

text \<open>
  Operations on paths over a store that does not fail. A transaction is \<open>alive\<close> in a world when nothing
  has come between it and its database, so that its calls are served and its commit goes through. The
  results of the catalog are then those of the map from paths to files alone: an error says that a path
  is missing, never that the store failed.
\<close>

section \<open>Lookups that are served\<close>

text \<open>Where every lookup is answered, finding a file can fail only because a record is damaged.\<close>

lemma find_file_served:
  assumes get: "\<And>k s g s'. A s \<Longrightarrow> get k s = (g, s') \<Longrightarrow> A s' \<and> (\<exists>v. g = Inr v)"
    and "A s" and run: "find_file P get p s = (r, s')"
  shows "A s' \<and> (\<forall>e. r = Err e \<longrightarrow> code e = CodeMetadataDecode)"
proof (cases "get (path_key p) s")
  case (Pair g s1)
  from get [OF assms(2) Pair] obtain ov where 1: "g = Inr ov" "A s1" by blast
  show ?thesis
  proof (cases ov)
    case None
    with run Pair 1 show ?thesis by (auto simp: find_file_def slate_def io_bind_def)
  next
    case (Some bs)
    show ?thesis
    proof (cases "decode_file_id bs ''path mapping''")
      case (Ok f)
      obtain g2 s2 where g2: "get (metadata_key f) s1 = (g2, s2)" by fastforce
      from get [OF 1(2) g2] obtain ov2 where "g2 = Inr ov2" "A s2" by blast
      with run Pair 1 Some Ok g2 show ?thesis
        by (auto simp: find_file_def slate_def io_bind_def decode_from_bytes_def from_decode_error_def metadata_decode_def
            code_def split: option.splits sum.splits)
    next
      case (Err e)
      with run Pair 1 Some decode_file_id_Err [OF Err] show ?thesis
        by (auto simp: find_file_def slate_def io_bind_def)
    qed simp
  qed
qed

section \<open>A store that serves transactions\<close>

locale reliable_tx = slate_tx S view durable tx_db tx_snapshot tx_writes + reliable_db S view durable good
  for S :: "('s, 'db, 'rd, 'tx) slatedb" and view durable tx_db tx_snapshot tx_writes good +
  fixes alive :: "'tx \<Rightarrow> 's \<Rightarrow> bool"
  assumes alive_good: "alive tx s \<Longrightarrow> good s"
    and begin_alive: "good s \<Longrightarrow> db_begin S db s = (b, s') \<Longrightarrow> \<exists>tx. b = Inr tx \<and> alive tx s'"
    and get_alive: "alive tx s \<Longrightarrow> tx_get S tx k s = (g, s') \<Longrightarrow> alive tx s' \<and> (\<exists>v. g = Inr v)"
    and scan_alive: "alive tx s \<Longrightarrow> tx_scan_prefix S tx p s = (q, s') \<Longrightarrow> alive tx s' \<and> (\<exists>kvs. q = Inr (map Inr kvs))"
    and put_alive: "alive tx s \<Longrightarrow> \<exists>tx'. tx_put S tx k x = Inr tx' \<and> alive tx' s"
    and delete_alive: "alive tx s \<Longrightarrow> \<exists>tx'. tx_delete S tx k = Inr tx' \<and> alive tx' s"
    and commit_alive: "alive tx s \<Longrightarrow> tx_commit S tx s = (w, s') \<Longrightarrow> good s' \<and> w = Inr ()"
begin

text \<open>An operation that is served: it ends in a good state, and no error of it comes from the store.\<close>

definition served :: "('s, 'a) io \<Rightarrow> 's \<Rightarrow> bool" where
  "served m s \<longleftrightarrow> io_sat m s (\<lambda>r s'. good s' \<and> (\<forall>e. r = Err e \<longrightarrow> \<not> slate_failure e))"

lemma servedD: "served m s \<Longrightarrow> m s = (r, s') \<Longrightarrow> good s' \<and> (\<forall>e. r = Err e \<longrightarrow> \<not> slate_failure e)"
  unfolding served_def by (rule io_satD)

lemma served_return: "good s \<Longrightarrow> served (io_return x) s"
  by (simp add: served_def io_sat_prims)

lemma served_lift: "good s \<Longrightarrow> (\<And>e. r = Err e \<Longrightarrow> \<not> slate_failure e) \<Longrightarrow> served (io_lift r) s"
  by (simp add: served_def io_sat_prims)

lemma served_bind_lift:
  assumes "good s" and "\<And>x. r = Ok x \<Longrightarrow> served (f x) s" and "\<And>e. r = Err e \<Longrightarrow> \<not> slate_failure e"
  shows "served (io_bind (io_lift r) f) s"
  using assms unfolding served_def by (intro io_sat_bind_lift) auto

lemma served_bind_Ok: "m s = (Ok x, s') \<Longrightarrow> served (f x) s' \<Longrightarrow> served (io_bind m f) s"
  by (simp add: served_def io_sat_def io_bind_def)

lemma served_validate:
  assumes "good s" and "served (f ()) s"
  shows "served (io_bind (io_lift (validate_path p)) f) s"
  by (rule served_bind_lift [OF assms(1)])
    (use assms in \<open>auto simp: validate_path_def invalid_argument_def code_def split: if_splits\<close>)

lemma served_begin:
  assumes "good s" and "\<And>tx s'. alive tx s' \<Longrightarrow> served (f tx) s'"
  shows "served (io_bind (slate (db_begin S db)) f) s"
proof (cases "db_begin S db s")
  case (Pair b s')
  with begin_alive [OF assms(1) Pair] assms(2) show ?thesis by (auto simp: slate_def intro!: served_bind_Ok)
qed

lemma served_get:
  assumes "alive tx s" and "\<And>v s'. alive tx s' \<Longrightarrow> served (f v) s'"
  shows "served (io_bind (slate (tx_get S tx k)) f) s"
proof (cases "tx_get S tx k s")
  case (Pair g s')
  with get_alive [OF assms(1) Pair] assms(2) show ?thesis by (auto simp: slate_def intro!: served_bind_Ok)
qed

lemma served_put:
  assumes "alive tx s" and "\<And>tx'. alive tx' s \<Longrightarrow> served (f tx') s"
  shows "served (io_bind (io_lift (from_slate (tx_put S tx k x))) f) s"
  using put_alive [OF assms(1), of k x] assms(2) by (auto intro!: served_bind_Ok)

lemma served_delete:
  assumes "alive tx s" and "\<And>tx'. alive tx' s \<Longrightarrow> served (f tx') s"
  shows "served (io_bind (io_lift (from_slate (tx_delete S tx k))) f) s"
  using delete_alive [OF assms(1), of k] assms(2) by (auto intro!: served_bind_Ok)

lemma delete_scanned_alive: "alive tx s \<Longrightarrow> \<exists>tx'. delete_scanned S tx (map Inr kvs) = Ok tx' \<and> alive tx' s"
proof (induction kvs arbitrary: tx)
  case (Cons kv kvs)
  with delete_alive [OF Cons.prems, of "fst kv"] show ?case by auto
qed simp

lemma delete_chunks_alive:
  assumes "alive tx s"
  obtains tx' s' where "delete_chunks S tx f s = (Ok tx', s')" and "alive tx' s'"
proof (cases "tx_scan_prefix S tx (chunk_prefix f) s")
  case (Pair q s')
  from scan_alive [OF assms Pair] obtain kvs where q: "q = Inr (map Inr kvs)" "alive tx s'" by blast
  with delete_scanned_alive [OF q(2), of kvs] Pair that show ?thesis
    by (auto simp: delete_chunks_def slate_def io_bind_def)
qed

lemma served_chunks:
  assumes "alive tx s" and "\<And>tx' s'. alive tx' s' \<Longrightarrow> served (f tx') s'"
  shows "served (io_bind (delete_chunks S tx g) f) s"
  by (rule delete_chunks_alive [OF assms(1), of g]) (auto intro: served_bind_Ok assms(2))

lemma served_commit: "alive tx s \<Longrightarrow> served (slate (tx_commit S tx)) s"
  using commit_alive [of tx s] by (auto simp: served_def io_sat_def slate_def split: prod.split)

lemma served_commit_return:
  assumes "alive tx s"
  shows "served (io_bind (slate (tx_commit S tx)) (\<lambda>_. io_return x)) s"
proof (cases "tx_commit S tx s")
  case (Pair w s')
  with commit_alive [OF assms Pair] show ?thesis by (simp add: served_def io_sat_def slate_def io_bind_def)
qed

lemma served_found:
  assumes "alive tx s" and "\<And>f. served (g f) s"
  shows "served (io_bind (io_lift (case b of None \<Rightarrow> Err (file_not_found p) | Some bs \<Rightarrow> decode_file_id bs rec)) g) s"
  by (rule served_bind_lift [OF alive_good [OF assms(1)] assms(2)])
    (auto simp: file_not_found_def code_def split: option.splits dest: decode_file_id_Err [unfolded code_def])

lemmas served_steps = served_validate served_begin served_get served_put served_delete served_chunks served_found
  served_commit served_commit_return

section \<open>The operations of the catalog\<close>

lemma remove_served: "good s \<Longrightarrow> served (dm_remove_file S db p) s"
  unfolding dm_remove_file_def by (rule served_steps | assumption)+

text \<open>The step of a move that drops what the target named, in a live transaction.\<close>

lemma served_target:
  assumes "alive tx s" and "\<And>tx' s'. alive tx' s' \<Longrightarrow> served (k tx') s'"
  shows "served (io_bind (case at_target of
       None \<Rightarrow> io_return tx
     | Some bs \<Rightarrow>
         io_bind (io_lift (decode_file_id bs ''target path mapping'')) (\<lambda>g.
         if g \<noteq> f
         then io_bind (io_lift (from_slate (tx_delete S tx (metadata_key g)))) (\<lambda>tx. delete_chunks S tx g)
         else io_return tx)) k) s"
proof (cases at_target)
  case (Some bs)
  show ?thesis
  proof (cases "decode_file_id bs ''target path mapping''")
    case (Ok g)
    obtain tx1 where tx1: "tx_delete S tx (metadata_key g) = Inr tx1" "alive tx1 s" using delete_alive [OF assms(1)] by blast
    obtain tx2 s2 where "delete_chunks S tx1 g s = (Ok tx2, s2)" "alive tx2 s2"
      by (rule delete_chunks_alive [OF tx1(2), of g])
    with Some Ok tx1 assms show ?thesis by (simp add: served_def io_sat_def io_bind_def)
  next
    case (Err e)
    with Some decode_file_id_Err [OF Err] alive_good [OF assms(1)] show ?thesis
      by (simp add: served_def io_sat_def io_bind_def)
  qed simp
qed (use assms in \<open>simp add: served_def io_sat_def\<close>)

lemma move_served: "good s \<Longrightarrow> served (dm_move_file S db src target) s"
  unfolding dm_move_file_def
  by (rule served_validate, assumption, rule served_validate, assumption, cases "src = target")
    (simp_all only: refl if_True if_False, rule served_return, assumption,
      (rule served_target served_steps | assumption)+)

lemma find_file_alive:
  assumes "alive tx s" and "find_file P (tx_get S tx) p s = (r, s')"
  shows "alive tx s' \<and> (\<forall>e. r = Err e \<longrightarrow> code e = CodeMetadataDecode)"
  using get_alive assms by (rule find_file_served)

lemma served_find:
  assumes "alive tx s" and "\<And>found s'. alive tx s' \<Longrightarrow> served (k found) s'"
  shows "served (io_bind (find_file P (tx_get S tx) p) k) s"
proof (cases "find_file P (tx_get S tx) p s")
  case (Pair r s')
  from find_file_alive [OF assms(1) Pair] assms(2) alive_good [of tx s'] Pair show ?thesis
    by (cases r) (auto intro: served_bind_Ok simp: served_def io_sat_def io_bind_def)
qed

lemma allocate_served:
  assumes "alive tx s"
  shows "served (allocate_file S P now tx p) s"
proof -
  have nid: "(case found of Some bs \<Rightarrow> decode_file_id bs ''next file ID'' | None \<Rightarrow> Ok 1) = Err e \<Longrightarrow> \<not> slate_failure e"
    for found e by (auto split: option.splits dest: decode_file_id_Err)
  have add: "(case checked_add f 1 of None \<Rightarrow> Err (metadata_decode msg) | Some n \<Rightarrow> Ok n) = Err e \<Longrightarrow> \<not> slate_failure e"
    for f msg e by (auto simp: metadata_decode_def code_def split: option.splits)
  show ?thesis unfolding allocate_file_def Let_def
    apply (rule served_get [OF assms])
    apply (rule served_bind_lift [OF alive_good _ nid], assumption)
     apply (rule served_bind_lift [OF alive_good _ add], assumption)
      apply ((rule served_steps | assumption)+)
    done
qed

lemma prepare_served:
  assumes "good s"
  shows "served (prepare_file_for_open S P now db p create truncate_existing) s"
  unfolding prepare_file_for_open_def
proof (rule served_validate [OF assms], rule served_begin [OF assms], rule served_find, assumption)
  fix tx found s' assume a: "alive tx s'"
  have clear: "served (io_bind (delete_chunks S tx f) (\<lambda>tx.
      io_bind (io_lift (from_slate (tx_put S tx (metadata_key f) x))) (\<lambda>tx.
      io_bind (slate (tx_commit S tx)) (\<lambda>_. io_return y)))) s'" for f x and y :: "u64 \<times> FileMetadata"
    by (rule a served_steps | assumption)+
  have none: "served (io_lift (Err (file_not_found p)) :: ('s, u64 \<times> FileMetadata) io) s'"
    by (rule served_lift [OF alive_good [OF a]]) (auto simp: file_not_found_def code_def)
  show "served (case found of
       Some (file_id, md) \<Rightarrow>
         if truncate_existing
         then io_bind (delete_chunks S tx file_id) (\<lambda>tx.
              let md = file_metadata_new now in
              io_bind (io_lift (from_slate (tx_put S tx (metadata_key file_id) (encode_to_bytes P md)))) (\<lambda>tx.
              io_bind (slate (tx_commit S tx)) (\<lambda>_.
              io_return (file_id, md))))
         else io_return (file_id, md)
     | None \<Rightarrow>
         if \<not> create then io_lift (Err (file_not_found p))
         else allocate_file S P now tx p) s'"
    by (simp add: Let_def clear none allocate_served [OF a] served_return [OF alive_good [OF a]] split: option.split)
qed

end

context reliable_tx
begin

text \<open>Lookups through the writer.\<close>

lemma open_served: "good s \<Longrightarrow> served (dm_open_file P (db_get S db) p) s"
proof (unfold served_def, rule io_satI)
  fix r s' assume s: "good s" and run: "dm_open_file P (db_get S db) p s = (r, s')"
  obtain q s1 where q: "find_file P (db_get S db) p s = (q, s1)" by fastforce
  have "good s1 \<and> (\<forall>e. q = Err e \<longrightarrow> code e = CodeMetadataDecode)"
    using db_get_good s q by (rule find_file_served)
  with run q s show "good s' \<and> (\<forall>e. r = Err e \<longrightarrow> \<not> slate_failure e)"
    by (cases q) (auto simp: dm_open_file_def validate_path_def file_not_found_def invalid_argument_def code_def
        split: if_splits option.splits)
qed

lemma exists_served: "good s \<Longrightarrow> served (dm_file_exists (db_get S db) p) s"
proof (unfold served_def, rule io_satI)
  fix r s' assume s: "good s" and run: "dm_file_exists (db_get S db) p s = (r, s')"
  obtain q s1 where q: "db_get S db (path_key p) s = (q, s1)" by fastforce
  from db_get_good [OF s q] run q s show "good s' \<and> (\<forall>e. r = Err e \<longrightarrow> \<not> slate_failure e)"
    by (auto simp: dm_file_exists_def validate_path_def invalid_argument_def code_def slate_def split: if_splits)
qed

end

text \<open>In memory, a transaction is alive while its database is what it was when the transaction began.\<close>

interpretation mem_live_tx: reliable_tx mem_slatedb mem_view mem_durable mt_path "\<lambda>tx. map_of (mt_snapshot tx)" mt_writes
  "\<lambda>s. mem_faults s = []" "\<lambda>tx s. mem_faults s = [] \<and> mem_db (mt_path tx) s = mt_snapshot tx"
  by unfold_locales (auto simp: mem_slatedb_def mem_call_def mem_entries_def mem_set_def)

end
