(* ===== verification/Path_Operations.thy ===== *)
theory Path_Operations
  imports Catalog_Liveness
begin

text \<open>
  The operations of the filesystem on paths, over a group whose writer is open, against a map from paths
  to bytes. Each operation is an operation on the map; an error of the store leaves the map as it was or
  with the whole update made. On a store that serves every call the errors are those of the map.
\<close>

section \<open>The abstract filesystem\<close>

datatype path_op = RemovePath path | MovePath path path | OpenPath path FileOpenFlags | PathExists path

datatype path_reply = Done | Found bool | Opened u64

definition spec_open :: "path \<Rightarrow> FileOpenFlags \<Rightarrow> (path \<rightharpoonup> bytes) \<Rightarrow> bytes outcome \<times> (path \<rightharpoonup> bytes)" where
  "spec_open p fl a = (case a p of
     Some bs \<Rightarrow> if fl_truncate_existing fl then (Ok [], a(p \<mapsto> [])) else (Ok bs, a)
   | None \<Rightarrow> if fl_create fl then (Ok [], a(p \<mapsto> [])) else (Err (file_not_found p), a))"

lemma spec_open_cases:
  "a p \<noteq> None \<Longrightarrow> fl_truncate_existing fl \<Longrightarrow> spec_open p fl a = (Ok [], a(p \<mapsto> []))"
  "a p = Some bs \<Longrightarrow> \<not> fl_truncate_existing fl \<Longrightarrow> spec_open p fl a = (Ok bs, a)"
  "a p = None \<Longrightarrow> fl_create fl \<Longrightarrow> spec_open p fl a = (Ok [], a(p \<mapsto> []))"
  "a p = None \<Longrightarrow> \<not> fl_create fl \<Longrightarrow> spec_open p fl a = (Err (file_not_found p), a)"
  by (auto simp: spec_open_def)

fun spec_path_op :: "path_op \<Rightarrow> (path \<rightharpoonup> bytes) \<Rightarrow> path_reply outcome \<times> (path \<rightharpoonup> bytes)" where
  "spec_path_op (RemovePath p) a =
     (if a p = None then (Err (file_not_found p), a) else (Ok Done, a(p := None)))"
| "spec_path_op (MovePath src target) a =
     (if src = target then (Ok Done, a)
      else if a src = None then (Err (file_not_found src), a)
      else (Ok Done, a(src := None, target := a src)))"
| "spec_path_op (OpenPath p fl) a =
     (case spec_open p fl a of (r, a') \<Rightarrow> (map_outcome (\<lambda>bs. Opened (length bs)) r, a'))"
| "spec_path_op (PathExists p) a = (Ok (Found (a p \<noteq> None)), a)"

text \<open>The same operations on the filesystem; of an opened handle the reply keeps the size.\<close>

fun exec_path_op ::
  "('s, 'db, 'rd) slate_builder \<Rightarrow> ('s, 'db, 'rd, 'tx) slatedb \<Rightarrow> codec \<Rightarrow> int \<times> path_op
     \<Rightarrow> (('db, 'rd) file_system \<times> 's, path_reply) io" where
  "exec_path_op B S P (now, RemovePath p) = io_bind (fs_remove_file B S p) (\<lambda>_. io_return Done)"
| "exec_path_op B S P (now, MovePath src target) = io_bind (fs_move_file B S src target) (\<lambda>_. io_return Done)"
| "exec_path_op B S P (now, OpenPath p fl) =
     io_bind (fs_open_file B S P now p fl) (\<lambda>h. io_return (Opened (file_size h)))"
| "exec_path_op B S P (now, PathExists p) = io_bind (fs_file_exists B S p) (\<lambda>b. io_return (Found b))"

text \<open>Operations on paths of one group, with paths and flags that are not refused beforehand.\<close>

fun path_op_valid :: "string \<Rightarrow> path_op \<Rightarrow> bool" where
  "path_op_valid g (RemovePath p) \<longleftrightarrow> p \<noteq> [] \<and> database_group p = g"
| "path_op_valid g (MovePath src target) \<longleftrightarrow>
     src \<noteq> [] \<and> target \<noteq> [] \<and> database_group src = g \<and> database_group target = g"
| "path_op_valid g (OpenPath p fl) \<longleftrightarrow> p \<noteq> [] \<and> database_group p = g \<and> flags_wf fl"
| "path_op_valid g (PathExists p) \<longleftrightarrow> p \<noteq> [] \<and> database_group p = g"

text \<open>
  What an operation may do where the abstract one returns \<open>r0\<close> and gives \<open>a0\<close>: the same, or fail in the
  store with the update made or not.
\<close>

definition follows :: "(path \<rightharpoonup> bytes) \<Rightarrow> 'a outcome \<times> (path \<rightharpoonup> bytes) \<Rightarrow> 'a outcome \<times> (path \<rightharpoonup> bytes) \<Rightarrow> bool" where
  "follows a x y \<longleftrightarrow> x = y \<or>
     (\<exists>e. fst x = Err e \<and> code e = CodeSlateDb \<and> (snd x = a \<or> snd x = snd y))"

lemma follows_same: "follows a x x"
  by (simp add: follows_def)

lemma follows_failure: "code e = CodeSlateDb \<Longrightarrow> a' = a \<or> a' = snd y \<Longrightarrow> follows a (Err e, a') y"
  by (auto simp: follows_def)

lemma follows_map: "follows a (r, a') (r0, a0) \<Longrightarrow> follows a (map_outcome f r, a') (map_outcome f r0, a0)"
  by (auto simp: follows_def)

section \<open>A group whose writer is open\<close>

definition serving :: "('db, 'rd) file_system \<Rightarrow> string \<Rightarrow> 'db \<Rightarrow> bool" where
  "serving fs g db \<longleftrightarrow> \<not> closed fs \<and> writer_of fs g = Some db"

lemma write_db_serving:
  assumes "serving fs (database_group p) db"
  obtains fs' where "write_db B p create (fs, s) = (Ok db, (fs', s))" and "serving fs' (database_group p) db"
proof -
  let ?g = "database_group p"
  obtain fs1 where c1: "client_for_group ?g (fs, s) = (Ok (case map_of (databases fs) ?g of Some c \<Rightarrow> c | None \<Rightarrow> client_default), (fs1, s))"
    and f1: "same_config fs fs1" "\<forall>k. writer_of fs1 k = writer_of fs k \<and> reader_of fs1 k = reader_of fs k"
    using client_for_group_eq [of ?g fs s] by (elim exE conjE)
  have "write_db B p create (fs, s) = (Ok db, (fs1, s))"
    using c1 client_of_parts(1) [of fs ?g] assms by (auto simp: write_db_def Let_def serving_def)
  with that f1 assms show ?thesis by (auto simp: serving_def same_config_def)
qed

lemma read_client_serving:
  assumes "serving fs (database_group p) db"
  obtains c fs' where "read_client B p (fs, s) = (Ok c, (fs', s))" and "read_write c = Some db"
    and "serving fs' (database_group p) db"
proof -
  let ?g = "database_group p"
  let ?c = "case map_of (databases fs) ?g of Some c \<Rightarrow> c | None \<Rightarrow> client_default"
  obtain fs1 where c1: "client_for_group ?g (fs, s) = (Ok ?c, (fs1, s))"
    and f1: "same_config fs fs1" "\<forall>k. writer_of fs1 k = writer_of fs k \<and> reader_of fs1 k = reader_of fs k"
    using client_for_group_eq [of ?g fs s] by (elim exE conjE)
  have "read_client B p (fs, s) = (Ok ?c, (fs1, s))"
    using c1 client_of_parts(1) [of fs ?g] assms by (auto simp: read_client_def Let_def serving_def)
  with that [of ?c fs1] client_of_parts(1) [of fs ?g] f1 assms show ?thesis by (auto simp: serving_def same_config_def)
qed

text \<open>A handle just opened on a path: nothing staged, and it shows what the map has there.\<close>

definition opened_handle ::
  "('s, 'db, 'rd, 'tx) slatedb \<Rightarrow> codec \<Rightarrow> 'db \<Rightarrow> path \<Rightarrow> FileOpenFlags \<Rightarrow> contents \<Rightarrow> ('s, 'db, 'rd) file_handle \<Rightarrow> bool" where
  "opened_handle S P db p fl v h \<longleftrightarrow> handle_inv S db h v \<and> catalog v p = Some (fh_file_id h)
     \<and> metadata_of P v (fh_file_id h) = Some (handle_metadata h) \<and> fh_flags h = fl
     \<and> cm_pending (chunks h) = [] \<and> \<not> metadata_dirty h \<and> stored_files P v p = Some (file_bytes h v)"

text \<open>Opening a handle on a file of a well-formed database succeeds, and shows the stored file.\<close>

lemma file_handle_new_stored:
  assumes fl: "flags_wf fl" and wf: "db_wf P v" and f: "catalog v p = Some f" and md: "metadata_of P v f = Some md"
  obtains h where "file_handle_new S (ReadWrite db) f md fl = Ok h" and "opened_handle S P db p fl v h"
proof -
  have ok: "metadata_ok md" using db_wf_metadata [OF wf f] md by auto
  then have "validated_chunk_size md f = Ok (md_chunk_size md)"
    by (simp add: validated_chunk_size_eq_Ok metadata_ok_def geometry_def)
  moreover have "flags_validate fl = Ok ()" using fl by simp
  ultimately obtain h where h: "file_handle_new S (ReadWrite db) f md fl = Ok h"
    by (simp add: file_handle_new_def with_chunk_store_internal_def o_bind_def)
  note i = file_handle_new_inv [OF h wf f md]
  have "cm_file_id (chunks h) = fh_file_id h" using i by (auto simp: handle_inv_def fh_wf_def)
  then have "stored_file P v f = Some (file_bytes h v)"
    using i md file_bytes_stored [of "slatedb_chunk_store S db" h v v P] by (auto simp: handle_inv_def chunk_at_def)
  with that [OF h] i f md stored_files_at [OF f] show ?thesis by (simp add: opened_handle_def)
qed

section \<open>The operations follow the map\<close>

text \<open>What clearing and creating a file leave in the map, in the catalog and of the counter.\<close>

lemma new_metadata_of:
  "metadata_codec P \<Longrightarrow> v (metadata_key f) = Some (encode_to_bytes P (file_metadata_new now)) \<Longrightarrow>
   metadata_of P v f = Some (file_metadata_new now)"
  using metadata_ok_new [of now] by (intro metadata_of_encoded) (auto simp: metadata_ok_def)

lemma cleared_effect:
  assumes wf: "db_wf P v" and f: "catalog v p = Some f" and P: "metadata_codec P"
  shows "stored_files P (cleared P f (file_metadata_new now) v) = (stored_files P v)(p \<mapsto> [])"
    and "stored_files P v p \<noteq> None" and "next_file_id (cleared P f (file_metadata_new now) v) = next_file_id v"
    and "catalog (cleared P f (file_metadata_new now) v) p = Some f"
    and "metadata_of P (cleared P f (file_metadata_new now) v) f = Some (file_metadata_new now)"
proof -
  show "stored_files P (cleared P f (file_metadata_new now) v) = (stored_files P v)(p \<mapsto> [])"
    by (rule stored_files_cleared [OF wf f P])
  show "stored_files P v p \<noteq> None" using stored_files_dom [OF wf, of p] f by simp
  show "next_file_id (cleared P f (file_metadata_new now) v) = next_file_id v"
    using catalog_bound [OF f] by (intro next_file_id_cong) (simp add: cleared_def)
  show "catalog (cleared P f (file_metadata_new now) v) p = Some f" using f by (simp add: catalog_cleared)
  show "metadata_of P (cleared P f (file_metadata_new now) v) f = Some (file_metadata_new now)"
    by (rule new_metadata_of [OF P]) (simp add: cleared_def)
qed

lemma created_effect:
  assumes wf: "db_wf P v" and ids: "next_file_id v + 1 < u64_size" and P: "metadata_codec P"
  shows "stored_files P (created P p (file_metadata_new now) v) = (stored_files P v)(p \<mapsto> [])"
    and "next_file_id (created P p (file_metadata_new now) v) = next_file_id v + 1"
    and "catalog (created P p (file_metadata_new now) v) p = Some (next_file_id v)"
    and "metadata_of P (created P p (file_metadata_new now) v) (next_file_id v) = Some (file_metadata_new now)"
proof -
  have n: "0 < next_file_id v" "next_file_id v < u64_size" using db_wf_next(1) [OF wf] ids by auto
  show "stored_files P (created P p (file_metadata_new now) v) = (stored_files P v)(p \<mapsto> [])"
    by (rule stored_files_created [OF wf ids P])
  show "next_file_id (created P p (file_metadata_new now) v) = next_file_id v + 1" by (rule next_created [OF ids])
  show "catalog (created P p (file_metadata_new now) v) p = Some (next_file_id v)" by (simp add: catalog_created [OF n])
  show "metadata_of P (created P p (file_metadata_new now) v) (next_file_id v) = Some (file_metadata_new now)"
    using n by (intro new_metadata_of [OF P]) (simp add: created_def)
qed

text \<open>What an operation leaves: a well-formed database, and a counter that moved by one step at most.\<close>

definition leaves :: "codec \<Rightarrow> contents \<Rightarrow> contents \<Rightarrow> bool" where
  "leaves P v v' \<longleftrightarrow> db_wf P v' \<and> next_file_id v' \<le> next_file_id v + 1"

text \<open>The one error that is neither of the map nor of the store: the id counter is at its end.\<close>

definition ids_exhausted :: "error \<Rightarrow> contents \<Rightarrow> bool" where
  "ids_exhausted e v \<longleftrightarrow> code e = CodeMetadataDecode \<and> next_file_id v + 1 = u64_size"

context slate_tx
begin

lemma remove_follows:
  assumes run: "dm_remove_file S db p s = (r, s')" and wf: "db_wf P (view db s)" and p: "p \<noteq> []"
  shows "leaves P (view db s) (view db s') \<and>
    follows (stored_files P (view db s)) (map_outcome (\<lambda>_. Done) r, stored_files P (view db s'))
      (spec_path_op (RemovePath p) (stored_files P (view db s)))"
proof -
  let ?v = "view db s"
  note sat = io_satD [OF dm_remove_file_sat run] and wf' = dm_remove_file_wf [OF run wf]
  have eff: "stored_files P (removed p f ?v) = (stored_files P ?v)(p := None) \<and> stored_files P ?v p \<noteq> None
      \<and> next_file_id (removed p f ?v) = next_file_id ?v" if f: "catalog ?v p = Some f" for f
    using stored_files_removed [OF wf f] stored_files_dom [OF wf, of p] f catalog_bound [OF f]
    by (auto intro!: next_file_id_cong simp: removed_def without_file_def)
  show ?thesis
  proof (cases r)
    case (Ok u)
    with sat obtain f where "catalog ?v p = Some f" "view db s' = removed p f ?v" by auto
    with eff [of f] wf' Ok show ?thesis by (auto simp: leaves_def follows_def)
  next
    case (Err e)
    with sat consider "path_failure ?v p e" "view db s' = ?v"
      | "code e = CodeSlateDb" "view db s' = ?v"
      | f where "code e = CodeSlateDb" "catalog ?v p = Some f" "view db s' = removed p f ?v"
      by (auto simp: atomic_change_def)
    then show ?thesis
    proof cases
      case 1
      with path_failure_wf [OF 1(1) wf p] stored_files_dom [OF wf, of p] wf Err show ?thesis
        by (simp add: leaves_def follows_def)
    next
      case 2
      with wf Err show ?thesis by (simp add: leaves_def follows_failure)
    next
      case (3 f)
      with eff [of f] wf' Err show ?thesis by (auto simp: leaves_def intro!: follows_failure)
    qed
  qed (use sat in simp)
qed

lemma move_follows:
  assumes run: "dm_move_file S db src target s = (r, s')" and wf: "db_wf P (view db s)"
    and p: "src \<noteq> []" "target \<noteq> []"
  shows "leaves P (view db s) (view db s') \<and>
    follows (stored_files P (view db s)) (map_outcome (\<lambda>_. Done) r, stored_files P (view db s'))
      (spec_path_op (MovePath src target) (stored_files P (view db s)))"
proof -
  let ?v = "view db s"
  note sat = io_satD [OF dm_move_file_sat run] and wf' = dm_move_file_wf [OF run wf]
  have eff: "stored_files P (moved src target f ?v) = (stored_files P ?v)(src := None, target := stored_files P ?v src)
      \<and> stored_files P ?v src \<noteq> None \<and> next_file_id (moved src target f ?v) = next_file_id ?v"
    if f: "catalog ?v src = Some f" and ne: "src \<noteq> target" for f
  proof -
    have "next_file_id (moved src target f ?v) = next_file_id ?v"
      using catalog_bound [of ?v target]
      by (intro next_file_id_cong) (cases "catalog ?v target", auto simp: moved_def without_file_def)
    then show ?thesis using stored_files_moved [OF wf f ne] stored_files_dom [OF wf, of src] f by simp
  qed
  have no_target: "\<not> (path_failure ?v target e \<and> code e \<noteq> CodeFileNotFound)" for e
    using path_failure_wf [OF _ wf p(2), of e] by (auto simp: file_not_found_def code_def)
  have same: "r = Ok ()" if "src = target"
    using run p that by (auto simp: dm_move_file_def validate_path_def)
  show ?thesis
  proof (cases r)
    case (Ok u)
    with sat consider "src = target" "view db s' = ?v"
      | f where "src \<noteq> target" "catalog ?v src = Some f" "view db s' = moved src target f ?v" by auto
    then show ?thesis using eff wf wf' Ok by cases (auto simp: leaves_def follows_def)
  next
    case (Err e)
    with sat same no_target [of e] consider "path_failure ?v src e" "src \<noteq> target" "view db s' = ?v"
      | "code e = CodeSlateDb" "view db s' = ?v"
      | f where "code e = CodeSlateDb" "src \<noteq> target" "catalog ?v src = Some f" "view db s' = moved src target f ?v"
      by (auto simp: atomic_change_def)
    then show ?thesis
    proof cases
      case 1
      with path_failure_wf [OF 1(1) wf p(1)] stored_files_dom [OF wf, of src] wf Err show ?thesis
        by (simp add: leaves_def follows_def)
    next
      case 2
      with wf Err show ?thesis by (simp add: leaves_def follows_failure)
    next
      case (3 f)
      with eff [of f] wf' Err show ?thesis by (auto simp: leaves_def intro!: follows_failure)
    qed
  qed (use sat in simp)
qed

text \<open>Preparing a file: on success the file of the path is the one the abstract operation opens.\<close>

lemma prepare_follows:
  assumes run: "prepare_file_for_open S P now db p (fl_create fl) (fl_truncate_existing fl) s = (r, s')"
    and wf: "db_wf P (view db s)" and p: "p \<noteq> []" and P: "metadata_codec P"
  shows "leaves P (view db s) (view db s') \<and>
    (case r of
       Ok (f, md) \<Rightarrow> catalog (view db s') p = Some f \<and> metadata_of P (view db s') f = Some md \<and>
         (\<exists>bs. stored_files P (view db s') p = Some bs \<and>
            spec_open p fl (stored_files P (view db s)) = (Ok bs, stored_files P (view db s')))
     | Err e \<Rightarrow> follows (stored_files P (view db s)) (Err e, stored_files P (view db s'))
         (spec_open p fl (stored_files P (view db s))) \<or> (ids_exhausted e (view db s) \<and> view db s' = view db s)
     | Panic _ \<Rightarrow> False)"
proof -
  let ?v = "view db s" and ?md = "file_metadata_new now"
  let ?a = "stored_files P ?v"
  note sat = io_satD [OF prepare_file_for_open_sat run] and wf' = prepare_file_for_open_wf [OF run wf P]
  have path: "?v (path_key p) \<noteq> None \<longleftrightarrow> catalog ?v p \<noteq> None" using db_wf_path [OF wf] by (auto elim: catalog_SomeE)
  note clear = cleared_effect [OF wf _ P] and create = created_effect [OF wf _ P]
  have absent: "?a p = None" if "?v (path_key p) = None" using that stored_files_dom [OF wf, of p] path by simp
  show ?thesis
  proof (cases r)
    case (Ok fm)
    obtain f md' where fm: "fm = (f, md')" by (cases fm)
    with sat Ok consider
        "catalog ?v p = Some f" "fl_truncate_existing fl" "md' = ?md" "view db s' = cleared P f ?md ?v"
      | "catalog ?v p = Some f" "\<not> fl_truncate_existing fl" "metadata_of P ?v f = Some md'" "view db s' = ?v"
      | "?v (path_key p) = None" "fl_create fl" "f = next_file_id ?v" "next_file_id ?v + 1 < u64_size" "md' = ?md"
        "view db s' = created P p ?md ?v"
      by (auto split: if_splits)
    then show ?thesis
    proof cases
      case 1
      with clear [OF 1(1)] wf' Ok fm show ?thesis by (simp add: leaves_def spec_open_cases)
    next
      case 2
      then obtain bs where "?a p = Some bs" using stored_files_dom [OF wf, of p] by auto
      with 2 wf Ok fm show ?thesis by (simp add: leaves_def spec_open_cases)
    next
      case 3
      with create [OF 3(4)] absent wf' Ok fm show ?thesis by (simp add: leaves_def spec_open_cases)
    qed
  next
    case (Err e)
    with sat wf p consider "\<not> fl_create fl" "?v (path_key p) = None" "e = file_not_found p" "view db s' = ?v"
      | "code e = CodeSlateDb" "view db s' = ?v"
      | f where "code e = CodeSlateDb" "fl_truncate_existing fl" "catalog ?v p = Some f" "view db s' = cleared P f ?md ?v"
      | "code e = CodeSlateDb" "fl_create fl" "?v (path_key p) = None" "next_file_id ?v + 1 < u64_size"
        "view db s' = created P p ?md ?v"
      | "ids_exhausted e ?v" "view db s' = ?v"
      by (auto simp: atomic_change_def ids_exhausted_def)
    then show ?thesis
    proof cases
      case 1
      with absent wf Err show ?thesis by (simp add: leaves_def follows_def spec_open_cases)
    next
      case 2
      with wf Err show ?thesis by (simp add: leaves_def follows_failure)
    next
      case (3 f)
      with clear [OF 3(3)] wf' Err show ?thesis by (simp add: leaves_def spec_open_cases follows_failure)
    next
      case 4
      with create [OF 4(4)] absent wf' Err show ?thesis by (simp add: leaves_def spec_open_cases follows_failure)
    next
      case 5
      with wf Err show ?thesis by (simp add: leaves_def)
    qed
  qed (use sat in simp)
qed

text \<open>Opening a path, for writing or for reading, through the writer of its group.\<close>

lemma open_file_follows:
  assumes run: "fs_open_file B S P now p fl (fs, s) = (r, (fs', s'))" and sv: "serving fs (database_group p) db"
    and wf: "db_wf P (view db s)" and p: "p \<noteq> []" and fl: "flags_wf fl" and P: "metadata_codec P"
  shows "serving fs' (database_group p) db \<and> leaves P (view db s) (view db s') \<and>
    (case r of
       Ok h \<Rightarrow> opened_handle S P db p fl (view db s') h \<and>
         spec_open p fl (stored_files P (view db s)) = (Ok (file_bytes h (view db s')), stored_files P (view db s'))
     | Err e \<Rightarrow> follows (stored_files P (view db s)) (Err e, stored_files P (view db s'))
         (spec_open p fl (stored_files P (view db s))) \<or> (ids_exhausted e (view db s) \<and> view db s' = view db s)
     | Panic _ \<Rightarrow> False)"
proof (cases "fl_write fl")
  case True
  obtain fs1 where w: "write_db B p (fl_create fl) (fs, s) = (Ok db, (fs1, s))" and sv1: "serving fs1 (database_group p) db"
    by (rule write_db_serving [OF sv])
  obtain q s1 where q: "prepare_file_for_open S P now db p (fl_create fl) (fl_truncate_existing fl) s = (q, s1)" by fastforce
  note pr = prepare_follows [OF q wf p P]
  show ?thesis
  proof (cases q)
    case (Ok fm)
    obtain f md where fm: "fm = (f, md)" by (cases fm)
    have "db_wf P (view db s1)" using pr by (simp add: leaves_def)
    then obtain h where h: "file_handle_new S (ReadWrite db) f md fl = Ok h" "opened_handle S P db p fl (view db s1) h"
      using file_handle_new_stored [OF fl, of P "view db s1" p f md S db] pr Ok fm by auto
    with run True fl w q Ok fm have "r = Ok h" "fs' = fs1" "s' = s1" by (auto simp: fs_open_file_def open_write_handle_def)
    moreover have "stored_files P (view db s1) p = Some (file_bytes h (view db s1))" using h(2) by (simp add: opened_handle_def)
    ultimately show ?thesis using h(2) sv1 pr Ok fm by simp
  next
    case (Err e)
    with run True fl w q sv1 pr show ?thesis by (auto simp: fs_open_file_def open_write_handle_def)
  qed (use pr in simp)
next
  case False
  obtain c fs1 where c: "read_client B p (fs, s) = (Ok c, (fs1, s))" "read_write c = Some db"
    and sv1: "serving fs1 (database_group p) db" by (rule read_client_serving [OF sv])
  obtain q s1 where q: "dm_open_file P (db_get S db) p s = (q, s1)" by fastforce
  note o = writer_open_file [OF q]
  have fl': "\<not> fl_create fl" "\<not> fl_truncate_existing fl" using False fl by (auto simp: flags_wf_def)
  have v1: "view db s1 = view db s" using o by simp
  show ?thesis
  proof (cases q)
    case (Ok fm)
    obtain f md where fm: "fm = (f, md)" by (cases fm)
    obtain h where h: "file_handle_new S (ReadWrite db) f md fl = Ok h" "opened_handle S P db p fl (view db s) h"
      using file_handle_new_stored [OF fl wf, of p f md S db] o Ok fm by auto
    with run False fl c q Ok fm have "r = Ok h" "fs' = fs1" "s' = s1" by (auto simp: fs_open_file_def open_read_handle_def)
    moreover have "stored_files P (view db s) p = Some (file_bytes h (view db s))" using h(2) by (simp add: opened_handle_def)
    ultimately show ?thesis using h(2) sv1 v1 wf fl' by (simp add: spec_open_cases leaves_def)
  next
    case (Err e)
    have "stored_files P (view db s) p = None" if "view db s (path_key p) = None"
      using that stored_files_dom [OF wf, of p] by (simp add: catalog_def)
    with o Err wf p fl' v1 have "follows (stored_files P (view db s)) (Err e, stored_files P (view db s1))
        (spec_open p fl (stored_files P (view db s)))"
      by (cases "code e = CodeSlateDb") (auto simp: follows_failure follows_same spec_open_cases)
    with run False fl c q Err sv1 v1 wf show ?thesis
      by (auto simp: fs_open_file_def open_read_handle_def leaves_def)
  qed (use o in simp)
qed

lemma file_exists_follows:
  assumes run: "fs_file_exists B S p (fs, s) = (r, (fs', s'))" and sv: "serving fs (database_group p) db"
    and wf: "db_wf P (view db s)" and p: "p \<noteq> []"
  shows "serving fs' (database_group p) db \<and> view db s' = view db s \<and>
    (r = Ok (stored_files P (view db s) p \<noteq> None) \<or> (\<exists>e. r = Err e \<and> code e = CodeSlateDb))"
proof -
  obtain c fs1 where c: "read_client B p (fs, s) = (Ok c, (fs1, s))" "read_write c = Some db"
    and sv1: "serving fs1 (database_group p) db" by (rule read_client_serving [OF sv])
  obtain q s1 where q: "dm_file_exists (db_get S db) p s = (q, s1)" by fastforce
  have path: "view db s (path_key p) \<noteq> None \<longleftrightarrow> catalog (view db s) p \<noteq> None"
    using db_wf_path [OF wf] by (auto elim: catalog_SomeE)
  have "r = q" "fs' = fs1" "s' = s1" using run c q by (auto simp: fs_file_exists_def)
  with writer_file_exists [OF q] sv1 p path stored_files_dom [OF wf, of p] show ?thesis by (cases q) auto
qed

text \<open>Every operation on paths follows the map, whatever the store does.\<close>

lemma exec_path_op_follows:
  assumes run: "exec_path_op B S P (now, op) (fs, s) = (r, (fs', s'))" and sv: "serving fs g db"
    and wf: "db_wf P (view db s)" and op: "path_op_valid g op" and P: "metadata_codec P"
    and ids: "\<And>p fl. op = OpenPath p fl \<Longrightarrow> next_file_id (view db s) + 1 < u64_size"
  shows "serving fs' g db \<and> leaves P (view db s) (view db s') \<and>
    follows (stored_files P (view db s)) (r, stored_files P (view db s')) (spec_path_op op (stored_files P (view db s)))"
proof (cases op)
  case (RemovePath p)
  obtain fs1 where w: "write_db B p False (fs, s) = (Ok db, (fs1, s))" and sv1: "serving fs1 g db"
    using write_db_serving [of fs p db B False s] sv op RemovePath by auto
  obtain q s1 where q: "dm_remove_file S db p s = (q, s1)" by fastforce
  have "r = map_outcome (\<lambda>_. Done) q" "fs' = fs1" "s' = s1"
    using run RemovePath w q by (cases q; auto simp: fs_remove_file_def)+
  with remove_follows [OF q wf] op sv1 RemovePath show ?thesis by simp
next
  case (MovePath src target)
  obtain fs1 where w: "write_db B src False (fs, s) = (Ok db, (fs1, s))" and sv1: "serving fs1 g db"
    using write_db_serving [of fs src db B False s] sv op MovePath by auto
  obtain q s1 where q: "dm_move_file S db src target s = (q, s1)" by fastforce
  have "r = map_outcome (\<lambda>_. Done) q" "fs' = fs1" "s' = s1"
    using run MovePath w q op by (cases q; auto simp: fs_move_file_def)+
  with move_follows [OF q wf] op sv1 MovePath show ?thesis by simp
next
  case (OpenPath p fl)
  obtain q fs1 s1 where q: "fs_open_file B S P now p fl (fs, s) = (q, (fs1, s1))" by (metis prod.collapse)
  have r: "r = map_outcome (\<lambda>h. Opened (file_size h)) q" "fs' = fs1" "s' = s1"
    using run OpenPath q by (cases q; auto)+
  have "follows (stored_files P (view db s)) (map_outcome (\<lambda>h. Opened (file_size h)) q, stored_files P (view db s1))
      (spec_path_op op (stored_files P (view db s)))"
    using open_file_follows [OF q _ wf _ _ P] sv op OpenPath ids [OF OpenPath]
    by (cases q) (auto simp: file_size_def follows_same follows_def ids_exhausted_def split: prod.split)
  with r open_file_follows [OF q _ wf _ _ P] sv op OpenPath show ?thesis by auto
next
  case (PathExists p)
  obtain q fs1 s1 where q: "fs_file_exists B S p (fs, s) = (q, (fs1, s1))" by (metis prod.collapse)
  have "r = map_outcome Found q" "fs' = fs1" "s' = s1" using run PathExists q by (cases q; auto)+
  with file_exists_follows [OF q _ wf] sv op wf PathExists show ?thesis
    by (auto simp: leaves_def follows_def)
qed

end

section \<open>Sequences on a store that serves every call\<close>

text \<open>A sequence of operations, each of which is carried out whatever the ones before it returned.\<close>

fun exec_path_ops ::
  "('s, 'db, 'rd) slate_builder \<Rightarrow> ('s, 'db, 'rd, 'tx) slatedb \<Rightarrow> codec \<Rightarrow> (int \<times> path_op) list
     \<Rightarrow> ('db, 'rd) file_system \<times> 's \<Rightarrow> path_reply outcome list \<times> (('db, 'rd) file_system \<times> 's)" where
  "exec_path_ops B S P [] st = ([], st)"
| "exec_path_ops B S P (op # ops) st =
     (case exec_path_op B S P op st of (r, st') \<Rightarrow>
       case exec_path_ops B S P ops st' of (rs, st'') \<Rightarrow> (r # rs, st''))"

fun spec_path_ops :: "path_op list \<Rightarrow> (path \<rightharpoonup> bytes) \<Rightarrow> path_reply outcome list \<times> (path \<rightharpoonup> bytes)" where
  "spec_path_ops [] a = ([], a)"
| "spec_path_ops (op # ops) a =
     (case spec_path_op op a of (r, a') \<Rightarrow> case spec_path_ops ops a' of (rs, a'') \<Rightarrow> (r # rs, a''))"

context reliable_tx
begin

lemma open_file_served:
  assumes s: "good s" and sv: "serving fs (database_group p) db" and fl: "flags_wf fl"
    and run: "fs_open_file B S P now p fl (fs, s) = (r, (fs', s'))"
  shows "good s' \<and> (\<forall>e. r = Err e \<longrightarrow> \<not> slate_failure e)"
proof -
  have new: "file_handle_new S c f md fl = Err e \<Longrightarrow> \<not> slate_failure e" for c f md e
    using flags_validate_eq_Ok [THEN iffD2, OF fl, of "()"] by (auto simp del: flags_validate_eq_Ok simp: file_handle_new_def with_chunk_store_internal_def
        validated_chunk_size_def o_bind_def Let_def ensure_readable_def flags_ensure_def read_only_violation_def invalid_argument_def metadata_decode_def code_def
        split: outcome.splits slate_file_client.splits if_splits option.splits)
  show ?thesis
  proof (cases "fl_write fl")
    case True
    obtain fs1 where w: "write_db B p (fl_create fl) (fs, s) = (Ok db, (fs1, s))" by (rule write_db_serving [OF sv])
    obtain q s1 where q: "prepare_file_for_open S P now db p (fl_create fl) (fl_truncate_existing fl) s = (q, s1)" by fastforce
    from servedD [OF prepare_served [OF s] q] run True fl w q show ?thesis
      by (cases q) (auto simp: fs_open_file_def open_write_handle_def dest: new split: prod.splits)
  next
    case False
    obtain c fs1 where c: "read_client B p (fs, s) = (Ok c, (fs1, s))" "read_write c = Some db"
      by (rule read_client_serving [OF sv])
    obtain q s1 where q: "dm_open_file P (db_get S db) p s = (q, s1)" by fastforce
    from servedD [OF open_served [OF s] q] run False fl c q show ?thesis
      by (cases q) (auto simp: fs_open_file_def open_read_handle_def dest: new split: prod.splits)
  qed
qed

lemma exec_path_op_served:
  assumes s: "good s" and sv: "serving fs g db" and op: "path_op_valid g op"
    and run: "exec_path_op B S P (now, op) (fs, s) = (r, (fs', s'))"
  shows "good s' \<and> (\<forall>e. r = Err e \<longrightarrow> \<not> slate_failure e)"
proof (cases op)
  case (RemovePath p)
  obtain fs1 where w: "write_db B p False (fs, s) = (Ok db, (fs1, s))"
    using write_db_serving [of fs p db B False s] sv op RemovePath by auto
  obtain q s1 where q: "dm_remove_file S db p s = (q, s1)" by fastforce
  from servedD [OF remove_served [OF s] q] run RemovePath w q show ?thesis by (cases q) (auto simp: fs_remove_file_def)
next
  case (MovePath src target)
  obtain fs1 where w: "write_db B src False (fs, s) = (Ok db, (fs1, s))"
    using write_db_serving [of fs src db B False s] sv op MovePath by auto
  obtain q s1 where q: "dm_move_file S db src target s = (q, s1)" by fastforce
  from servedD [OF move_served [OF s] q] run MovePath w q op show ?thesis by (cases q) (auto simp: fs_move_file_def)
next
  case (OpenPath p fl)
  obtain q fs1 s1 where q: "fs_open_file B S P now p fl (fs, s) = (q, (fs1, s1))" by (metis prod.collapse)
  with run OpenPath have r: "s' = s1" "\<And>e. r = Err e \<Longrightarrow> q = Err e" by (cases q; auto)+
  from open_file_served [OF s _ _ q] sv op OpenPath r show ?thesis by auto
next
  case (PathExists p)
  obtain c fs1 where c: "read_client B p (fs, s) = (Ok c, (fs1, s))" "read_write c = Some db"
    by (rule read_client_serving [of fs p db B s]) (use sv op PathExists in auto)
  obtain q s1 where q: "dm_file_exists (db_get S db) p s = (q, s1)" by fastforce
  from servedD [OF exists_served [OF s] q] run PathExists c q show ?thesis by (cases q) (auto simp: fs_file_exists_def)
qed

text \<open>On such a store an operation does what the abstract one does, errors included.\<close>

lemma exec_path_op_live:
  assumes s: "good s" and sv: "serving fs g db" and op: "path_op_valid g op" and P: "metadata_codec P"
    and wf: "db_wf P (view db s)" and ids: "next_file_id (view db s) + 1 < u64_size"
    and run: "exec_path_op B S P (now, op) (fs, s) = (r, (fs', s'))"
  shows "(r, stored_files P (view db s')) = spec_path_op op (stored_files P (view db s)) \<and>
    good s' \<and> serving fs' g db \<and> leaves P (view db s) (view db s')"
  using exec_path_op_served [OF s sv op run] exec_path_op_follows [OF run sv wf op P ids] by (auto simp: follows_def)

lemma exec_path_ops_live:
  assumes "exec_path_ops B S P ops (fs, s) = (rs, (fs', s'))" and "good s" and "serving fs g db"
    and "\<forall>op \<in> snd ` set ops. path_op_valid g op" and P: "metadata_codec P" and "db_wf P (view db s)"
    and "next_file_id (view db s) + length ops < u64_size"
  shows "spec_path_ops (map snd ops) (stored_files P (view db s)) = (rs, stored_files P (view db s')) \<and>
    good s' \<and> serving fs' g db \<and> db_wf P (view db s')"
  using assms(1-4,6-)
proof (induction ops arbitrary: fs s rs)
  case (Cons x ops)
  obtain now op where x: "x = (now, op)" by (cases x)
  obtain r fs1 s1 where 1: "exec_path_op B S P (now, op) (fs, s) = (r, (fs1, s1))" by (metis prod.collapse)
  with Cons.prems(1) x obtain rs1 where 2: "exec_path_ops B S P ops (fs1, s1) = (rs1, (fs', s'))" and rs: "rs = r # rs1"
    by (auto split: prod.splits)
  have op: "path_op_valid g op" "next_file_id (view db s) + 1 < u64_size" using Cons.prems x by auto
  note l = exec_path_op_live [OF Cons.prems(2,3) op(1) P Cons.prems(5) op(2) 1]
  have "next_file_id (view db s1) + length ops < u64_size" using l Cons.prems(6) by (simp add: leaves_def)
  with Cons.IH [OF 2] l Cons.prems(4) rs x show ?case by (auto simp: leaves_def split: prod.splits)
qed simp

end

end
