(* ===== verification/Group_System.thy ===== *)
theory Group_System
  imports Path_Operations
begin

text \<open>
  A group in use: several handles on the files of one database, operations on its paths between them, and
  crashes. The system is a step relation; a step is one call of the filesystem or of a handle, with
  whatever result, or a crash, which takes all handles and leaves the database with some contents that it
  had shown since they were last durable as a whole. Two facts are proved by induction over its runs: the database
  and every handle stay well-formed, and a file that was synced is there with its bytes until it is
  changed, crashes or not.
\<close>

section \<open>States and steps\<close>

record ('s, 'db, 'rd) group_state =
  gs_fs :: "('db, 'rd) file_system"
  gs_handles :: "nat \<rightharpoonup> ('s, 'db, 'rd) file_handle"
  gs_world :: 's
  gs_recent :: "contents set"

text \<open>
  The last component is what a crash may leave. Every step adds the contents it shows. When the durable
  contents of the store are the shown ones, no later crash goes behind them, and older contents are out.
  Nothing here says which step makes them durable: that is up to the calls of the step and to the store.
\<close>

definition recoverable :: "contents \<Rightarrow> contents \<Rightarrow> contents set \<Rightarrow> contents set" where
  "recoverable saved shown recent = (if saved = shown then {shown} else insert shown recent)"

datatype group_event =
  Opening path FileOpenFlags
| PathCall path_op
| FileCall nat file_op "bytes outcome"
| Closing nat "unit outcome"
| Dropping nat
| Crashing

text \<open>The paths whose file an operation takes away.\<close>

fun replaced_paths :: "path_op \<Rightarrow> path set" where
  "replaced_paths (RemovePath p) = {p}"
| "replaced_paths (MovePath src target) = (if src = target then {} else {target})"
| "replaced_paths _ = {}"

definition no_writer_on :: "(nat \<rightharpoonup> ('s, 'db, 'rd) file_handle) \<Rightarrow> contents \<Rightarrow> path \<Rightarrow> bool" where
  "no_writer_on hs v p \<longleftrightarrow> (\<forall>i h. hs i = Some h \<and> fl_write (fh_flags h) \<longrightarrow> catalog v p \<noteq> Some (fh_file_id h))"

inductive group_step ::
  "('s, 'db, 'rd) slate_builder \<Rightarrow> ('s, 'db, 'rd, 'tx) slatedb \<Rightarrow> codec \<Rightarrow> ('db \<Rightarrow> 's \<Rightarrow> contents)
     \<Rightarrow> ('db \<Rightarrow> 's \<Rightarrow> contents) \<Rightarrow> 'db \<Rightarrow> string \<Rightarrow> ('s, 'db, 'rd) group_state \<Rightarrow> group_event \<Rightarrow> ('s, 'db, 'rd) group_state \<Rightarrow> bool"
  for B S P view durable db g where
  group_open:
    "path_op_valid g (OpenPath p fl) \<Longrightarrow> gs_handles st i = None \<Longrightarrow>
     fs_open_file B S P now p fl (gs_fs st, gs_world st) = (r, (fs', s')) \<Longrightarrow>
     group_step B S P view durable db g st (Opening p fl)
       (st\<lparr>gs_fs := fs', gs_handles := (case r of Ok h \<Rightarrow> (gs_handles st)(i \<mapsto> h) | _ \<Rightarrow> gs_handles st),
          gs_world := s', gs_recent := recoverable (durable db s') (view db s') (gs_recent st)\<rparr>)"
| group_path:
    "path_op_valid g op \<Longrightarrow> (\<And>p fl. op \<noteq> OpenPath p fl) \<Longrightarrow>
     exec_path_op B S P (now, op) (gs_fs st, gs_world st) = (r, (fs', s')) \<Longrightarrow>
     group_step B S P view durable db g st (PathCall op)
       (st\<lparr>gs_fs := fs', gs_world := s', gs_recent := recoverable (durable db s') (view db s') (gs_recent st)\<rparr>)"
| group_file:
    "gs_handles st i = Some h \<Longrightarrow> op_u64 op \<Longrightarrow> exec_op S P (now, op) (h, gs_world st) = (r, (h', s')) \<Longrightarrow>
     group_step B S P view durable db g st (FileCall i op r)
       (st\<lparr>gs_handles := (gs_handles st)(i \<mapsto> h'), gs_world := s',
          gs_recent := recoverable (durable db s') (view db s') (gs_recent st)\<rparr>)"
| group_close:
    "gs_handles st i = Some h \<Longrightarrow> fh_close S P (h, gs_world st) = (r, (h', s')) \<Longrightarrow>
     group_step B S P view durable db g st (Closing i r)
       (st\<lparr>gs_handles := (gs_handles st)(i := (if r = Ok () then None else Some h')), gs_world := s',
          gs_recent := recoverable (durable db s') (view db s') (gs_recent st)\<rparr>)"
| group_drop:
    "group_step B S P view durable db g st (Dropping i) (st\<lparr>gs_handles := (gs_handles st)(i := None)\<rparr>)"
| group_crash:
    "view db s' \<in> gs_recent st \<Longrightarrow> serving fs' g db \<Longrightarrow>
     group_step B S P view durable db g st Crashing
       \<lparr>gs_fs = fs', gs_handles = Map.empty, gs_world = s', gs_recent = {view db s'}\<rparr>"

inductive_cases group_fileE: "group_step B S P view durable db g st (FileCall i op r) st'"

text \<open>Runs, whose steps all satisfy a condition on the state they start from and the event.\<close>

inductive group_run ::
  "('s, 'db, 'rd) slate_builder \<Rightarrow> ('s, 'db, 'rd, 'tx) slatedb \<Rightarrow> codec \<Rightarrow> ('db \<Rightarrow> 's \<Rightarrow> contents)
     \<Rightarrow> ('db \<Rightarrow> 's \<Rightarrow> contents) \<Rightarrow> 'db \<Rightarrow> string \<Rightarrow> (('s, 'db, 'rd) group_state \<Rightarrow> group_event \<Rightarrow> bool)
     \<Rightarrow> ('s, 'db, 'rd) group_state \<Rightarrow> ('s, 'db, 'rd) group_state \<Rightarrow> bool"
  for B S P view durable db g C where
  run_start: "group_run B S P view durable db g C st st"
| run_next: "group_run B S P view durable db g C st st1 \<Longrightarrow> C st1 e \<Longrightarrow> group_step B S P view durable db g st1 e st2 \<Longrightarrow>
     group_run B S P view durable db g C st st2"

text \<open>
  The runs considered take no file away that a handle is open to write: such a handle would write the file
  back when it is synced, without a path.
\<close>

fun orderly :: "('db \<Rightarrow> 's \<Rightarrow> contents) \<Rightarrow> 'db \<Rightarrow> ('s, 'db, 'rd) group_state \<Rightarrow> group_event \<Rightarrow> bool" where
  "orderly view db st (PathCall op) \<longleftrightarrow>
     (\<forall>p \<in> replaced_paths op. no_writer_on (gs_handles st) (view db (gs_world st)) p)"
| "orderly view db st _ \<longleftrightarrow> True"

section \<open>The invariant\<close>

definition group_handle ::
  "('s, 'db, 'rd, 'tx) slatedb \<Rightarrow> 'db \<Rightarrow> contents \<Rightarrow> ('s, 'db, 'rd) file_handle \<Rightarrow> bool" where
  "group_handle S db v h \<longleftrightarrow> handle_inv S db h v \<and> (fl_write (fh_flags h) \<longrightarrow> fh_file_id h \<in> ran (catalog v))"

definition group_inv ::
  "('s, 'db, 'rd, 'tx) slatedb \<Rightarrow> codec \<Rightarrow> ('db \<Rightarrow> 's \<Rightarrow> contents) \<Rightarrow> 'db \<Rightarrow> string \<Rightarrow> ('s, 'db, 'rd) group_state \<Rightarrow> bool" where
  "group_inv S P view db g st \<longleftrightarrow> serving (gs_fs st) g db \<and> db_wf P (view db (gs_world st))
     \<and> (\<forall>i h. gs_handles st i = Some h \<longrightarrow> group_handle S db (view db (gs_world st)) h)
     \<and> (\<forall>v \<in> gs_recent st. db_wf P v)"

text \<open>In a well-formed database the chunk keys of any id are chunk keys, of removed files too.\<close>

lemma db_wf_keys_ok:
  assumes "db_wf P v" and "f < u64_size"
  shows "chunk_keys_ok f v"
proof (cases "f \<in> ran (catalog v)")
  case True
  then show ?thesis using db_wf_chunk_keys [OF assms(1)] by blast
next
  case False
  then have "v k = None" if "prefix (chunk_prefix f) k" for k
    using db_wf_orphans [OF assms(1,2), of k] that by blast
  then show ?thesis by (auto simp: chunk_keys_ok_def)
qed

lemma group_handle_next:
  assumes h: "group_handle S db v h" and wf: "db_wf P v'"
    and files: "fl_write (fh_flags h) \<Longrightarrow> fh_file_id h \<in> ran (catalog v) \<Longrightarrow> fh_file_id h \<in> ran (catalog v')"
  shows "group_handle S db v' h"
proof -
  have "handle_inv S db h v'" using h db_wf_keys_ok [OF wf, of "fh_file_id h"] by (auto simp: group_handle_def handle_inv_def)
  with h files show ?thesis by (auto simp: group_handle_def)
qed

context slate_tx
begin

text \<open>Opening a path takes no file away.\<close>

lemma prepare_keeps_files:
  assumes run: "prepare_file_for_open S P now db p create truncate_existing s = (r, s')" and wf: "db_wf P (view db s)"
  shows "ran (catalog (view db s)) \<subseteq> ran (catalog (view db s'))"
proof -
  let ?v = "view db s" and ?md = "file_metadata_new now"
  note sat = io_satD [OF prepare_file_for_open_sat run]
  consider "view db s' = ?v" | f where "view db s' = cleared P f ?md ?v"
    | "?v (path_key p) = None" "next_file_id ?v + 1 < u64_size" "view db s' = created P p ?md ?v"
    using sat by (cases r) (auto simp: atomic_change_def split: if_splits)
  then show ?thesis
  proof cases
    case 3
    then have "catalog ?v p = None" "0 < next_file_id ?v" using db_wf_next(1) [OF wf] by (simp_all add: catalog_def)
    moreover have "catalog (view db s') = (catalog ?v)(p \<mapsto> next_file_id ?v)"
      using 3 calculation(2) by (simp add: catalog_created)
    ultimately show ?thesis by (simp add: ran_map_upd subset_insertI)
  qed (simp_all add: catalog_cleared)
qed

lemma open_keeps_files:
  assumes run: "fs_open_file B S P now p fl (fs, s) = (r, (fs', s'))" and sv: "serving fs (database_group p) db"
    and wf: "db_wf P (view db s)" and fl: "flags_wf fl"
  shows "ran (catalog (view db s)) \<subseteq> ran (catalog (view db s'))"
proof (cases "fl_write fl")
  case True
  obtain fs1 where w: "write_db B p (fl_create fl) (fs, s) = (Ok db, (fs1, s))" by (rule write_db_serving [OF sv])
  obtain q s1 where q: "prepare_file_for_open S P now db p (fl_create fl) (fl_truncate_existing fl) s = (q, s1)" by fastforce
  with run True fl w have "s' = s1" by (cases q) (auto simp: fs_open_file_def open_write_handle_def split: prod.splits)
  with prepare_keeps_files [OF q wf] show ?thesis by simp
next
  case False
  obtain c fs1 where c: "read_client B p (fs, s) = (Ok c, (fs1, s))" "read_write c = Some db"
    by (rule read_client_serving [OF sv])
  obtain q s1 where q: "dm_open_file P (db_get S db) p s = (q, s1)" by fastforce
  with run False fl c have "s' = s1" by (cases q) (auto simp: fs_open_file_def open_read_handle_def split: prod.splits)
  with writer_open_file [OF q] show ?thesis by simp
qed

text \<open>Removing and moving take away the file of a replaced path at most.\<close>

lemma path_op_keeps_file:
  assumes run: "exec_path_op B S P (now, op) (fs, s) = (r, (fs', s'))" and sv: "serving fs g db"
    and wf: "db_wf P (view db s)" and op: "path_op_valid g op" "\<And>p fl. op \<noteq> OpenPath p fl"
    and f: "f \<in> ran (catalog (view db s))" "\<And>p. p \<in> replaced_paths op \<Longrightarrow> catalog (view db s) p \<noteq> Some f"
  shows "f \<in> ran (catalog (view db s'))"
proof -
  let ?v = "view db s"
  obtain q where q: "catalog ?v q = Some f" using f(1) by (auto simp: ran_def)
  show ?thesis
  proof (cases op)
    case (RemovePath p)
    obtain fs1 where w: "write_db B p False (fs, s) = (Ok db, (fs1, s))"
      using write_db_serving [of fs p db B False s] sv op RemovePath by auto
    obtain r1 s1 where r1: "dm_remove_file S db p s = (r1, s1)" by fastforce
    with run RemovePath w have "s' = s1" by (cases r1) (auto simp: fs_remove_file_def)
    then have "catalog (view db s') = catalog ?v \<or> catalog (view db s') = (catalog ?v)(p := None)"
      using io_satD [OF dm_remove_file_sat r1] by (cases r1) (auto simp: atomic_change_def catalog_removed)
    moreover have "q \<noteq> p" using q f(2) RemovePath by auto
    ultimately show ?thesis using q by (auto intro: ranI)
  next
    case (MovePath src target)
    obtain fs1 where w: "write_db B src False (fs, s) = (Ok db, (fs1, s))"
      using write_db_serving [of fs src db B False s] sv op MovePath by auto
    obtain r1 s1 where r1: "dm_move_file S db src target s = (r1, s1)" by fastforce
    with run MovePath w op have "s' = s1" by (cases r1) (auto simp: fs_move_file_def)
    then have "catalog (view db s') = catalog ?v \<or> (\<exists>x. src \<noteq> target \<and> catalog ?v src = Some x \<and>
        catalog (view db s') = (catalog ?v)(src := None, target \<mapsto> x))"
      using io_satD [OF dm_move_file_sat r1] by (cases r1) (auto simp: atomic_change_def catalog_moved)
    moreover have "q \<noteq> target" if "src \<noteq> target" using q f(2) MovePath that by auto
    ultimately have "catalog (view db s') (if src \<noteq> target \<and> q = src \<and> catalog (view db s') \<noteq> catalog ?v
        then target else q) = Some f" using q by auto
    then show ?thesis by (rule ranI)
  next
    case (PathExists p)
    obtain r1 fs1 s1 where r1: "fs_file_exists B S p (fs, s) = (r1, (fs1, s1))" by (metis prod.collapse)
    with run PathExists have "s' = s1" by (cases r1) auto
    with file_exists_follows [OF r1 _ wf] sv op f(1) PathExists show ?thesis by auto
  qed (use op in blast)
qed

text \<open>An operation of a handle keeps the catalog, and the database well-formed.\<close>

lemma file_op_keeps_wf:
  assumes run: "exec_op S P (now, op) (h, s) = (r, (h', s'))" and h: "group_handle S db (view db s) h"
    and wf: "db_wf P (view db s)" and P: "metadata_codec P" and op: "op_u64 op"
  shows "db_wf P (view db s') \<and> catalog (view db s') = catalog (view db s) \<and> group_handle S db (view db s') h'"
proof -
  have hi: "handle_inv S db h (view db s)" using h by (simp add: group_handle_def)
  note i = exec_op_inv [OF run hi op]
  have c: "db_wf P (view db s') \<and> catalog (view db s') = catalog (view db s)"
  proof (cases "op = Sync \<and> fl_write (fh_flags h)")
    case True
    then obtain q where q: "sync S P (h, s) = (q, (h', s'))" using run by (auto simp: no_output_eq)
    obtain p where "catalog (view db s) p = Some (fh_file_id h)"
      using h True by (auto simp: group_handle_def ran_def)
    with synced_wf [OF slate_db_axioms P q hi wf] show ?thesis by blast
  next
    case False
    with i wf show ?thesis by auto
  qed
  with i h show ?thesis by (auto simp: group_handle_def same_handle_def)
qed

text \<open>Every step keeps the invariant.\<close>

lemma group_inv_next:
  assumes inv: "group_inv S P view db g st" and "serving (gs_fs st') g db" and wf: "db_wf P (view db (gs_world st'))"
    and "\<And>i h. gs_handles st' i = Some h \<Longrightarrow> group_handle S db (view db (gs_world st')) h"
    and "gs_recent st' \<subseteq> insert (view db (gs_world st')) (gs_recent st)"
  shows "group_inv S P view db g st'"
  using assms by (auto simp: group_inv_def)

lemma recoverable_recent: "recoverable d v recent \<subseteq> insert v recent"
  by (simp add: recoverable_def)

lemma group_step_inv:
  assumes step: "group_step B S P view durable db g st e st'" and inv: "group_inv S P view db g st" and P: "metadata_codec P"
    and ord: "orderly view db st e"
  shows "group_inv S P view db g st'"
proof -
  have sv: "serving (gs_fs st) g db" and wf: "db_wf P (view db (gs_world st))" and rec: "\<forall>v \<in> gs_recent st. db_wf P v"
    and hs: "\<And>i h. gs_handles st i = Some h \<Longrightarrow> group_handle S db (view db (gs_world st)) h"
    using inv by (auto simp: group_inv_def)
  from step show ?thesis
  proof (cases rule: group_step.cases)
    case (group_open p fl i now r fs' s')
    have sv': "serving (gs_fs st) (database_group p) db" and p: "p \<noteq> []" "flags_wf fl" "g = database_group p"
      using sv group_open(3) by auto
    note o = open_file_follows [OF group_open(5) sv' wf p(1,2) P] and k = open_keeps_files [OF group_open(5) sv' wf p(2)]
    have wf': "db_wf P (view db s')" using o by (simp add: leaves_def)
    have old: "group_handle S db (view db s') h" if "gs_handles st j = Some h" for j h
      using group_handle_next [OF hs [OF that] wf'] k by blast
    have new: "group_handle S db (view db s') h" if "r = Ok h" for h
      using o that by (auto simp: opened_handle_def group_handle_def intro: ranI)
    show ?thesis using o old new wf' p(3) unfolding group_open(2)
      by (intro group_inv_next [OF inv]) (auto simp: recoverable_def split: outcome.splits if_splits)
  next
    case (group_path op now r fs' s')
    note o = exec_path_op_follows [OF group_path(5) sv wf group_path(3) P]
    have wf': "db_wf P (view db s')" and sv': "serving fs' g db" using o group_path(4) by (auto simp: leaves_def)
    have "group_handle S db (view db s') h" if "gs_handles st j = Some h" for j h
      using path_op_keeps_file [OF group_path(5) sv wf group_path(3,4)] ord group_path(1) that
      by (intro group_handle_next [OF hs [OF that] wf']) (auto simp: no_writer_on_def)
    with sv' wf' show ?thesis unfolding group_path(2)
      by (intro group_inv_next [OF inv]) (auto simp: recoverable_def)
  next
    case (group_file i h op now r h' s')
    note o = file_op_keeps_wf [OF group_file(5) hs [OF group_file(3)] wf P group_file(4)]
    then have "group_handle S db (view db s') h1" if "gs_handles st j = Some h1" for j h1
      using that by (intro group_handle_next [OF hs [OF that]]) auto
    with o sv show ?thesis unfolding group_file(2)
      by (intro group_inv_next [OF inv]) (auto simp: recoverable_def split: if_splits)
  next
    case (group_close i h r h' s')
    have "exec_op S P (0, Sync) (h, gs_world st) = (map_outcome (\<lambda>_. []) r, (h', s'))"
      using group_close(4) by (cases r) (auto simp: fh_close_def no_output_eq)
    note o = file_op_keeps_wf [OF this hs [OF group_close(3)] wf P]
    then have "group_handle S db (view db s') h1" if "gs_handles st j = Some h1" for j h1
      using that by (intro group_handle_next [OF hs [OF that]]) auto
    with o sv show ?thesis unfolding group_close(2)
      by (intro group_inv_next [OF inv]) (auto simp: recoverable_def split: if_splits)
  next
    case (group_drop i)
    with inv show ?thesis by (auto simp: group_inv_def split: if_splits)
  next
    case (group_crash s' fs')
    with rec show ?thesis by (simp add: group_inv_def)
  qed
qed

lemma group_run_inv:
  assumes "group_run B S P view durable db g C st st'" and "group_inv S P view db g st" and "metadata_codec P"
    and "\<And>st e. C st e \<Longrightarrow> orderly view db st e"
  shows "group_inv S P view db g st'"
  using assms by (induction rule: group_run.induct) (auto intro: group_step_inv)

end

section \<open>Files that were synced\<close>

text \<open>The steps that may change the file at a path: those that name it, and a sync that writes to it.\<close>

fun touched_paths :: "path_op \<Rightarrow> path set" where
  "touched_paths (RemovePath p) = {p}"
| "touched_paths (MovePath src target) = (if src = target then {} else {src, target})"
| "touched_paths (OpenPath p fl) = (if fl_truncate_existing fl then {p} else {})"
| "touched_paths (PathExists p) = {}"

definition clean_handle :: "('s, 'db, 'rd) file_handle \<Rightarrow> bool" where
  "clean_handle h \<longleftrightarrow> cm_pending (chunks h) = [] \<and> \<not> metadata_dirty h"

definition leaves_alone :: "path \<Rightarrow> contents \<Rightarrow> ('s, 'db, 'rd) file_handle option \<Rightarrow> bool" where
  "leaves_alone p v ho \<longleftrightarrow> (\<forall>h. ho = Some h \<longrightarrow> clean_handle h \<or> catalog v p \<noteq> Some (fh_file_id h))"

fun spares ::
  "('db \<Rightarrow> 's \<Rightarrow> contents) \<Rightarrow> 'db \<Rightarrow> path \<Rightarrow> ('s, 'db, 'rd) group_state \<Rightarrow> group_event \<Rightarrow> bool" where
  "spares view db p st (Opening q fl) \<longleftrightarrow> p \<notin> touched_paths (OpenPath q fl)"
| "spares view db p st (PathCall op) \<longleftrightarrow> p \<notin> touched_paths op"
| "spares view db p st (FileCall i op r) \<longleftrightarrow> (op = Sync \<longrightarrow> leaves_alone p (view db (gs_world st)) (gs_handles st i))"
| "spares view db p st (Closing i r) \<longleftrightarrow> leaves_alone p (view db (gs_world st)) (gs_handles st i)"
| "spares view db p st (Dropping i) \<longleftrightarrow> True"
| "spares view db p st Crashing \<longleftrightarrow> True"

lemma spec_op_other: "p \<notin> touched_paths op \<Longrightarrow> a p = Some bs \<Longrightarrow> snd (spec_path_op op a) p = Some bs"
  by (cases op) (auto simp: spec_open_def split: option.splits prod.splits)

lemma follows_other: "follows a (r, a') y \<Longrightarrow> snd y p = a p \<Longrightarrow> a' p = a p"
  by (auto simp: follows_def)

text \<open>The map has the file at the path, and so does whatever a crash may leave.\<close>

definition kept :: "codec \<Rightarrow> ('db \<Rightarrow> 's \<Rightarrow> contents) \<Rightarrow> 'db \<Rightarrow> path \<Rightarrow> bytes \<Rightarrow> ('s, 'db, 'rd) group_state \<Rightarrow> bool" where
  "kept P view db p bs st \<longleftrightarrow>
     (\<forall>v \<in> insert (view db (gs_world st)) (gs_recent st). stored_files P v p = Some bs)"

lemma kept_next:
  assumes "kept P view db p bs st" and "stored_files P (view db (gs_world st')) p = Some bs"
    and "gs_recent st' \<subseteq> insert (view db (gs_world st')) (gs_recent st)"
  shows "kept P view db p bs st'"
  using assms by (auto simp: kept_def)

context slate_tx
begin

lemma sync_keeps_other:
  assumes run: "sync S P (h, s) = (r, (h', s'))" and h: "group_handle S db (view db s) h" and wf: "db_wf P (view db s)"
    and P: "metadata_codec P" and alone: "leaves_alone p (view db s) (Some h)"
  shows "stored_files P (view db s') p = stored_files P (view db s) p"
proof (cases "clean_handle h")
  case True
  with run show ?thesis by (auto simp: sync_def has_pending_changes_def clean_handle_def)
next
  case False
  have hi: "handle_inv S db h (view db s)" "fh_wf (slatedb_chunk_store S db) h" "client h = ReadWrite db"
    using h by (auto simp: group_handle_def handle_inv_def)
  then have "fl_write (fh_flags h)" using False by (auto simp: fh_wf_def clean_handle_def)
  then obtain q where q: "catalog (view db s) q = Some (fh_file_id h)" using h by (auto simp: group_handle_def ran_def)
  then have "q \<noteq> p" using alone False by (auto simp: leaves_alone_def)
  with sync_spec [OF run hi(2,3)] stored_files_synced [OF P wf q hi(1)] show ?thesis by auto
qed

lemma group_step_kept:
  assumes step: "group_step B S P view durable db g st e st'" and inv: "group_inv S P view db g st" and P: "metadata_codec P"
    and kept: "kept P view db p bs st" and spare: "spares view db p st e"
  shows "kept P view db p bs st'"
proof -
  have sv: "serving (gs_fs st) g db" and wf: "db_wf P (view db (gs_world st))"
    and hs: "\<And>i h. gs_handles st i = Some h \<Longrightarrow> group_handle S db (view db (gs_world st)) h"
    using inv by (auto simp: group_inv_def)
  let ?a = "stored_files P (view db (gs_world st))"
  have a: "?a p = Some bs" using kept by (simp add: kept_def)
  from step show ?thesis
  proof (cases rule: group_step.cases)
    case (group_open q fl i now r fs' s')
    have q: "serving (gs_fs st) (database_group q) db" "q \<noteq> []" "flags_wf fl" using sv group_open(3) by auto
    have other: "snd (spec_open q fl ?a) p = Some bs"
      using spec_op_other [of p "OpenPath q fl" ?a bs] spare a group_open(1) by (auto split: prod.splits)
    with open_file_follows [OF group_open(5) q(1) wf q(2,3) P] a
    have "stored_files P (view db s') p = Some bs"
      by (cases r) (auto dest: follows_other [of _ _ _ _ p])
    then show ?thesis unfolding group_open(2) by (intro kept_next [OF kept]) (auto simp: recoverable_def)
  next
    case (group_path op now r fs' s')
    have "stored_files P (view db s') p = Some bs"
      using exec_path_op_follows [OF group_path(5) sv wf group_path(3) P] group_path(1,4) spare a
        spec_op_other [of p op ?a bs] follows_other [of ?a r _ "spec_path_op op ?a" p] by auto
    then show ?thesis unfolding group_path(2) by (intro kept_next [OF kept]) (auto simp: recoverable_def)
  next
    case (group_file i h op now r h' s')
    have "stored_files P (view db s') p = Some bs"
    proof (cases "op = Sync")
      case True
      then obtain q where "sync S P (h, gs_world st) = (q, (h', s'))" using group_file(5) by (auto simp: no_output_eq)
      from sync_keeps_other [OF this hs [OF group_file(3)] wf P] spare True group_file(1,3) a show ?thesis by auto
    next
      case False
      with exec_op_inv [OF group_file(5) _ group_file(4)] hs [OF group_file(3)] a show ?thesis
        by (simp add: group_handle_def)
    qed
    then show ?thesis unfolding group_file(2) by (intro kept_next [OF kept]) (auto simp: recoverable_def split: if_splits)
  next
    case (group_close i h r h' s')
    from sync_keeps_other [OF group_close(4) [unfolded fh_close_def] hs [OF group_close(3)] wf P] spare group_close(1,3) a
    have "stored_files P (view db s') p = Some bs" by auto
    then show ?thesis unfolding group_close(2) by (intro kept_next [OF kept]) (auto simp: recoverable_def split: if_splits)
  next
    case (group_drop i)
    with kept show ?thesis by (simp add: kept_def)
  next
    case (group_crash s' fs')
    with kept show ?thesis by (simp add: kept_def)
  qed
qed

lemma group_run_kept:
  assumes "group_run B S P view durable db g (\<lambda>st e. orderly view db st e \<and> spares view db p st e) st st'" and "group_inv S P view db g st" and "metadata_codec P"
    and "kept P view db p bs st"
  shows "kept P view db p bs st'"
  using assms
proof (induction rule: group_run.induct)
  case (run_next st st1 e st2)
  with group_run_inv [OF run_next.hyps(1)] show ?case by (auto intro: group_step_kept)
qed simp

text \<open>A sync that wrote something has flushed: the map has the bytes of the handle, and a crash cannot undo it.\<close>

lemma sync_step_kept:
  assumes step: "group_step B S P view durable db g st (FileCall i Sync (Ok out)) st'" and inv: "group_inv S P view db g st"
    and P: "metadata_codec P" and h: "gs_handles st i = Some h" "\<not> clean_handle h"
    and p: "catalog (view db (gs_world st)) p = Some (fh_file_id h)"
  shows "kept P view db p (file_bytes h (view db (gs_world st))) st'"
proof -
  have wf: "db_wf P (view db (gs_world st))" and hi: "handle_inv S db h (view db (gs_world st))"
    using inv h(1) by (auto simp: group_inv_def group_handle_def)
  from step obtain h' s' where run: "sync S P (h, gs_world st) = (Ok (), (h', s'))"
    and st': "st' = st\<lparr>gs_handles := (gs_handles st)(i \<mapsto> h'), gs_world := s',
      gs_recent := recoverable (durable db s') (view db s') (gs_recent st)\<rparr>"
    by (rule group_fileE) (use h in \<open>auto simp: no_output_eq_Ok\<close>)
  have h': "fh_wf (slatedb_chunk_store S db) h" "client h = ReadWrite db" using hi by (auto simp: handle_inv_def)
  from sync_spec [OF run h'] h(2) have "view db s' = apply_batch (sync_batch P h) (view db (gs_world st))"
    and "durable db s' = view db s'" by (auto simp: clean_handle_def)
  with stored_files_synced [OF P wf p hi] st' show ?thesis by (simp add: kept_def recoverable_def)
qed

end

end
