(* ===== verification/Test_Utils.thy ===== *)
theory Test_Utils
  imports Path_Operations Fs_Open
begin

text \<open>
  The helpers of \<open>rust/src/test_utils.rs\<close>, which write and read whole files through the filesystem as a
  client would: open a handle, use it, close it. They run every layer from the paths down to the store,
  so what they promise on a store that does not fail is the end-to-end behaviour of the filesystem.
\<close>

section \<open>The helpers\<close>

text \<open>\<open>Result::expect\<close> panics on an error.\<close>

definition expect :: "string \<Rightarrow> ('s, 'a) io \<Rightarrow> ('s, 'a) io" where
  "expect msg m = (\<lambda>s. case m s of (Err e, s') \<Rightarrow> (Panic msg, s') | x \<Rightarrow> x)"

definition open_local_fs ::
  "'s environment \<Rightarrow> ('s, 'db, 'rd) slate_builder \<Rightarrow> CacheConfig \<Rightarrow> string \<Rightarrow> string
     \<Rightarrow> ('s, ('db, 'rd) file_system) io" where
  "open_local_fs E B default_config dbpath root =
     expect ''open local filesystem'' (open_local E B default_config dbpath root)"

text \<open>An operation of an open handle, which is a local variable beside the filesystem.\<close>

definition with_file ::
  "('s, 'db, 'rd) file_handle \<Rightarrow> (('s, 'db, 'rd) file_handle \<times> 's, 'a) io
     \<Rightarrow> (('db, 'rd) file_system \<times> 's, 'a \<times> ('s, 'db, 'rd) file_handle) io" where
  "with_file h m = (\<lambda>(fs, s). case m (h, s) of (r, (h', s')) \<Rightarrow> (map_outcome (\<lambda>x. (x, h')) r, (fs, s')))"

definition write_file ::
  "('s, 'db, 'rd) slate_builder \<Rightarrow> ('s, 'db, 'rd, 'tx) slatedb \<Rightarrow> codec \<Rightarrow> int \<Rightarrow> int \<Rightarrow> path \<Rightarrow> bytes
     \<Rightarrow> (('db, 'rd) file_system \<times> 's, unit) io" where
  "write_file B S P opened_at written_at p contents =
     io_bind (expect ''open file for writing'' (fs_open_file B S P opened_at p flags_open_or_create)) (\<lambda>file.
     io_bind (expect ''write file'' (with_file file (pwrite written_at contents 0))) (\<lambda>(_, file).
     io_bind (expect ''close file'' (with_file file (fh_close S P))) (\<lambda>_.
     io_return ())))"

definition read_file ::
  "('s, 'db, 'rd) slate_builder \<Rightarrow> ('s, 'db, 'rd, 'tx) slatedb \<Rightarrow> codec \<Rightarrow> int \<Rightarrow> path \<Rightarrow> usize
     \<Rightarrow> (('db, 'rd) file_system \<times> 's, bytes) io" where
  "read_file B S P opened_at p len =
     io_bind (expect ''open file for reading'' (fs_open_file B S P opened_at p flags_read_only)) (\<lambda>file.
     io_bind (expect ''read file'' (io_snd (\<lambda>s. case pread file 0 (replicate len 0, s) of
         (r, (contents, s')) \<Rightarrow> (map_outcome (\<lambda>n. (n, contents)) r, s')))) (\<lambda>(n, contents).
     if n \<noteq> len then io_lift (Panic ''assertion `left == right` failed'')
     else
       io_bind (expect ''close file'' (with_file file (fh_close S P))) (\<lambda>_.
       io_return contents)))"

section \<open>Writing a whole file\<close>

text \<open>What a file is after a write at its start: the data, then what the file had behind it.\<close>

definition spec_put :: "path \<Rightarrow> bytes \<Rightarrow> (path \<rightharpoonup> bytes) \<Rightarrow> path \<rightharpoonup> bytes" where
  "spec_put p data a = a(p \<mapsto> data @ drop (length data) (case a p of None \<Rightarrow> [] | Some old \<Rightarrow> old))"

context reliable_tx
begin

lemma open_live:
  assumes s: "good s" and sv: "serving fs (database_group p) db" and wf: "db_wf P (view db s)" and p: "p \<noteq> []"
    and fl: "flags_wf fl" and P: "metadata_codec P" and ids: "next_file_id (view db s) + 1 < u64_size"
    and bs: "spec_open p fl (stored_files P (view db s)) = (Ok bs, a')"
  obtains h fs' s' where "fs_open_file B S P now p fl (fs, s) = (Ok h, (fs', s'))" and "good s'"
    and "serving fs' (database_group p) db" and "leaves P (view db s) (view db s')"
    and "opened_handle S P db p fl (view db s') h" and "file_bytes h (view db s') = bs"
    and "stored_files P (view db s') = a'"
proof -
  obtain r fs' s' where run: "fs_open_file B S P now p fl (fs, s) = (r, (fs', s'))" by (metis prod.collapse)
  note f = open_file_follows [OF run sv wf p fl P] and g = open_file_served [OF s sv fl run]
  show ?thesis
  proof (cases r)
    case (Ok h)
    with that [of h fs' s'] run f g bs show ?thesis by simp
  next
    case (Err e)
    with f g bs ids show ?thesis by (simp add: follows_def ids_exhausted_def)
  qed (use f in simp)
qed

lemma pwrite_good:
  assumes "good s" and "handle_inv S db h (view db s)" and "fl_write (fh_flags h)" and "offset + length data < u64_size"
  obtains h' s' where "pwrite now data offset (h, s) = (Ok (), (h', s'))" and "good s'"
proof -
  obtain r h' s' where run: "pwrite now data offset (h, s) = (r, (h', s'))" by (metis prod.collapse)
  have h: "fh_wf (slatedb_chunk_store S db) h" "live.good_for db (fh_file_id h) s"
    using assms by (auto simp: handle_inv_def live.good_for_def)
  from live.pwrite_ok [OF h assms(3,4) run] wr.pwrite_spec [OF run h(1)] run that show ?thesis
    by (cases r) (auto simp: live.good_for_def)
qed

lemma sync_good:
  assumes "good s" and "handle_inv S db h (view db s)"
  obtains h' s' where "sync S P (h, s) = (Ok (), (h', s'))" and "good s'"
proof -
  obtain r h' s' where run: "sync S P (h, s) = (r, (h', s'))" by (metis prod.collapse)
  have h: "fh_wf (slatedb_chunk_store S db) h" "client h = ReadWrite db" using assms(2) by (auto simp: handle_inv_def)
  from sync_ok [OF assms(1) h(2) run] sync_spec [OF run h] run that show ?thesis by (cases r) auto
qed

text \<open>The bytes of a file after a write at its start.\<close>

lemma pwrite_start_bytes:
  assumes run: "pwrite now data 0 (h, s) = (Ok (), (h', s'))" and h: "fh_wf (slatedb_chunk_store S db) h"
  shows "file_bytes h' (view db s') = data @ drop (length data) (file_bytes h (view db s))"
proof -
  note w = wr.pwrite_spec [OF run h]
  show ?thesis
  proof (cases "data = []")
    case True
    with w show ?thesis by simp
  next
    case False
    with w have *: "view db s' = view db s" "fh_size h' = max (fh_size h) (length data)"
      "\<And>p. file_byte (chunks h') (view db s) p = (if p < length data then data ! p else file_byte (chunks h) (view db s) p)"
      by auto
    show ?thesis by (rule nth_equalityI) (auto simp: * file_bytes_def nth_append)
  qed
qed

lemma pwrite_dirty: "data \<noteq> [] \<Longrightarrow> pwrite now data offset (h, s) = (Ok (), (h', s')) \<Longrightarrow> metadata_dirty h'"
  by (auto simp: pwrite_def set_metadata_dirty_def io_bind_eq_Ok split: option.splits if_splits)

lemma sync_clean: "cm_pending (chunks h) = [] \<Longrightarrow> \<not> metadata_dirty h \<Longrightarrow> sync S P (h, s) = (Ok (), (h, s))"
  by (simp add: sync_def has_pending_changes_def)

text \<open>Writing at the start of a file just opened, and syncing: the map has the new file.\<close>

lemma write_sync_stored:
  assumes wf: "db_wf P (view db s)" and P: "metadata_codec P" and h: "opened_handle S P db p fl (view db s) h"
    and put: "pwrite now data 0 (h, s) = (Ok (), (h1, s1))" and sync: "sync S P (h1, s1) = (Ok (), (h2, s2))"
  shows "db_wf P (view db s2) \<and> next_file_id (view db s2) = next_file_id (view db s) \<and>
    stored_files P (view db s2) = (stored_files P (view db s))(p \<mapsto> data @ drop (length data) (file_bytes h (view db s)))"
proof -
  have hi: "handle_inv S db h (view db s)" "fh_wf (slatedb_chunk_store S db) h" "catalog (view db s) p = Some (fh_file_id h)"
    using h by (auto simp: opened_handle_def handle_inv_def)
  note w = wr.pwrite_spec [OF put hi(2)]
  have v1: "view db s1 = view db s" using w by simp
  have h1: "handle_inv S db h1 (view db s1)" using w hi(1) by (intro handle_inv_next [OF hi(1)]) (auto simp: handle_inv_def)
  have h1': "fh_wf (slatedb_chunk_store S db) h1" "client h1 = ReadWrite db" "catalog (view db s1) p = Some (fh_file_id h1)"
    using h1 w hi(3) v1 by (auto simp: handle_inv_def same_handle_def)
  have n: "next_file_id (view db s2) = next_file_id (view db s)"
    using sync_other_keys [OF sync h1'(1,2), of NEXT_FILE_ID_KEY] catalog_bound [OF h1'(3)] v1
    by (intro next_file_id_cong) simp
  have bytes: "file_bytes h1 (view db s1) = data @ drop (length data) (file_bytes h (view db s))"
    by (rule pwrite_start_bytes [OF put hi(2)])
  have "stored_files P (view db s2) = (stored_files P (view db s))(p \<mapsto> file_bytes h1 (view db s1))"
  proof (cases "data = []")
    case True
    then have "h1 = h" using w by simp
    with h sync sync_clean [of h1 P s1] v1 have "view db s2 = view db s" by (auto simp: opened_handle_def)
    moreover have "stored_files P (view db s) p = Some (file_bytes h1 (view db s1))"
      using h \<open>h1 = h\<close> v1 by (simp add: opened_handle_def)
    ultimately show ?thesis by (simp add: fun_upd_idem)
  next
    case False
    from sync_spec [OF sync h1'(1,2)] pwrite_dirty [OF False put]
    have "view db s2 = apply_batch (sync_batch P h1) (view db s1)" by auto
    with stored_files_synced [OF P _ h1'(3) h1] wf v1 show ?thesis by simp
  qed
  with bytes n synced_wf [OF slate_db_axioms P sync h1 _ h1'(3)] wf v1 show ?thesis by simp
qed

text \<open>Writing a file on a store that serves every call: it succeeds, and the map has the new file.\<close>

lemma write_file_live:
  assumes s: "good s" and sv: "serving fs (database_group p) db" and wf: "db_wf P (view db s)" and p: "p \<noteq> []"
    and P: "metadata_codec P" and ids: "next_file_id (view db s) + 1 < u64_size" and len: "length contents < u64_size"
  obtains fs' s' where "write_file B S P opened_at written_at p contents (fs, s) = (Ok (), (fs', s'))"
    and "good s'" and "serving fs' (database_group p) db" and "leaves P (view db s) (view db s')"
    and "stored_files P (view db s') = spec_put p contents (stored_files P (view db s))"
proof -
  let ?a = "stored_files P (view db s)" and ?fl = flags_open_or_create
  let ?old = "case ?a p of None \<Rightarrow> [] | Some bs \<Rightarrow> bs"
  have fl: "fl_create ?fl" "\<not> fl_truncate_existing ?fl" "fl_write ?fl" by (simp_all add: flags_open_or_create_def)
  have spec: "spec_open p ?fl ?a = (Ok ?old, ?a(p \<mapsto> ?old))"
    using fl by (cases "?a p") (auto simp: spec_open_cases)
  obtain h fs1 s1 where 1: "fs_open_file B S P opened_at p ?fl (fs, s) = (Ok h, (fs1, s1))" "good s1"
      "serving fs1 (database_group p) db" "leaves P (view db s) (view db s1)"
    and h: "opened_handle S P db p ?fl (view db s1) h" "file_bytes h (view db s1) = ?old"
    and a1: "stored_files P (view db s1) = ?a(p \<mapsto> ?old)"
    by (rule open_live [OF s sv wf p _ P ids spec, of B opened_at]) simp_all
  have hi: "handle_inv S db h (view db s1)" "fl_write (fh_flags h)"
    using h(1) fl by (auto simp: opened_handle_def)
  obtain h2 s2 where 2: "pwrite written_at contents 0 (h, s1) = (Ok (), (h2, s2))" "good s2"
    by (rule pwrite_good [OF 1(2) hi, of 0 contents written_at]) (use len in simp)
  have h2: "handle_inv S db h2 (view db s2)"
    using wr.pwrite_spec [OF 2(1), of db] hi(1) by (intro handle_inv_next [OF hi(1)]) (auto simp: handle_inv_def)
  obtain h3 s3 where 3: "sync S P (h2, s2) = (Ok (), (h3, s3))" "good s3" by (rule sync_good [OF 2(2) h2])
  have wf1: "db_wf P (view db s1)" using 1(4) by (simp add: leaves_def)
  note st = write_sync_stored [OF wf1 P h(1) 2(1) 3(1)]
  have "write_file B S P opened_at written_at p contents (fs, s) = (Ok (), (fs1, s3))"
    by (simp add: write_file_def fh_close_def expect_def with_file_def 1(1) 2(1) 3(1))
  moreover have "leaves P (view db s) (view db s3)" using st 1(4) by (simp add: leaves_def)
  moreover have "stored_files P (view db s3) = spec_put p contents ?a" using st a1 h(2) by (simp add: spec_put_def)
  ultimately show ?thesis using that 1(3) 3(2) by blast
qed

text \<open>Reading a file back: the bytes of the map, and nothing changed.\<close>

lemma read_file_live:
  assumes s: "good s" and sv: "serving fs (database_group p) db" and wf: "db_wf P (view db s)" and p: "p \<noteq> []"
    and P: "metadata_codec P" and ids: "next_file_id (view db s) + 1 < u64_size"
    and a: "stored_files P (view db s) p = Some bs" and len: "n \<le> length bs"
  obtains fs' s' where "read_file B S P opened_at p n (fs, s) = (Ok (take n bs), (fs', s'))"
    and "good s'" and "serving fs' (database_group p) db" and "stored_files P (view db s') = stored_files P (view db s)"
proof -
  let ?fl = flags_read_only
  have fl: "fl_read ?fl" "\<not> fl_write ?fl" "\<not> fl_truncate_existing ?fl" by (simp_all add: flags_read_only_def)
  have spec: "spec_open p ?fl (stored_files P (view db s)) = (Ok bs, stored_files P (view db s))"
    using a fl(3) by (rule spec_open_cases(2))
  obtain h fs1 s1 where 1: "fs_open_file B S P opened_at p ?fl (fs, s) = (Ok h, (fs1, s1))" "good s1"
      "serving fs1 (database_group p) db"
    and h: "opened_handle S P db p ?fl (view db s1) h" "file_bytes h (view db s1) = bs"
    and a1: "stored_files P (view db s1) = stored_files P (view db s)"
    by (rule open_live [OF s sv wf p _ P ids spec, of B opened_at]) simp_all
  have hi: "handle_inv S db h (view db s1)" "fh_wf (slatedb_chunk_store S db) h"
    "chunk_keys_ok (fh_file_id h) (view db s1)" "fl_read (fh_flags h)" "live.good_for db (fh_file_id h) s1"
    using h(1) fl 1(2) by (auto simp: opened_handle_def handle_inv_def live.good_for_def)
  obtain q buf s2 where 2: "pread h 0 (replicate n 0, s1) = (q, (buf, s2))" by (metis prod.collapse)
  have "readable_at (chunks h) (view db s1) 0" by (simp add: readable_at_def chunk_offset_of_def)
  then obtain k where q: "q = Ok k" and g2: "good s2"
    using live.pread_ok [OF hi(2,5,4) 2] wr.pread_spec [OF 2 hi(2,3)] by (cases q) (auto simp: live.good_for_def)
  have sz: "fh_size h = length bs" using h(2) by (auto simp: file_bytes_def)
  have k: "k = n" "buf = take n bs" "view db s2 = view db s1"
    using wr.pread_spec [OF 2 hi(2,3)] q sz len h(2) by auto
  have clean: "sync S P (h, s2) = (Ok (), (h, s2))" using h(1) by (simp add: sync_clean opened_handle_def)
  have "read_file B S P opened_at p n (fs, s) = (Ok (take n bs), (fs1, s2))"
    by (simp add: read_file_def fh_close_def 1(1) 2 q k expect_def with_file_def clean)
  with that 1(3) g2 k(3) a1 show ?thesis by simp
qed

end

end
