(* ===== verification/Filesystem_Properties.thy ===== *)
theory Filesystem_Properties
  imports Mem_Examples Group_System Test_Utils
begin

text \<open>
  The properties of the filesystem as its users see it: a map from paths to bytes that the operations on
  paths update, that whole files can be written to and read from, and that survives crashes.
\<close>

section \<open>The examples\<close>

lemma small_fs_serving [simp]: "serving (small_fs (Some db)) ''f'' db"
  by (simp add: serving_def)

lemma one_file_stored [simp]:
  "stored_files proto_codec (created proto_codec p (small_metadata 0) Map.empty) = [p \<mapsto> []]"
proof -
  let ?v = "created proto_codec p (small_metadata 0) Map.empty"
  have "metadata_of proto_codec ?v 1 = Some (small_metadata 0)"
    using small_metadata_ok [of 0] by (intro metadata_of_encoded [OF proto.metadata_codec_axioms])
      (auto simp: metadata_ok_def created_def u64_size_def)
  moreover have "md_size (small_metadata 0) = 0" by (simp add: small_metadata_def)
  ultimately show ?thesis by (auto simp: fun_eq_iff stored_files_def stored_file_def)
qed

lemma one_file_next [simp]: "next_file_id (created proto_codec p (small_metadata 0) Map.empty) = 2"
  using next_created [of Map.empty proto_codec p] by (simp add: u64_size_def)

text \<open>A group with one file and one open handle on it.\<close>

definition small_group :: "FileOpenFlags \<Rightarrow> (mem, path, path) group_state" where
  "small_group fl = \<lparr>gs_fs = small_fs (Some ''d''), gs_handles = [0 \<mapsto> small_handle fl 0],
     gs_world = mem_one ''f'' [], gs_recent = {mem_view ''d'' (mem_one ''f'' [])}\<rparr>"

lemma small_group_simps [simp]:
  "gs_fs (small_group fl) = small_fs (Some ''d'')" "gs_handles (small_group fl) = [0 \<mapsto> small_handle fl 0]"
  "gs_world (small_group fl) = mem_one ''f'' []"
  by (simp_all add: small_group_def)

lemma small_group_inv [simp]: "group_inv mem_slatedb proto_codec mem_view ''d'' ''f'' (small_group fl)"
  by (simp add: group_inv_def group_handle_def small_group_def)

section \<open>Paths\<close>

text \<open>C6. The operations on paths refine a map from paths to bytes. Removing, moving, opening and looking up a
  path of a group whose writer is open return what the same operation on the map returns, the size of the
  file for an open, and leave the contents of the database standing for the map the operation gives. The
  one other outcome is an error of the store, which leaves the map as it was or with the whole update
  made. The database stays well-formed.\<close>

theorem path_operations_refine_map:
  assumes "slate_tx S view durable tx_db tx_snapshot tx_writes" and "metadata_codec P"
    and "exec_path_op B S P (now, op) (fs, s) = (r, (fs', s'))" and "serving fs g db" and "path_op_valid g op"
    and "db_wf P (view db s)" and "next_file_id (view db s) + 1 < u64_size"
  shows "((r, stored_files P (view db s')) = spec_path_op op (stored_files P (view db s)) \<or>
      (\<exists>e. r = Err e \<and> code e = CodeSlateDb \<and>
         stored_files P (view db s') \<in> {stored_files P (view db s), snd (spec_path_op op (stored_files P (view db s)))})) \<and>
    db_wf P (view db s') \<and> serving fs' g db"
  using slate_tx.exec_path_op_follows [OF assms(1,3,4,6,5,2)] assms(7) by (auto simp: follows_def leaves_def)

theorem path_operations_refine_map_witness:
  "\<exists>fs' s'. exec_path_op mem_builder mem_slatedb proto_codec (7, MovePath ''f'' ''f.wal'') (small_fs (Some ''d''), mem_one ''f'' [])
       = (Ok Done, (fs', s')) \<and> stored_files proto_codec (mem_view ''d'' s') = [''f.wal'' \<mapsto> []]"
proof -
  let ?R = "exec_path_op mem_builder mem_slatedb proto_codec (7, MovePath ''f'' ''f.wal'') (small_fs (Some ''d''), mem_one ''f'' [])"
  have "fst ?R = Ok Done" by code_simp
  from run_obtain [OF this] obtain fs' s' where run: "?R = (Ok Done, (fs', s'))" by (elim exE)
  from path_operations_refine_map [OF mem_tx.slate_tx_axioms proto.metadata_codec_axioms run, of "''f''" "''d''"]
  have "stored_files proto_codec (mem_view ''d'' s') = [''f.wal'' \<mapsto> []]"
    by (auto simp: u64_size_def fun_eq_iff)
  with run show ?thesis by blast
qed

text \<open>C11. On a store that serves every call, any sequence of operations on paths behaves like the map: each
  operation returns what it returns on the map, missing paths included, and the database stands for the
  resulting map and is well-formed. No other error and no panic occurs.\<close>

theorem reliable_path_sequences:
  assumes "reliable_tx S view durable tx_db tx_snapshot tx_writes good alive" and "metadata_codec P"
    and "exec_path_ops B S P ops (fs, s) = (rs, (fs', s'))" and "good s" and "serving fs g db"
    and "\<forall>op \<in> snd ` set ops. path_op_valid g op" and "db_wf P (view db s)"
    and "next_file_id (view db s) + length ops < u64_size"
  shows "spec_path_ops (map snd ops) (stored_files P (view db s)) = (rs, stored_files P (view db s')) \<and>
    db_wf P (view db s') \<and> good s'"
  using reliable_tx.exec_path_ops_live [OF assms(1,3,4,5,6,2,7,8)] by simp

theorem reliable_path_sequences_witness:
  "fst (exec_path_ops mem_builder mem_slatedb proto_codec
     [(1, MovePath ''f'' ''f.wal''), (2, PathExists ''f''), (3, RemovePath ''f''), (4, OpenPath ''f'' flags_open_or_create)]
     (small_fs (Some ''d''), mem_one ''f'' []))
   = [Ok Done, Ok (Found False), Err (file_not_found ''f''), Ok (Opened 0)]"
proof -
  let ?ops = "[(1, MovePath ''f'' ''f.wal''), (2, PathExists ''f''), (3, RemovePath ''f''), (4, OpenPath ''f'' flags_open_or_create)]"
  obtain rs fs' s' where run: "exec_path_ops mem_builder mem_slatedb proto_codec ?ops (small_fs (Some ''d''), mem_one ''f'' [])
      = (rs, (fs', s'))" by (metis prod.collapse)
  have good: "mem_faults (mem_one ''f'' []) = []" by (simp add: mem_one_def)
  have "rs = [Ok Done, Ok (Found False), Err (file_not_found ''f''), Ok (Opened 0)]"
    using reliable_path_sequences [OF mem_live_tx.reliable_tx_axioms proto.metadata_codec_axioms run good, of "''f''" "''d''"]
    by (simp add: u64_size_def spec_open_def flags_open_or_create_def flags_wf_def fun_upd_def)
  with run show ?thesis by (simp only: fst_conv)
qed

section \<open>Whole files\<close>

text \<open>C7. What was written is read back. On a store that serves every call, writing data to a path and
  closing succeeds, creating the file when there is none; the map has the data there, followed by what an
  older, longer file had behind it, and every other file as it was. Reading any number of bytes of the
  data back from the path then returns them.\<close>

theorem written_files_read_back:
  assumes "reliable_tx S view durable tx_db tx_snapshot tx_writes good alive" and "metadata_codec P"
    and "good s" and "serving fs (database_group p) db" and "db_wf P (view db s)" and "p \<noteq> []"
    and "next_file_id (view db s) + 2 < u64_size" and "length data < u64_size" and "n \<le> length data"
  shows "\<exists>fs1 s1 fs2 s2. write_file B S P t1 t2 p data (fs, s) = (Ok (), (fs1, s1)) \<and>
    stored_files P (view db s1) = (stored_files P (view db s))(p \<mapsto> data @ drop (length data)
      (case stored_files P (view db s) p of None \<Rightarrow> [] | Some old \<Rightarrow> old)) \<and>
    read_file B S P t3 p n (fs1, s1) = (Ok (take n data), (fs2, s2)) \<and>
    stored_files P (view db s2) = stored_files P (view db s1) \<and> db_wf P (view db s1)"
proof -
  have ids: "next_file_id (view db s) + 1 < u64_size" using assms(7) by simp
  obtain fs1 s1 where w: "write_file B S P t1 t2 p data (fs, s) = (Ok (), (fs1, s1))" "good s1"
    "serving fs1 (database_group p) db" "leaves P (view db s) (view db s1)"
    "stored_files P (view db s1) = spec_put p data (stored_files P (view db s))"
    by (rule reliable_tx.write_file_live [OF assms(1,3,4,5,6,2) ids assms(8)])
  have wf: "db_wf P (view db s1)" "next_file_id (view db s1) + 1 < u64_size" using w(4) assms(7) by (auto simp: leaves_def)
  let ?new = "data @ drop (length data) (case stored_files P (view db s) p of None \<Rightarrow> [] | Some old \<Rightarrow> old)"
  have new: "stored_files P (view db s1) p = Some ?new" using w(5) by (simp add: spec_put_def)
  have n: "n \<le> length ?new" using assms(9) by simp
  obtain fs2 s2 where r: "read_file B S P t3 p n (fs1, s1) = (Ok (take n ?new), (fs2, s2))"
    "stored_files P (view db s2) = stored_files P (view db s1)"
    by (rule reliable_tx.read_file_live [OF assms(1) w(2,3) wf(1) assms(6,2) wf(2) new n])
  have "take n ?new = take n data" using assms(9) by simp
  with w r wf show ?thesis by (auto simp: spec_put_def)
qed

theorem written_files_read_back_witness:
  "\<exists>st1. write_file mem_builder mem_slatedb proto_codec 1 2 ''f.wal'' [104, 105, 33] (small_fs (Some ''d''), mem_one ''f'' [])
       = (Ok (), st1) \<and> fst (read_file mem_builder mem_slatedb proto_codec 3 ''f.wal'' 2 st1) = Ok [104, 105]"
proof -
  have good: "mem_faults (mem_one ''f'' []) = []" by (simp add: mem_one_def)
  from written_files_read_back [OF mem_live_tx.reliable_tx_axioms proto.metadata_codec_axioms good,
      of "small_fs (Some ''d'')" "''f.wal''" "''d''" "[104, 105, 33]" 2 mem_builder 1 2 3]
  obtain fs1 s1 fs2 s2 where "write_file mem_builder mem_slatedb proto_codec 1 2 ''f.wal'' [104, 105, 33] (small_fs (Some ''d''), mem_one ''f'' [])
       = (Ok (), (fs1, s1))" "read_file mem_builder mem_slatedb proto_codec 3 ''f.wal'' 2 (fs1, s1) = (Ok [104, 105], (fs2, s2))"
    by (auto simp: u64_size_def)
  then show ?thesis by auto
qed

section \<open>A group in use\<close>

text \<open>C8. A group in use stays well-formed. Starting from a well-formed database, with any number of handles
  opened, used, closed and dropped, paths created, removed and moved in between, every call succeeding or
  failing anywhere, and crashes that leave any contents the database has shown since they were last durable
  as a whole: as long as no file is removed or replaced while a handle is open to write it (the condition
  \<open>orderly\<close> on the run), the database is well-formed, whatever a crash would leave is, and every handle
  satisfies its invariant.\<close>

theorem group_stays_wellformed:
  assumes "slate_tx S view durable tx_db tx_snapshot tx_writes" and "metadata_codec P"
    and "group_run B S P view durable db g (orderly view db) st st'" and "serving (gs_fs st) g db"
    and "gs_handles st = Map.empty" and "db_wf P (view db (gs_world st))" and "gs_recent st = {view db (gs_world st)}"
  shows "db_wf P (view db (gs_world st')) \<and> (\<forall>v \<in> gs_recent st'. db_wf P v) \<and>
    (\<forall>i h. gs_handles st' i = Some h \<longrightarrow> handle_inv S db h (view db (gs_world st')) \<and>
       (fl_write (fh_flags h) \<longrightarrow> (\<exists>p. catalog (view db (gs_world st')) p = Some (fh_file_id h))))"
proof -
  have "group_inv S P view db g st" using assms(4-7) by (simp add: group_inv_def)
  from slate_tx.group_run_inv [OF assms(1,3) this assms(2)] show ?thesis
    by (auto simp: group_inv_def group_handle_def ran_def)
qed

theorem group_stays_wellformed_witness:
  "\<exists>st' h. group_run mem_builder mem_slatedb proto_codec mem_view mem_durable ''d'' ''f'' (orderly mem_view ''d'')
       ((small_group flags_read_write)\<lparr>gs_handles := Map.empty\<rparr>) st' \<and>
     gs_handles st' 0 = Some h \<and> handle_inv mem_slatedb ''d'' h (mem_view ''d'' (gs_world st'))"
proof -
  let ?st = "(small_group flags_read_write)\<lparr>gs_handles := Map.empty\<rparr>"
  let ?R = "fs_open_file mem_builder mem_slatedb proto_codec 7 ''f'' flags_read_write (small_fs (Some ''d''), mem_one ''f'' [])"
  have "case fst ?R of Ok h \<Rightarrow> True | _ \<Rightarrow> False" by code_simp
  then obtain h fs' s' where run: "?R = (Ok h, (fs', s'))" by (cases "fst ?R") (auto, metis prod.collapse)
  let ?st' = "?st\<lparr>gs_fs := fs', gs_handles := [0 \<mapsto> h], gs_world := s',
    gs_recent := recoverable (mem_durable ''d'' s') (mem_view ''d'' s') (gs_recent ?st)\<rparr>"
  have "group_step mem_builder mem_slatedb proto_codec mem_view mem_durable ''d'' ''f'' ?st (Opening ''f'' flags_read_write) ?st'"
    using group_open [of "''f''" "''f''" flags_read_write ?st 0 mem_builder mem_slatedb proto_codec 7 "Ok h" fs' s' mem_view mem_durable "''d''"] run
    by simp
  then have steps: "group_run mem_builder mem_slatedb proto_codec mem_view mem_durable ''d'' ''f'' (orderly mem_view ''d'') ?st ?st'"
    by (rule run_next [OF run_start, rotated]) simp
  from group_stays_wellformed [OF mem_tx.slate_tx_axioms proto.metadata_codec_axioms this]
  have "handle_inv mem_slatedb ''d'' h (mem_view ''d'' s')" by (simp add: small_group_def)
  with steps show ?thesis by (intro exI [of _ ?st'] exI [of _ h]) simp
qed

text \<open>C5. A synced file survives. When a handle of a group in use is synced and had something to write, the
  path of its file leads to the bytes of the handle from then on, through other operations, failures and
  crashes, until a step removes, moves or truncates that path or syncs a handle with changes of that
  file; opening the path meanwhile shows these bytes. A crash may leave any contents shown since the
  durable contents of the store were last the shown ones, so the sync has to make its write durable. As
  for the well-formed group, no step of the run removes or replaces a file that a handle is open to write
  (\<open>orderly\<close>).\<close>

theorem synced_files_survive:
  assumes "slate_tx S view durable tx_db tx_snapshot tx_writes" and "metadata_codec P"
    and "group_inv S P view db g st" and "group_step B S P view durable db g st (FileCall i Sync (Ok out)) st1"
    and "gs_handles st i = Some h" and "cm_pending (chunks h) \<noteq> [] \<or> metadata_dirty h"
    and "catalog (view db (gs_world st)) p = Some (fh_file_id h)" and "p \<noteq> []" and "database_group p = g"
    and "group_run B S P view durable db g (\<lambda>st e. orderly view db st e \<and> spares view db p st e) st1 st2"
  shows "stored_files P (view db (gs_world st2)) p = Some (file_bytes h (view db (gs_world st))) \<and>
    (\<forall>h2 fs' s'. fs_open_file B S P now p fl (gs_fs st2, gs_world st2) = (Ok h2, (fs', s')) \<and> flags_wf fl \<and>
       \<not> fl_truncate_existing fl \<longrightarrow> file_bytes h2 (view db s') = file_bytes h (view db (gs_world st)))"
proof -
  have "\<not> clean_handle h" using assms(6) by (simp add: clean_handle_def)
  note k = slate_tx.sync_step_kept [OF assms(1,4,3,2,5) this assms(7)]
  note i1 = slate_tx.group_step_inv [OF assms(1,4,3,2) orderly.simps(3) [THEN iffD2, OF TrueI]]
  have i2: "group_inv S P view db g st2" by (rule slate_tx.group_run_inv [OF assms(1,10) i1 assms(2)]) simp
  note k2 = slate_tx.group_run_kept [OF assms(1,10) i1 assms(2) k]
  have sv: "serving (gs_fs st2) (database_group p) db" "db_wf P (view db (gs_world st2))"
    using i2 assms(9) by (auto simp: group_inv_def)
  have bytes: "stored_files P (view db (gs_world st2)) p = Some (file_bytes h (view db (gs_world st)))"
    using k2 by (simp add: kept_def)
  have "file_bytes h2 (view db s') = file_bytes h (view db (gs_world st))"
    if "fs_open_file B S P now p fl (gs_fs st2, gs_world st2) = (Ok h2, (fs', s'))" "flags_wf fl" "\<not> fl_truncate_existing fl"
    for h2 fs' s'
    using slate_tx.open_file_follows [OF assms(1) that(1) sv assms(8) that(2) assms(2)] 
      spec_open_cases(2) [of "stored_files P (view db (gs_world st2))" p, OF bytes that(3)] by simp
  with bytes show ?thesis by blast
qed

theorem synced_files_survive_witness:
  "\<exists>st st1 st2. group_step mem_builder mem_slatedb proto_codec mem_view mem_durable ''d'' ''f'' st (FileCall 0 Sync (Ok [])) st1 \<and>
     group_step mem_builder mem_slatedb proto_codec mem_view mem_durable ''d'' ''f'' st1 Crashing st2 \<and> gs_handles st2 = Map.empty \<and>
     stored_files proto_codec (mem_view ''d'' (gs_world st2)) ''f'' = Some [1, 2, 3]"
proof -
  let ?B = mem_builder and ?S = mem_slatedb and ?P = proto_codec and ?V = mem_view and ?D = mem_durable
  let ?st = "small_group flags_read_write" and ?v = "mem_view ''d'' (mem_one ''f'' [])"
  let ?w = "[1, 2, 3] :: bytes" and ?h = "small_handle flags_read_write 0 :: (mem, path, path) file_handle"
  have good: "mem_faults (mem_one ''f'' []) = []" by (simp add: mem_one_def)
  have h: "handle_inv ?S ''d'' ?h ?v" "fh_wf (slatedb_chunk_store ?S ''d'') ?h" by simp_all
  obtain h1 s1 where w: "pwrite 5 ?w 0 (?h, mem_one ''f'' []) = (Ok (), (h1, s1))" "mem_faults s1 = []"
    by (rule mem_live_tx.pwrite_good [OF good h(1), of 0 ?w 5]) (auto simp: u64_size_def)
  let ?sa = "?st\<lparr>gs_handles := [0 \<mapsto> h1], gs_world := s1, gs_recent := recoverable (?D ''d'' s1) (?V ''d'' s1) (gs_recent ?st)\<rparr>"
  have "exec_op ?S ?P (5, Pwrite ?w 0) (?h, gs_world ?st) = (Ok [], (h1, s1))" using w(1) by (simp add: no_output_eq_Ok)
  from group_file [of ?st 0 ?h "Pwrite ?w 0", OF _ _ this, of ?B ?V ?D "''d''" "''f''"]
  have "group_step ?B ?S ?P ?V ?D ''d'' ''f'' ?st (FileCall 0 (Pwrite ?w 0) (Ok [])) ?sa" by simp
  then have inv: "group_inv ?S ?P ?V ''d'' ''f'' ?sa"
    by (rule mem_tx.group_step_inv [OF _ small_group_inv proto.metadata_codec_axioms]) simp
  have v1: "?V ''d'' s1 = ?v" "fh_file_id h1 = 1" using mem_store.pwrite_spec [OF w(1) h(2)] by (auto simp: same_handle_def)
  have bytes: "file_bytes h1 (?V ''d'' s1) = ?w"
    using mem_live_tx.pwrite_start_bytes [OF w(1) h(2)] by (simp add: file_bytes_def)
  have "handle_inv ?S ''d'' h1 (?V ''d'' s1)" using inv by (simp add: group_inv_def group_handle_def)
  then obtain h2 s2 where sy: "sync ?S ?P (h1, s1) = (Ok (), (h2, s2))" by (rule mem_live_tx.sync_good [OF w(2), where P = ?P])
  have dirty: "metadata_dirty h1" by (rule mem_live_tx.pwrite_dirty [OF _ w(1)]) simp
  let ?sb = "?sa\<lparr>gs_handles := [0 \<mapsto> h2], gs_world := s2, gs_recent := recoverable (?D ''d'' s2) (?V ''d'' s2) (gs_recent ?sa)\<rparr>"
  let ?sc = "\<lparr>gs_fs = small_fs (Some ''d''), gs_handles = Map.empty, gs_world = s2, gs_recent = {?V ''d'' s2}\<rparr>"
  have "exec_op ?S ?P (6, Sync) (h1, gs_world ?sa) = (Ok [], (h2, s2))" using sy by (simp add: no_output_eq_Ok)
  from group_file [of ?sa 0 h1 Sync, OF _ _ this, of ?B ?V ?D "''d''" "''f''"]
  have 1: "group_step ?B ?S ?P ?V ?D ''d'' ''f'' ?sa (FileCall 0 Sync (Ok [])) ?sb" by simp
  have 2: "group_step ?B ?S ?P ?V ?D ''d'' ''f'' ?sb Crashing ?sc" by (rule group_crash) (simp_all add: recoverable_def)
  have run: "group_run ?B ?S ?P ?V ?D ''d'' ''f'' (\<lambda>st e. orderly ?V ''d'' st e \<and> spares ?V ''d'' ''f'' st e) ?sb ?sc"
    using run_start _ 2 by (rule run_next) simp
  from synced_files_survive [OF mem_tx.slate_tx_axioms proto.metadata_codec_axioms inv 1 _ _ _ _ _ run, of h1] dirty v1 bytes
  have "stored_files ?P (?V ''d'' (gs_world ?sc)) ''f'' = Some ?w" by simp
  with 1 2 show ?thesis by (intro exI [of _ ?sa] exI [of _ ?sb] exI [of _ ?sc]) simp
qed

end
