(* ===== verification/Test_Kit.thy ===== *)
theory Test_Kit
  imports Mem_Examples Test_Utils
begin

text \<open>
  The tests of the repository as programs of the model. A test is an operation on the world of the store
  that panics when an assertion fails; handles, chunk managers and filesystems are its local variables. A
  test passes when the kernel evaluates it to \<open>Ok\<close> on the store in memory. This ties the definitions to what
  the authors of the code expect of it, beyond the lines they were translated from.
\<close>

section \<open>Assertions and literals\<close>

definition assert_that :: "bool \<Rightarrow> ('s, unit) io" where
  "assert_that b = (if b then io_return () else io_lift (Panic ''assertion failed''))"

definition unwrap :: "('s, 'a) io \<Rightarrow> ('s, 'a) io" where
  "unwrap m = expect ''called `Result::unwrap()` on an `Err` value'' m"

text \<open>The result of a call as a value, errors included; a panic stays one.\<close>

definition attempt :: "('s, 'a) io \<Rightarrow> ('s, 'a outcome) io" where
  "attempt m = (\<lambda>s. case m s of (Panic p, s') \<Rightarrow> (Panic p, s') | (r, s') \<Rightarrow> (Ok r, s'))"

text \<open>\<open>matches!(.., Err(Error::..(_)))\<close>.\<close>

definition fails_with :: "error_code \<Rightarrow> 'a outcome \<Rightarrow> bool" where
  "fails_with c r = (case r of Err e \<Rightarrow> code e = c | _ \<Rightarrow> False)"

text \<open>A call on a local variable.\<close>

definition on :: "'v \<Rightarrow> ('v \<times> 's, 'a) io \<Rightarrow> ('s, 'a \<times> 'v) io" where
  "on v m = (\<lambda>s. case m (v, s) of (r, (v', s')) \<Rightarrow> (map_outcome (\<lambda>x. (x, v')) r, s'))"

text \<open>A call on a local variable whose error is examined; the variable keeps what the call did to it.\<close>

definition attempt_on :: "'v \<Rightarrow> ('v \<times> 's, 'a) io \<Rightarrow> ('s, 'a outcome \<times> 'v) io" where
  "attempt_on v m = (\<lambda>s. case m (v, s) of
     (Panic p, (v', s')) \<Rightarrow> (Panic p, s') | (r, (v', s')) \<Rightarrow> (Ok (r, v'), s'))"

text \<open>Byte string literals.\<close>

definition bstr :: "string \<Rightarrow> bytes" where
  "bstr s = map (\<lambda>c. of_nat (of_char c)) s"

text \<open>The chunk size of the fixtures, declared by the tests of the chunk manager and of the handles alike.\<close>

definition SMALL_CHUNK :: u64 where
  "SMALL_CHUNK = 8"

text \<open>A read into a buffer that is a local variable: the number of bytes and the buffer.\<close>

definition pread_into :: "('s, 'db, 'rd) file_handle \<Rightarrow> bytes \<Rightarrow> u64 \<Rightarrow> ('s, usize \<times> bytes) io" where
  "pread_into h buf offset = (\<lambda>s. case pread h offset (buf, s) of
     (r, (buf', s')) \<Rightarrow> (map_outcome (\<lambda>n. (n, buf')) r, s'))"

definition read_into ::
  "('s, 'db, 'rd) file_handle \<Rightarrow> bytes \<Rightarrow> ('s, (usize \<times> bytes) \<times> ('s, 'db, 'rd) file_handle) io" where
  "read_into h buf = (\<lambda>s. case fh_read (h, (buf, s)) of
     (r, (h', (buf', s'))) \<Rightarrow> (map_outcome (\<lambda>n. ((n, buf'), h')) r, s'))"

section \<open>Databases\<close>

text \<open>A database opened directly, on a builder that only has its path and its store.\<close>

definition new_db :: "('s, 'db, 'rd) slate_builder \<Rightarrow> string \<Rightarrow> ('s, 'db) io" where
  "new_db B p = expect ''open slatedb'' (slate (build_db B
     \<lparr>b_path = p, b_object_store_cache_options = cache_options_default B, b_db_cache = None\<rparr>))"

definition shut_db :: "('s, 'db, 'rd) slate_builder \<Rightarrow> 'db \<Rightarrow> ('s, unit) io" where
  "shut_db B db = expect ''close slatedb'' (slate (close_db B db))"

text \<open>
  A fixture that wraps its store in a \<open>FaultyChunkStore\<close> has the flag of that store beside the world; the
  database itself does not see it.
\<close>

definition with_faults :: "('s \<times> bool, 'a) io \<Rightarrow> ('s, 'a) io" where
  "with_faults t = (\<lambda>s. case t (s, False) of (r, (s', _)) \<Rightarrow> (r, s'))"

definition arm_fault :: "('s \<times> bool, unit) io" where
  "arm_fault = (\<lambda>st. (Ok (), fail_next_operation st))"

definition beside :: "('s \<Rightarrow> 'a \<times> 's) \<Rightarrow> 's \<times> 'b \<Rightarrow> 'a \<times> ('s \<times> 'b)" where
  "beside f = (\<lambda>(s, b). case f s of (r, s') \<Rightarrow> (r, (s', b)))"

definition slatedb_beside :: "('s, 'db, 'rd, 'tx) slatedb \<Rightarrow> ('s \<times> 'b, 'db, 'rd, 'tx) slatedb" where
  "slatedb_beside S = \<lparr>
     db_get = (\<lambda>db k. beside (db_get S db k)), db_scan = (\<lambda>db a b opt. beside (db_scan S db a b opt)),
     db_scan_prefix = (\<lambda>db p. beside (db_scan_prefix S db p)),
     db_write = (\<lambda>db b. beside (db_write S db b)), db_flush = (\<lambda>db. beside (db_flush S db)),
     rd_get = (\<lambda>rd k. beside (rd_get S rd k)), rd_scan = (\<lambda>rd a b opt. beside (rd_scan S rd a b opt)),
     rd_scan_prefix = (\<lambda>rd p. beside (rd_scan_prefix S rd p)),
     db_begin = (\<lambda>db. beside (db_begin S db)), tx_get = (\<lambda>tx k. beside (tx_get S tx k)),
     tx_scan_prefix = (\<lambda>tx p. beside (tx_scan_prefix S tx p)), tx_put = tx_put S, tx_delete = tx_delete S,
     tx_commit = (\<lambda>tx. beside (tx_commit S tx))\<rparr>"

text \<open>
  Builders for databases in memory. A writer creates its database; a reader of one that was never written
  fails the way SlateDB does.
\<close>

definition no_manifest :: slatedb_error where
  "no_manifest = \<lparr>kind = Data, text_of = ''failed to find latest transactional object''\<rparr>"

definition test_build_db :: "db_builder \<Rightarrow> mem \<Rightarrow> (slatedb_error + path) \<times> mem" where
  "test_build_db b s = (Inr (b_path b), if map_of (mem_dbs s) (b_path b) = None then mem_set (b_path b) [] s else s)"

definition test_build_reader :: "db_builder \<Rightarrow> mem \<Rightarrow> (slatedb_error + path) \<times> mem" where
  "test_build_reader b s =
     (if map_of (mem_dbs s) (b_path b) = None then (Inl no_manifest, s) else (Inr (b_path b), s))"

definition test_close :: "'a \<Rightarrow> mem \<Rightarrow> (slatedb_error + unit) \<times> mem" where
  "test_close c s = (Inr (), s)"

definition test_builder :: "(mem, path, path) slate_builder" where
  "test_builder = \<lparr>build_db = test_build_db, build_reader = test_build_reader,
     close_db = test_close, close_reader = test_close, close_cache = test_close,
     cache_options_default = \<lparr>root_folder = None, max_cache_size_bytes = None, part_size_bytes = 4194304,
       cache_on_flush = False, cache_on_compaction = False\<rparr>,
     foyer_default_shards = 64\<rparr>"

definition test_world :: mem where
  "test_world = \<lparr>mem_dbs = [], mem_saved = [], mem_faults = []\<rparr>"

text \<open>A test passes on the store in memory.\<close>

definition passes :: "(mem, unit) io \<Rightarrow> bool" where
  "passes t = (case fst (t test_world) of Ok _ \<Rightarrow> True | _ \<Rightarrow> False)"

section \<open>Evaluation\<close>

text \<open>
  Code equations that take the state as an argument: an operation is unfolded where it runs, on a state that
  is known, and not inside the continuation that mentions it.
\<close>

text \<open>Keys share long prefixes: compare characters for equality before their order.\<close>

lemma list_less_code [code]:
  "xs < ([] :: 'a :: {equal, order} list) \<longleftrightarrow> False"
  "[] < (x :: 'a :: {equal, order}) # xs \<longleftrightarrow> True"
  "(x :: 'a :: {equal, order}) # xs < y # ys \<longleftrightarrow> (if x = y then xs < ys else x < y)"
  by auto

lemma list_less_eq_code [code]:
  "x # xs \<le> ([] :: 'a :: {equal, order} list) \<longleftrightarrow> False"
  "[] \<le> (xs :: 'a :: {equal, order} list) \<longleftrightarrow> True"
  "(x :: 'a :: {equal, order}) # xs \<le> y # ys \<longleftrightarrow> (if x = y then xs \<le> ys else x < y)"
  by auto

text \<open>Truncation of integers to words, by one division.\<close>

lemma take_bit_int_code [code]:
  "take_bit n (k :: int) =
     (if n = 8 then k mod 256 else if n = 64 then k mod 18446744073709551616 else k mod 2 ^ n)"
  by (simp add: take_bit_eq_mod)

lemmas stateful_store_code [code] =
  fun_cong [OF io_fst_def] fun_cong [OF io_snd_def] io_forM.simps [THEN fun_cong] io_mapM.simps [THEN fun_cong]
  fun_cong [OF take_fault_def] fun_cong [OF mem_get_def] fun_cong [OF mem_scan_def] fun_cong [OF mem_scan_prefix_def]

text \<open>The store in memory as a record of names, so that passing it around costs little.\<close>

definition mem_write :: "path \<Rightarrow> write_batch \<Rightarrow> mem \<Rightarrow> (slatedb_error + unit) \<times> mem" where
  "mem_write p b s0 = mem_call (\<lambda>s. (Inr (), mem_set p (mem_apply b (mem_db p s)) s)) s0"

definition mem_flush :: "path \<Rightarrow> mem \<Rightarrow> (slatedb_error + unit) \<times> mem" where
  "mem_flush p s0 = mem_call (\<lambda>s. (Inr (), mem_save p s)) s0"

definition mem_begin :: "path \<Rightarrow> mem \<Rightarrow> (slatedb_error + mem_tx) \<times> mem" where
  "mem_begin p s0 = mem_call (\<lambda>s. (Inr \<lparr>mt_path = p, mt_snapshot = mem_db p s, mt_writes = []\<rparr>, s)) s0"

definition mem_tx_get :: "mem_tx \<Rightarrow> key \<Rightarrow> mem \<Rightarrow> (slatedb_error + bytes option) \<times> mem" where
  "mem_tx_get tx k s0 = mem_call (\<lambda>s. (Inr (map_of (mem_apply (mt_writes tx) (mt_snapshot tx)) k), s)) s0"

definition mem_tx_scan_prefix :: "mem_tx \<Rightarrow> key \<Rightarrow> mem \<Rightarrow> (slatedb_error + scan_iter) \<times> mem" where
  "mem_tx_scan_prefix tx pre s0 =
     mem_call (\<lambda>s. (Inr (mem_entries (prefix pre) (mem_apply (mt_writes tx) (mt_snapshot tx))), s)) s0"

definition mem_tx_put :: "mem_tx \<Rightarrow> key \<Rightarrow> bytes \<Rightarrow> slatedb_error + mem_tx" where
  "mem_tx_put tx k v = Inr (tx\<lparr>mt_writes := mt_writes tx @ [BatchPut k v]\<rparr>)"

definition mem_tx_delete :: "mem_tx \<Rightarrow> key \<Rightarrow> slatedb_error + mem_tx" where
  "mem_tx_delete tx k = Inr (tx\<lparr>mt_writes := mt_writes tx @ [BatchDelete k]\<rparr>)"

definition mem_commit :: "mem_tx \<Rightarrow> mem \<Rightarrow> (slatedb_error + unit) \<times> mem" where
  "mem_commit tx s0 = mem_call (\<lambda>s.
     if mem_db (mt_path tx) s = mt_snapshot tx
     then (Inr (), mem_set (mt_path tx) (mem_apply (mt_writes tx) (mem_db (mt_path tx) s)) s)
     else (Inl mem_conflict, s)) s0"

lemma mem_slatedb_code [code]:
  "mem_slatedb = \<lparr>db_get = mem_get, db_scan = mem_scan, db_scan_prefix = mem_scan_prefix,
     db_write = mem_write, db_flush = mem_flush, rd_get = mem_get, rd_scan = mem_scan, rd_scan_prefix = mem_scan_prefix,
     db_begin = mem_begin, tx_get = mem_tx_get, tx_scan_prefix = mem_tx_scan_prefix, tx_put = mem_tx_put,
     tx_delete = mem_tx_delete, tx_commit = mem_commit\<rparr>"
  by (simp add: mem_slatedb_def fun_eq_iff mem_write_def mem_flush_def mem_begin_def mem_tx_get_def
      mem_tx_scan_prefix_def mem_tx_put_def mem_tx_delete_def mem_commit_def)

definition client_get :: "(key \<Rightarrow> 's \<Rightarrow> (slatedb_error + bytes option) \<times> 's) \<Rightarrow> key \<Rightarrow> ('s, bytes option) io" where
  "client_get get k s = slate (get k) s"

definition client_scan ::
  "(key \<Rightarrow> key \<Rightarrow> scan_options \<Rightarrow> 's \<Rightarrow> (slatedb_error + scan_iter) \<times> 's) \<Rightarrow> key \<Rightarrow> key \<Rightarrow> usize
     \<Rightarrow> ('s, (key \<times> bytes) list) io" where
  "client_scan scan a b n s =
     io_bind (slate (scan a b (chunk_scan_options n))) (\<lambda>it. io_lift (collect_pairs it)) s"

definition client_keys :: "(key \<Rightarrow> 's \<Rightarrow> (slatedb_error + scan_iter) \<times> 's) \<Rightarrow> key \<Rightarrow> ('s, key list) io" where
  "client_keys scan_prefix p s = io_bind (slate (scan_prefix p)) (\<lambda>it. io_lift (collect_keys it)) s"

lemma client_chunk_store_code [code]:
  "client_chunk_store get scan scan_prefix =
     \<lparr>cs_get = client_get get, cs_scan_inclusive = client_scan scan, cs_keys_with_prefix = client_keys scan_prefix\<rparr>"
  by (simp add: client_chunk_store_def fun_eq_iff client_get_def client_scan_def client_keys_def)

lemmas stateful_chunk_code [code] =
  fun_cong [OF copy_chunk_into_def] fun_cong [OF read_chunk_from_store_def] fun_cong [OF chunk_contents_def]
  fun_cong [OF read_chunk_group_from_store_def] fun_cong [OF read_chunks_from_store_def]
  read_pending.simps [THEN fun_cong] fun_cong [OF copy_persisted_def] fun_cong [OF cm_read_def]
  fun_cong [OF write_slice_def] fun_cong [OF cm_write_def] fun_cong [OF collect_persisted_chunk_indices_def]
  fun_cong [OF cm_truncate_def]

lemmas stateful_handle_code [code] =
  fun_cong [OF io_prefix_def] fun_cong [OF io_chunks_def] fun_cong [OF pread_def] fun_cong [OF pwrite_def]
  fun_cong [OF fh_read_def] fun_cong [OF fh_write_def] fun_cong [OF sync_def] fun_cong [OF fh_truncate_def]
  fun_cong [OF fh_close_def]

lemmas stateful_catalog_code [code] =
  fun_cong [OF find_file_def] fun_cong [OF dm_file_exists_def] fun_cong [OF dm_open_file_def]
  fun_cong [OF delete_chunks_def] fun_cong [OF dm_remove_file_def] fun_cong [OF dm_move_file_def]
  fun_cong [OF allocate_file_def] fun_cong [OF prepare_file_for_open_def]

lemmas stateful_fs_code [code] =
  fun_cong [OF open_writer_def] fun_cong [OF open_reader_def] fun_cong [OF client_for_group_def]
  fun_cong [OF open_reader_for_def] fun_cong [OF read_client_def] fun_cong [OF write_db_def]
  fun_cong [OF open_write_handle_def] fun_cong [OF open_read_handle_def] fun_cong [OF fs_open_file_def]
  fun_cong [OF fs_file_exists_def] fun_cong [OF fs_remove_file_def] fun_cong [OF fs_move_file_def]
  fun_cong [OF fs_close_def] fun_cong [OF make_root_def] fun_cong [OF open_local_with_cache_config_def]
  fun_cong [OF open_local_def] fun_cong [OF open_in_memory_with_cache_config_def] fun_cong [OF open_in_memory_def]
  fun_cong [OF open_s3_def]

text \<open>The cache id is a hash over the whole path of a database: compute it only where there is a cache to name.\<close>

lemma fs_builder_code [code]:
  "fs_builder B fs g =
     \<lparr>b_path = slatedb_path fs g,
      b_object_store_cache_options = object_store_cache_options (cache_options_default B) (cache_config fs),
      b_db_cache = (case db_cache fs of None \<Rightarrow> None | Some c \<Rightarrow> Some (c, db_cache_id fs g))\<rparr>"
  by (simp add: fs_builder_def split: option.split)

lemmas stateful_test_code [code] =
  fun_cong [OF expect_def] fun_cong [OF open_local_fs_def] fun_cong [OF with_file_def] fun_cong [OF write_file_def]
  fun_cong [OF read_file_def] fun_cong [OF assert_that_def] fun_cong [OF unwrap_def] fun_cong [OF attempt_def]
  fun_cong [OF on_def] fun_cong [OF attempt_on_def] fun_cong [OF pread_into_def] fun_cong [OF read_into_def]
  fun_cong [OF new_db_def] fun_cong [OF shut_db_def] fun_cong [OF with_faults_def] fun_cong [OF arm_fault_def]
  fun_cong [OF beside_def]

end
