(* ===== verification/Handle_Tests.thy ===== *)
theory Handle_Tests
  imports Test_Kit
begin

text \<open>
  The tests of \<open>rust/src/file_handle.rs\<close>. A read does not change the handle, so the two reads that one test
  joins run one after the other.
\<close>

section \<open>The fixture\<close>

definition new_metadata :: FileMetadata where
  "new_metadata = \<lparr>md_size = 0, md_modified_at_ms = 1, md_chunk_size = SMALL_CHUNK, md_chunk_base_offset = 0\<rparr>"

definition test_handle ::
  "('s, 'db, 'rd, 'tx) slatedb \<Rightarrow> 'db \<Rightarrow> u64 \<Rightarrow> FileOpenFlags \<Rightarrow> ('s, ('s, 'db, 'rd) file_handle) io" where
  "test_handle S db file_id fl = unwrap (io_lift (file_handle_new S (ReadWrite db) file_id new_metadata fl))"

definition test_reopen ::
  "('s, 'db, 'rd, 'tx) slatedb \<Rightarrow> codec \<Rightarrow> 'db \<Rightarrow> u64 \<Rightarrow> FileOpenFlags \<Rightarrow> ('s, ('s, 'db, 'rd) file_handle) io" where
  "test_reopen S P db file_id fl =
     io_bind (unwrap (slate (db_get S db (metadata_key file_id)))) (\<lambda>found.
     io_bind (io_lift (case found of None \<Rightarrow> Panic ''metadata'' | Some bs \<Rightarrow> Ok bs)) (\<lambda>bs.
     io_bind (unwrap (io_lift (decode_from_bytes P bs))) (\<lambda>md.
     unwrap (io_lift (file_handle_new S (ReadWrite db) file_id md fl)))))"

text \<open>A handle whose chunk reads can be made to fail, and the constructor it uses.\<close>

definition with_chunk_store ::
  "'db \<Rightarrow> 's chunk_store \<Rightarrow> u64 \<Rightarrow> FileMetadata \<Rightarrow> FileOpenFlags \<Rightarrow> ('s, 'db, 'rd) file_handle outcome" where
  "with_chunk_store db store file_id md fl = with_chunk_store_internal (ReadWrite db) store file_id md fl"

definition faulty_handle ::
  "('s, 'db, 'rd, 'tx) slatedb \<Rightarrow> 'db \<Rightarrow> u64 \<Rightarrow> FileOpenFlags \<Rightarrow> ('s \<times> bool, ('s \<times> bool, 'db, 'rd) file_handle) io" where
  "faulty_handle S db file_id fl = unwrap (io_lift (with_chunk_store db
     (faulty_chunk_store (slatedb_chunk_store S db)) file_id new_metadata fl))"

section \<open>Reading and writing\<close>

definition sequential_io_tracks_position ::
  "('s, 'db, 'rd) slate_builder \<Rightarrow> ('s, 'db, 'rd, 'tx) slatedb \<Rightarrow> codec \<Rightarrow> int \<Rightarrow> ('s, unit) io" where
  "sequential_io_tracks_position B S P now =
     io_bind (new_db B ''handle-test'') (\<lambda>db.
     io_bind (test_handle S db 1 flags_open_or_create) (\<lambda>h.
     io_bind (unwrap (on h (fh_write now (bstr ''abcdef'')))) (\<lambda>(n, h).
     io_bind (assert_that (n = 6)) (\<lambda>_.
     io_bind (assert_that (seek_position h = 6)) (\<lambda>_.
     io_bind (unwrap (read_into (seek 2 h) (replicate 3 0))) (\<lambda>((n, buf), h).
     io_bind (assert_that (n = 3)) (\<lambda>_.
     io_bind (assert_that (buf = bstr ''cde'')) (\<lambda>_.
     let h = reset h in
     io_bind (assert_that (seek_position h = 0)) (\<lambda>_.
     io_bind (unwrap (on h (fh_close S P))) (\<lambda>_.
     shut_db B db))))))))))"

definition positional_reads_can_share_a_handle ::
  "('s, 'db, 'rd) slate_builder \<Rightarrow> ('s, 'db, 'rd, 'tx) slatedb \<Rightarrow> codec \<Rightarrow> int \<Rightarrow> ('s, unit) io" where
  "positional_reads_can_share_a_handle B S P now =
     io_bind (new_db B ''handle-test'') (\<lambda>db.
     io_bind (test_handle S db 11 flags_open_or_create) (\<lambda>h.
     io_bind (unwrap (on h (pwrite now (bstr ''abcdefgh'') 0))) (\<lambda>(_, h).
     io_bind (unwrap (on h (sync S P))) (\<lambda>(_, h).
     io_bind (unwrap (pread_into h (replicate 4 0) 0)) (\<lambda>(n1, buf1).
     io_bind (unwrap (pread_into h (replicate 4 0) 4)) (\<lambda>(n2, buf2).
     io_bind (assert_that (n1 = length buf1 \<and> n2 = length buf2)) (\<lambda>_.
     io_bind (assert_that (buf1 = bstr ''abcd'' \<and> buf2 = bstr ''efgh'')) (\<lambda>_.
     io_bind (unwrap (on h (fh_close S P))) (\<lambda>_.
     shut_db B db)))))))))"

definition writes_persist_across_chunks_and_reopen ::
  "('s, 'db, 'rd) slate_builder \<Rightarrow> ('s, 'db, 'rd, 'tx) slatedb \<Rightarrow> codec \<Rightarrow> int \<Rightarrow> ('s, unit) io" where
  "writes_persist_across_chunks_and_reopen B S P now =
     io_bind (new_db B ''handle-test'') (\<lambda>db.
     io_bind (test_handle S db 2 flags_open_or_create) (\<lambda>h.
     io_bind (unwrap (on h (pwrite now (bstr ''hello'') 0))) (\<lambda>(_, h).
     io_bind (unwrap (on h (pwrite now (bstr ''xyz'') (SMALL_CHUNK - 1)))) (\<lambda>(_, h).
     io_bind (assert_that (file_size h = SMALL_CHUNK + 2)) (\<lambda>_.
     io_bind (unwrap (on h (fh_close S P))) (\<lambda>_.
     io_bind (test_reopen S P db 2 flags_read_only) (\<lambda>reopened.
     io_bind (unwrap (pread_into reopened (replicate 3 0) (SMALL_CHUNK - 1))) (\<lambda>(_, boundary).
     io_bind (assert_that (boundary = bstr ''xyz'')) (\<lambda>_.
     shut_db B db)))))))))"

definition append_writes_at_end_after_reopen ::
  "('s, 'db, 'rd) slate_builder \<Rightarrow> ('s, 'db, 'rd, 'tx) slatedb \<Rightarrow> codec \<Rightarrow> int \<Rightarrow> ('s, unit) io" where
  "append_writes_at_end_after_reopen B S P now =
     io_bind (new_db B ''handle-test'') (\<lambda>db.
     io_bind (test_handle S db 6 flags_open_or_create) (\<lambda>w.
     io_bind (unwrap (on w (fh_write now (bstr ''abc'')))) (\<lambda>(_, w).
     io_bind (unwrap (on w (fh_close S P))) (\<lambda>_.
     io_bind (test_reopen S P db 6 flags_append) (\<lambda>a.
     io_bind (assert_that (seek_position a = 3)) (\<lambda>_.
     io_bind (unwrap (on (seek 0 a) (fh_write now (bstr ''def'')))) (\<lambda>(_, a).
     io_bind (assert_that (seek_position a = 6)) (\<lambda>_.
     io_bind (unwrap (on a (fh_close S P))) (\<lambda>_.
     io_bind (test_reopen S P db 6 flags_read_only) (\<lambda>r.
     io_bind (unwrap (read_into r (replicate 6 0))) (\<lambda>((n, contents), _).
     io_bind (assert_that (n = length contents)) (\<lambda>_.
     io_bind (assert_that (contents = bstr ''abcdef'')) (\<lambda>_.
     shut_db B db)))))))))))))"

definition reads_stop_at_the_end_of_the_file ::
  "('s, 'db, 'rd) slate_builder \<Rightarrow> ('s, 'db, 'rd, 'tx) slatedb \<Rightarrow> codec \<Rightarrow> int \<Rightarrow> ('s, unit) io" where
  "reads_stop_at_the_end_of_the_file B S P now =
     io_bind (new_db B ''handle-test'') (\<lambda>db.
     io_bind (test_handle S db 10 flags_open_or_create) (\<lambda>h.
     io_bind (unwrap (on h (pwrite now (bstr ''abc'') 0))) (\<lambda>(_, h).
     io_bind (unwrap (pread_into h (replicate 6 (of_nat (of_char (CHR ''?'')))) 0)) (\<lambda>(n, buf).
     io_bind (assert_that (n = 3)) (\<lambda>_.
     io_bind (assert_that (buf = bstr ''abc???'')) (\<lambda>_.
     io_bind (unwrap (pread_into h buf 3)) (\<lambda>(n, _).
     io_bind (assert_that (n = 0)) (\<lambda>_.
     io_bind (unwrap (on h (fh_close S P))) (\<lambda>_.
     shut_db B db)))))))))"

definition reads_span_persisted_and_pending_chunks ::
  "('s, 'db, 'rd) slate_builder \<Rightarrow> ('s, 'db, 'rd, 'tx) slatedb \<Rightarrow> codec \<Rightarrow> int \<Rightarrow> ('s, unit) io" where
  "reads_span_persisted_and_pending_chunks B S P now =
     io_bind (new_db B ''handle-test'') (\<lambda>db.
     io_bind (test_handle S db 8 flags_open_or_create) (\<lambda>w.
     io_bind (unwrap (on w (pwrite now (bstr ''aaaaaaaabbbbbbbbccccccccdddddddd'') 0))) (\<lambda>(_, w).
     io_bind (unwrap (on w (fh_close S P))) (\<lambda>_.
     io_bind (test_reopen S P db 8 flags_open_or_create) (\<lambda>h.
     io_bind (unwrap (on h (pwrite now (bstr ''CCCCCCCC'') (2 * SMALL_CHUNK)))) (\<lambda>(_, h).
     io_bind (unwrap (pread_into h (replicate (4 * SMALL_CHUNK) 0) 0)) (\<lambda>(n, buf).
     io_bind (assert_that (n = length buf)) (\<lambda>_.
     io_bind (assert_that (buf = bstr ''aaaaaaaabbbbbbbbCCCCCCCCdddddddd'')) (\<lambda>_.
     io_bind (unwrap (on h (fh_close S P))) (\<lambda>_.
     shut_db B db))))))))))"

section \<open>Truncating\<close>

definition truncate_hides_persisted_chunks_before_sync ::
  "('s, 'db, 'rd) slate_builder \<Rightarrow> ('s, 'db, 'rd, 'tx) slatedb \<Rightarrow> codec \<Rightarrow> int \<Rightarrow> ('s, unit) io" where
  "truncate_hides_persisted_chunks_before_sync B S P now =
     io_bind (new_db B ''handle-test'') (\<lambda>db.
     io_bind (test_handle S db 9 flags_open_or_create) (\<lambda>h.
     io_bind (unwrap (on h (pwrite now (bstr ''aaaaaaaabbbbbbbbcccccccc'') 0))) (\<lambda>(_, h).
     io_bind (unwrap (on h (sync S P))) (\<lambda>(_, h).
     io_bind (unwrap (on h (fh_truncate now SMALL_CHUNK))) (\<lambda>(_, h).
     io_bind (unwrap (on h (fh_truncate now (3 * SMALL_CHUNK)))) (\<lambda>(_, h).
     io_bind (unwrap (pread_into h (replicate (3 * SMALL_CHUNK) 0) 0)) (\<lambda>(n, buf).
     io_bind (assert_that (n = length buf)) (\<lambda>_.
     io_bind (assert_that (take SMALL_CHUNK buf = bstr ''aaaaaaaa'')) (\<lambda>_.
     io_bind (assert_that (list_all (\<lambda>b. b = 0) (drop SMALL_CHUNK buf))) (\<lambda>_.
     io_bind (unwrap (on h (pwrite now (bstr ''ZZZZZZZZ'') SMALL_CHUNK))) (\<lambda>(_, h).
     io_bind (unwrap (on h (fh_close S P))) (\<lambda>_.
     io_bind (test_reopen S P db 9 flags_read_only) (\<lambda>reopened.
     io_bind (unwrap (pread_into reopened buf 0)) (\<lambda>(n, buf).
     io_bind (assert_that (n = length buf)) (\<lambda>_.
     io_bind (assert_that (buf = bstr ''aaaaaaaaZZZZZZZZ'' @ replicate 8 0)) (\<lambda>_.
     shut_db B db))))))))))))))))"

definition truncate_then_sparse_write_reads_as_zero ::
  "('s, 'db, 'rd) slate_builder \<Rightarrow> ('s, 'db, 'rd, 'tx) slatedb \<Rightarrow> codec \<Rightarrow> int \<Rightarrow> ('s, unit) io" where
  "truncate_then_sparse_write_reads_as_zero B S P now =
     io_bind (new_db B ''handle-test'') (\<lambda>db.
     io_bind (test_handle S db 3 flags_open_or_create) (\<lambda>h.
     io_bind (unwrap (on h (pwrite now (bstr ''abcdefghij'') 0))) (\<lambda>(_, h).
     io_bind (unwrap (on h (sync S P))) (\<lambda>(_, h).
     io_bind (unwrap (on h (fh_truncate now 5))) (\<lambda>(_, h).
     io_bind (unwrap (on h (pwrite now (bstr ''Z'') 8))) (\<lambda>(_, h).
     io_bind (unwrap (pread_into h (replicate 9 0) 0)) (\<lambda>(_, buf).
     io_bind (assert_that (take 5 buf = bstr ''abcde'')) (\<lambda>_.
     io_bind (assert_that (take 3 (drop 5 buf) = [0, 0, 0])) (\<lambda>_.
     io_bind (assert_that (drop 8 buf = bstr ''Z'')) (\<lambda>_.
     io_bind (unwrap (on h (fh_close S P))) (\<lambda>_.
     shut_db B db)))))))))))"

definition failed_truncate_preserves_unflushed_writes ::
  "('s, 'db, 'rd) slate_builder \<Rightarrow> ('s, 'db, 'rd, 'tx) slatedb \<Rightarrow> codec \<Rightarrow> int \<Rightarrow> ('s, unit) io" where
  "failed_truncate_preserves_unflushed_writes B S P now =
     io_bind (new_db B ''handle-test'') (\<lambda>db.
     io_bind (with_faults (
       io_bind (faulty_handle S db 5 flags_open_or_create) (\<lambda>h.
       io_bind (unwrap (on h (pwrite now (bstr ''abcdefghij'') 0))) (\<lambda>(_, h).
       io_bind (assert_that (file_size h = 10)) (\<lambda>_.
       io_bind arm_fault (\<lambda>_.
       io_bind (attempt_on h (fh_truncate now 5)) (\<lambda>(q, h).
       io_bind (assert_that (fails_with CodeSlateDb q)) (\<lambda>_.
       io_bind (assert_that (file_size h = 10)) (\<lambda>_.
       io_bind arm_fault (\<lambda>_.
       io_bind (attempt_on h (fh_truncate now 0)) (\<lambda>(q, h).
       io_bind (assert_that (fails_with CodeSlateDb q)) (\<lambda>_.
       io_bind (assert_that (file_size h = 10)) (\<lambda>_.
       io_bind (unwrap (pread_into h (replicate 10 0) 0)) (\<lambda>(n, buf).
       io_bind (assert_that (n = 10)) (\<lambda>_.
       io_bind (assert_that (buf = bstr ''abcdefghij'')) (\<lambda>_.
       unwrap (on h (fh_close (slatedb_beside S) P)))))))))))))))))) (\<lambda>_.
     shut_db B db))"

definition read_only_handle_rejects_writes ::
  "('s, 'db, 'rd) slate_builder \<Rightarrow> ('s, 'db, 'rd, 'tx) slatedb \<Rightarrow> codec \<Rightarrow> int \<Rightarrow> ('s, unit) io" where
  "read_only_handle_rejects_writes B S P now =
     io_bind (new_db B ''handle-test'') (\<lambda>db.
     io_bind (test_handle S db 4 flags_open_or_create) (\<lambda>w.
     io_bind (unwrap (on w (pwrite now (bstr ''abc'') 0))) (\<lambda>(_, w).
     io_bind (unwrap (on w (fh_close S P))) (\<lambda>_.
     io_bind (test_reopen S P db 4 flags_read_only) (\<lambda>r.
     io_bind (attempt_on r (pwrite now (bstr ''z'') 0)) (\<lambda>(q, r).
     io_bind (assert_that (fails_with CodeReadOnlyViolation q)) (\<lambda>_.
     io_bind (attempt_on r (fh_truncate now 0)) (\<lambda>(q, r).
     io_bind (assert_that (fails_with CodeReadOnlyViolation q)) (\<lambda>_.
     shut_db B db)))))))))"

lemma handle_tests_pass:
  "passes (sequential_io_tracks_position test_builder mem_slatedb proto_codec 5)"
  "passes (positional_reads_can_share_a_handle test_builder mem_slatedb proto_codec 5)"
  "passes (writes_persist_across_chunks_and_reopen test_builder mem_slatedb proto_codec 5)"
  "passes (append_writes_at_end_after_reopen test_builder mem_slatedb proto_codec 5)"
  "passes (reads_stop_at_the_end_of_the_file test_builder mem_slatedb proto_codec 5)"
  "passes (reads_span_persisted_and_pending_chunks test_builder mem_slatedb proto_codec 5)"
  "passes (truncate_hides_persisted_chunks_before_sync test_builder mem_slatedb proto_codec 5)"
  "passes (truncate_then_sparse_write_reads_as_zero test_builder mem_slatedb proto_codec 5)"
  "passes (failed_truncate_preserves_unflushed_writes test_builder mem_slatedb proto_codec 5)"
  "passes (read_only_handle_rejects_writes test_builder mem_slatedb proto_codec 5)"
  by code_simp+

end
