(* ===== verification/Chunk_Tests.thy ===== *)
theory Chunk_Tests
  imports Test_Kit
begin

text \<open>The tests of \<open>rust/src/chunk_store.rs\<close> and \<open>rust/src/chunk_manager.rs\<close>.\<close>

section \<open>The chunk stores\<close>

text \<open>\<open>Db::put\<close> writes a batch of one entry.\<close>

definition put_all :: "('s, 'db, 'rd, 'tx) slatedb \<Rightarrow> 'db \<Rightarrow> (key \<times> bytes) list \<Rightarrow> ('s, unit) io" where
  "put_all S db kvs = io_forM kvs (\<lambda>(k, v). expect ''put'' (slate (db_write S db [BatchPut k v])))"

definition scans_cover_both_ends_of_the_range ::
  "('s, 'db, 'rd) slate_builder \<Rightarrow> ('s, 'db, 'rd, 'tx) slatedb \<Rightarrow> ('s, unit) io" where
  "scans_cover_both_ends_of_the_range B S =
     io_bind (new_db B ''chunk-store-test'') (\<lambda>db.
     io_bind (put_all S db (map (\<lambda>k. (k, bstr ''v'')) [''k/1'', ''k/2'', ''k/3'', ''k/4''])) (\<lambda>_.
     let store = slatedb_chunk_store S db in
     io_bind (unwrap (cs_scan_inclusive store ''k/2'' ''k/3'' 2)) (\<lambda>scanned.
     io_bind (assert_that (map fst scanned = [''k/2'', ''k/3''])) (\<lambda>_.
     io_bind (unwrap (cs_get store ''k/1'')) (\<lambda>v.
     io_bind (assert_that (v \<noteq> None)) (\<lambda>_.
     io_bind (unwrap (cs_get store ''k/9'')) (\<lambda>v.
     io_bind (assert_that (v = None)) (\<lambda>_.
     io_bind (unwrap (cs_keys_with_prefix store ''k/'')) (\<lambda>ks.
     io_bind (assert_that (length ks = 4)) (\<lambda>_.
     shut_db B db))))))))))"

definition injected_fault_applies_once_to_whichever_operation_comes_next ::
  "('s, 'db, 'rd) slate_builder \<Rightarrow> ('s, 'db, 'rd, 'tx) slatedb \<Rightarrow> ('s, unit) io" where
  "injected_fault_applies_once_to_whichever_operation_comes_next B S =
     io_bind (new_db B ''chunk-store-test'') (\<lambda>db.
     io_bind (put_all S db [(''k/1'', bstr ''v'')]) (\<lambda>_.
     let store = faulty_chunk_store (slatedb_chunk_store S db) in
     io_bind (with_faults (
       io_bind arm_fault (\<lambda>_.
       io_bind (attempt (cs_get store ''k/1'')) (\<lambda>q.
       io_bind (assert_that (fails_with CodeSlateDb q)) (\<lambda>_.
       io_bind (unwrap (cs_get store ''k/1'')) (\<lambda>v.
       io_bind (assert_that (v \<noteq> None)) (\<lambda>_.
       io_bind arm_fault (\<lambda>_.
       io_bind (attempt (cs_keys_with_prefix store ''k/'')) (\<lambda>q.
       io_bind (assert_that (fails_with CodeSlateDb q)) (\<lambda>_.
       io_bind (unwrap (cs_keys_with_prefix store ''k/'')) (\<lambda>ks.
       io_bind (assert_that (length ks = 1)) (\<lambda>_.
       io_bind arm_fault (\<lambda>_.
       io_bind (attempt (cs_scan_inclusive store ''k/0'' ''k/9'' 10)) (\<lambda>q.
       io_bind (assert_that (fails_with CodeSlateDb q)) (\<lambda>_.
       io_bind (unwrap (cs_scan_inclusive store ''k/0'' ''k/9'' 10)) (\<lambda>kvs.
       assert_that (length kvs = 1))))))))))))))))) (\<lambda>_.
     shut_db B db)))"

lemma chunk_store_tests_pass:
  "passes (scans_cover_both_ends_of_the_range test_builder mem_slatedb)"
  "passes (injected_fault_applies_once_to_whichever_operation_comes_next test_builder mem_slatedb)"
  by code_simp+

section \<open>The chunk manager\<close>

definition test_manager :: "('s, 'db, 'rd, 'tx) slatedb \<Rightarrow> 'db \<Rightarrow> u64 \<Rightarrow> 's chunk_manager" where
  "test_manager S db file_id = chunk_manager_new (slatedb_chunk_store S db) file_id SMALL_CHUNK 0"

definition faulty_manager :: "('s, 'db, 'rd, 'tx) slatedb \<Rightarrow> 'db \<Rightarrow> u64 \<Rightarrow> ('s \<times> bool) chunk_manager" where
  "faulty_manager S db file_id =
     chunk_manager_new (faulty_chunk_store (slatedb_chunk_store S db)) file_id SMALL_CHUNK 0"

definition flush ::
  "('s, 'db, 'rd, 'tx) slatedb \<Rightarrow> 'db \<Rightarrow> 's chunk_manager \<Rightarrow> ('s, 's chunk_manager) io" where
  "flush S db m =
     io_bind (expect ''write batch'' (slate (db_write S db (add_pending_to_batch m [])))) (\<lambda>_.
     io_return (mark_flushed m))"

definition read_to_vec :: "'s chunk_manager \<Rightarrow> usize \<Rightarrow> u64 \<Rightarrow> ('s, bytes) io" where
  "read_to_vec m len offset = (\<lambda>s. case expect ''read'' (cm_read m offset) (replicate len 0, s) of
     (r, (buf, s')) \<Rightarrow> (map_outcome (\<lambda>_. buf) r, s'))"

definition coalescing_groups_only_adjacent_chunk_indices :: bool where
  "coalescing_groups_only_adjacent_chunk_indices \<longleftrightarrow>
     coalesce_chunk_indices [] = [] \<and>
     coalesce_chunk_indices [7] = [(7, 7)] \<and>
     coalesce_chunk_indices [0, 1, 2] = [(0, 2)] \<and>
     coalesce_chunk_indices [0, 1, 3, 6, 7] = [(0, 1), (3, 3), (6, 7)] \<and>
     coalesce_chunk_indices [u64_size - 2, u64_size - 1] = [(u64_size - 2, u64_size - 1)]"

definition scan_read_ahead_tracks_span_and_caps_at_four_mib :: bool where
  "scan_read_ahead_tracks_span_and_caps_at_four_mib \<longleftrightarrow>
     scan_read_ahead_bytes 4 5 SMALL_CHUNK = 2 * SMALL_CHUNK \<and>
     scan_read_ahead_bytes 0 (u64_size - 1) (u64_size - 1) = MAX_SCAN_READ_AHEAD_BYTES"

lemma chunk_function_tests_pass:
  "coalescing_groups_only_adjacent_chunk_indices"
  "scan_read_ahead_tracks_span_and_caps_at_four_mib"
  by code_simp+

definition base_offset_starts_full_chunks_after_it ::
  "('s, 'db, 'rd) slate_builder \<Rightarrow> ('s, 'db, 'rd, 'tx) slatedb \<Rightarrow> ('s, unit) io" where
  "base_offset_starts_full_chunks_after_it B S =
     io_bind (new_db B ''chunk-manager-test'') (\<lambda>db.
     let m = chunk_manager_new (slatedb_chunk_store S db) 9 SMALL_CHUNK 3 in
     io_bind (io_lift (split_into_chunks m SMALL_CHUNK 11)) (\<lambda>block.
     io_bind (assert_that (length block = 1)) (\<lambda>_.
     io_bind (assert_that (chunk_idx (block ! 0) = 2 \<and> chunk_offset (block ! 0) = 0)) (\<lambda>_.
     io_bind (unwrap (on m (cm_write (bstr ''hdrABCDEFGHabcdefgh'') 0))) (\<lambda>(_, m).
     io_bind (flush S db m) (\<lambda>m.
     io_bind (read_to_vec m 4 9) (\<lambda>v.
     io_bind (assert_that (v = bstr ''GHab'')) (\<lambda>_.
     io_bind (unwrap (on m (cm_truncate 5))) (\<lambda>(_, m).
     io_bind (flush S db m) (\<lambda>m.
     io_bind (read_to_vec m 7 0) (\<lambda>v.
     io_bind (assert_that (v = bstr ''hdrAB'' @ [0, 0])) (\<lambda>_.
     shut_db B db))))))))))))"

definition writes_spanning_chunks_read_back_whole ::
  "('s, 'db, 'rd) slate_builder \<Rightarrow> ('s, 'db, 'rd, 'tx) slatedb \<Rightarrow> ('s, unit) io" where
  "writes_spanning_chunks_read_back_whole B S =
     io_bind (new_db B ''chunk-manager-test'') (\<lambda>db.
     let m = test_manager S db 1 in
     io_bind (assert_that (\<not> has_pending_changes m)) (\<lambda>_.
     io_bind (unwrap (on m (cm_write (bstr ''abcdefghij'') 0))) (\<lambda>(_, m).
     io_bind (assert_that (has_pending_changes m)) (\<lambda>_.
     io_bind (read_to_vec m 10 0) (\<lambda>v.
     io_bind (assert_that (v = bstr ''abcdefghij'')) (\<lambda>_.
     io_bind (flush S db m) (\<lambda>m.
     io_bind (assert_that (\<not> has_pending_changes m)) (\<lambda>_.
     io_bind (read_to_vec m 4 6) (\<lambda>v.
     io_bind (assert_that (v = bstr ''ghij'')) (\<lambda>_.
     io_bind (unwrap (on m (cm_write (bstr ''XY'') (SMALL_CHUNK - 1)))) (\<lambda>(_, m).
     io_bind (read_to_vec m 10 0) (\<lambda>v.
     io_bind (assert_that (v = bstr ''abcdefgXYj'')) (\<lambda>_.
     shut_db B db)))))))))))))"

definition reads_past_the_last_chunk_are_zero ::
  "('s, 'db, 'rd) slate_builder \<Rightarrow> ('s, 'db, 'rd, 'tx) slatedb \<Rightarrow> ('s, unit) io" where
  "reads_past_the_last_chunk_are_zero B S =
     io_bind (new_db B ''chunk-manager-test'') (\<lambda>db.
     let m = test_manager S db 2 in
     io_bind (unwrap (on m (cm_write (bstr ''abc'') 0))) (\<lambda>(_, m).
     io_bind (flush S db m) (\<lambda>m.
     io_bind (read_to_vec m 6 0) (\<lambda>v.
     io_bind (assert_that (v = bstr ''abc'' @ [0, 0, 0])) (\<lambda>_.
     io_bind (read_to_vec m 4 64) (\<lambda>v.
     io_bind (assert_that (v = [0, 0, 0, 0])) (\<lambda>_.
     shut_db B db)))))))"

definition reads_coalesced_chunks_skip_absent_keys ::
  "('s, 'db, 'rd) slate_builder \<Rightarrow> ('s, 'db, 'rd, 'tx) slatedb \<Rightarrow> ('s, unit) io" where
  "reads_coalesced_chunks_skip_absent_keys B S =
     io_bind (new_db B ''chunk-manager-test'') (\<lambda>db.
     let m = test_manager S db 7 in
     io_bind (unwrap (on m (cm_write (bstr ''aaaaaaaabbbbbbbb'') 0))) (\<lambda>(_, m).
     io_bind (unwrap (on m (cm_write (bstr ''dddddddd'') (3 * SMALL_CHUNK)))) (\<lambda>(_, m).
     io_bind (flush S db m) (\<lambda>m.
     let other = test_manager S db 8 in
     io_bind (unwrap (on other (cm_write (bstr ''xxxxxxxx'') 0))) (\<lambda>(_, other).
     io_bind (flush S db other) (\<lambda>other.
     io_bind (unwrap (read_chunks_from_store m [0, 1, 2, 3])) (\<lambda>found.
     io_bind (assert_that (map fst found = [0, 1, 3])) (\<lambda>_.
     io_bind (assert_that (map_of found 0 = Some (bstr ''aaaaaaaa''))) (\<lambda>_.
     io_bind (assert_that (map_of found 3 = Some (bstr ''dddddddd''))) (\<lambda>_.
     io_bind (unwrap (read_chunks_from_store m [3])) (\<lambda>found.
     io_bind (assert_that (map fst found = [3])) (\<lambda>_.
     io_bind (read_to_vec m (4 * SMALL_CHUNK) 0) (\<lambda>v.
     io_bind (assert_that (v = bstr ''aaaaaaaabbbbbbbb'' @ replicate 8 0 @ bstr ''dddddddd'')) (\<lambda>_.
     shut_db B db))))))))))))))"

definition truncate_shortens_the_last_chunk_and_deletes_the_rest ::
  "('s, 'db, 'rd) slate_builder \<Rightarrow> ('s, 'db, 'rd, 'tx) slatedb \<Rightarrow> ('s, unit) io" where
  "truncate_shortens_the_last_chunk_and_deletes_the_rest B S =
     io_bind (new_db B ''chunk-manager-test'') (\<lambda>db.
     let m = test_manager S db 3 in
     io_bind (unwrap (on m (cm_write (bstr ''aaaaaaaabbbbbbbbcccccccc'') 0))) (\<lambda>(_, m).
     io_bind (flush S db m) (\<lambda>m.
     io_bind (unwrap (on m (cm_truncate (SMALL_CHUNK + 3)))) (\<lambda>(_, m).
     io_bind (assert_that (has_pending_changes m)) (\<lambda>_.
     io_bind (read_to_vec m (3 * SMALL_CHUNK) 0) (\<lambda>v.
     io_bind (assert_that (v = bstr ''aaaaaaaabbb'' @ replicate 13 0)) (\<lambda>_.
     io_bind (flush S db m) (\<lambda>m.
     io_bind (unwrap (read_chunks_from_store m [0, 1, 2])) (\<lambda>found.
     io_bind (assert_that (length found = 2)) (\<lambda>_.
     io_bind (unwrap (on m (cm_truncate 0))) (\<lambda>(_, m).
     io_bind (flush S db m) (\<lambda>m.
     io_bind (unwrap (read_chunks_from_store m [0, 1, 2])) (\<lambda>found.
     io_bind (assert_that (found = [])) (\<lambda>_.
     shut_db B db))))))))))))))"

definition failed_truncate_keeps_staged_writes ::
  "('s, 'db, 'rd) slate_builder \<Rightarrow> ('s, 'db, 'rd, 'tx) slatedb \<Rightarrow> ('s, unit) io" where
  "failed_truncate_keeps_staged_writes B S =
     io_bind (new_db B ''chunk-manager-test'') (\<lambda>db.
     io_bind (with_faults (
       let m = faulty_manager S db 4 in
       io_bind (unwrap (on m (cm_write (bstr ''abcdefghij'') 0))) (\<lambda>(_, m).
       io_bind arm_fault (\<lambda>_.
       io_bind (attempt_on m (cm_truncate 5)) (\<lambda>(q, m).
       io_bind (assert_that (fails_with CodeSlateDb q)) (\<lambda>_.
       io_bind arm_fault (\<lambda>_.
       io_bind (attempt_on m (cm_truncate 0)) (\<lambda>(q, m).
       io_bind (assert_that (fails_with CodeSlateDb q)) (\<lambda>_.
       io_bind (read_to_vec m 10 0) (\<lambda>v.
       assert_that (v = bstr ''abcdefghij''))))))))))) (\<lambda>_.
     shut_db B db))"

lemma chunk_manager_tests_pass:
  "passes (base_offset_starts_full_chunks_after_it test_builder mem_slatedb)"
  "passes (writes_spanning_chunks_read_back_whole test_builder mem_slatedb)"
  "passes (reads_past_the_last_chunk_are_zero test_builder mem_slatedb)"
  "passes (reads_coalesced_chunks_skip_absent_keys test_builder mem_slatedb)"
  "passes (truncate_shortens_the_last_chunk_and_deletes_the_rest test_builder mem_slatedb)"
  "passes (failed_truncate_keeps_staged_writes test_builder mem_slatedb)"
  by code_simp+

end
