(* ===== verification/Base_Tests.thy ===== *)
theory Base_Tests
  imports Test_Kit Object_Store Io_Metrics
begin

text \<open>
  The tests of \<open>rust/src/keys.rs\<close>, \<open>error.rs\<close>, \<open>error_struct.rs\<close>, \<open>file_metadata.rs\<close>,
  \<open>database_metadata.rs\<close>, \<open>slatedb_object_store.rs\<close> and \<open>io_metrics.rs\<close>: predicates, because the functions
  they call have no state. The location a rendering shows is that of the test itself, an argument here.
\<close>

section \<open>Keys\<close>

definition chunk_key_is_zero_padded_hex :: bool where
  "chunk_key_is_zero_padded_hex \<longleftrightarrow> chunk_key 1 0 = ''c/0000000000000001/0000000000000000''"

definition chunk_keys_sort_by_file_then_index :: bool where
  "chunk_keys_sort_by_file_then_index \<longleftrightarrow> chunk_key 5 0 < chunk_key 5 1 \<and> chunk_key 1 100 < chunk_key 2 0"

definition chunk_prefix_matches_only_its_own_file :: bool where
  "chunk_prefix_matches_only_its_own_file \<longleftrightarrow>
     (let p = chunk_prefix 42 in prefix p (chunk_key 42 7) \<and> \<not> prefix p (chunk_key 43 0))"

definition metadata_key_is_zero_padded_hex :: bool where
  "metadata_key_is_zero_padded_hex \<longleftrightarrow> metadata_key 1 = ''m/0000000000000001''"

definition key_families_are_disjoint :: bool where
  "key_families_are_disjoint \<longleftrightarrow>
     (let ks = [chunk_key 0 0, metadata_key 0] in length (remdups (map hd ks)) = length ks)"

lemma key_tests_pass:
  "chunk_key_is_zero_padded_hex" "chunk_keys_sort_by_file_then_index" "chunk_prefix_matches_only_its_own_file"
  "metadata_key_is_zero_padded_hex" "key_families_are_disjoint"
  by code_simp+

section \<open>Errors\<close>

definition decode_errors_are_permanent :: "string \<Rightarrow> string option \<Rightarrow> bool" where
  "decode_errors_are_permanent src location \<longleftrightarrow>
     (let e = from_decode_error src in
      code e = CodeMetadataDecode \<and> error_status_of e = Permanent \<and>
      contains ''metadata decode error'' (display_error_struct location (error_inner e)))"

definition unavailable_slatedb_errors_are_temporary :: bool where
  "unavailable_slatedb_errors_are_temporary \<longleftrightarrow>
     (let e = from_slatedb_error \<lparr>kind = Unavailable, text_of = ''object store down''\<rparr> in
      code e = CodeSlateDb \<and> error_status_of e = Temporary)"

definition invalid_slatedb_errors_are_permanent :: bool where
  "invalid_slatedb_errors_are_permanent \<longleftrightarrow>
     error_status_of (from_slatedb_error \<lparr>kind = OtherKind ''Invalid'', text_of = ''bad argument''\<rparr>) = Permanent"

definition interrupted_io_errors_are_temporary :: "string option \<Rightarrow> bool" where
  "interrupted_io_errors_are_temporary location \<longleftrightarrow>
     (let e = from_io_error Interrupted ''try again'' in
      code e = CodeIo \<and> error_status_of e = Temporary \<and>
      contains ''io error'' (display_error_struct location (error_inner e)))"

definition not_found_io_errors_are_permanent :: bool where
  "not_found_io_errors_are_permanent \<longleftrightarrow>
     (let e = from_io_error (OtherIoKind ''NotFound'') ''missing'' in
      code e = CodeIo \<and> error_status_of e = Permanent)"

definition display_includes_status_and_location :: "string \<Rightarrow> bool" where
  "display_includes_status_and_location location \<longleftrightarrow>
     (let rendered = display_error_struct (Some location) (error_struct_new ''boom'' Permanent) in
      prefix ''boom (permanent) at '' rendered \<and> contains ''error_struct.rs'' rendered)"

definition display_includes_source :: "string option \<Rightarrow> bool" where
  "display_includes_source location \<longleftrightarrow>
     (case with_source (error_struct_new ''boom'' Temporary) ''disk on fire'' of
        Ok e \<Rightarrow> contains ''caused by: disk on fire'' (display_error_struct location e) | _ \<Rightarrow> False)"

definition setting_the_source_twice_panics :: bool where
  "setting_the_source_twice_panics \<longleftrightarrow>
     o_bind (with_source (error_struct_new ''boom'' Permanent) ''first'') (\<lambda>e. with_source e ''second'')
       = Panic ''the source error has been set''"

lemma error_tests_pass:
  "decode_errors_are_permanent ''invalid varint'' (Some ''src/error.rs:171:21'')"
  "unavailable_slatedb_errors_are_temporary" "invalid_slatedb_errors_are_permanent"
  "interrupted_io_errors_are_temporary (Some ''src/error.rs:195:21'')" "not_found_io_errors_are_permanent"
  "display_includes_status_and_location ''src/error_struct.rs:90:21''"
  "display_includes_source (Some ''src/error_struct.rs:99:21'')" "setting_the_source_twice_panics"
  by code_simp+

section \<open>Metadata records and file ids\<close>

definition protobuf_roundtrip_preserves_metadata :: "codec \<Rightarrow> bool" where
  "protobuf_roundtrip_preserves_metadata P \<longleftrightarrow>
     (let md = \<lparr>md_size = 8192, md_modified_at_ms = 1234567890, md_chunk_size = DEFAULT_CHUNK_SIZE,
                md_chunk_base_offset = DEFAULT_CHUNK_BASE_OFFSET\<rparr>
      in decode_from_bytes P (encode_to_bytes P md) = Ok md)"

definition malformed_metadata_is_rejected :: "codec \<Rightarrow> bool" where
  "malformed_metadata_is_rejected P \<longleftrightarrow>
     (case decode_from_bytes P [0x08, 0x80] of
        Err e \<Rightarrow> code e = CodeMetadataDecode \<and> error_status_of e = Permanent | _ \<Rightarrow> False)"

definition new_metadata_starts_empty_at_the_default_chunk_size :: "int \<Rightarrow> bool" where
  "new_metadata_starts_empty_at_the_default_chunk_size now \<longleftrightarrow>
     (let md = file_metadata_new now in
      md_size md = 0 \<and> md_chunk_size md = DEFAULT_CHUNK_SIZE \<and>
      md_chunk_base_offset md = DEFAULT_CHUNK_BASE_OFFSET \<and> md_modified_at_ms md > 0 \<and>
      validated_chunk_size md 7 = Ok DEFAULT_CHUNK_SIZE)"

definition zero_chunk_size_is_rejected :: "string option \<Rightarrow> bool" where
  "zero_chunk_size_is_rejected location \<longleftrightarrow>
     (case validated_chunk_size
          \<lparr>md_size = 0, md_modified_at_ms = 0, md_chunk_size = 0, md_chunk_base_offset = 0\<rparr> 7 of
        Err e \<Rightarrow> code e = CodeInvalidArgument \<and>
          contains ''file_id 7: must be non-zero'' (display_error_struct location (error_inner e))
      | _ \<Rightarrow> False)"

definition oversized_chunk_base_offset_is_rejected :: "int \<Rightarrow> bool" where
  "oversized_chunk_base_offset_is_rejected now \<longleftrightarrow>
     (let md = file_metadata_new now;
          md = md\<lparr>md_chunk_base_offset := md_chunk_size md\<rparr>
      in case validated_chunk_size md 7 of Err _ \<Rightarrow> True | _ \<Rightarrow> False)"

lemma file_metadata_tests_pass:
  "protobuf_roundtrip_preserves_metadata proto_codec" "malformed_metadata_is_rejected proto_codec"
  "new_metadata_starts_empty_at_the_default_chunk_size 5"
  "zero_chunk_size_is_rejected (Some ''src/file_metadata.rs:50:9'')"
  "oversized_chunk_base_offset_is_rejected 5"
  by code_simp+

definition path_key_uses_database_metadata_prefix :: bool where
  "path_key_uses_database_metadata_prefix \<longleftrightarrow> path_key ''some/file.db'' = ''p/some/file.db''"

definition file_id_round_trips :: bool where
  "file_id_round_trips \<longleftrightarrow> decode_file_id (to_be_bytes 42) ''file ID'' = Ok 42"

definition malformed_file_id_is_rejected :: bool where
  "malformed_file_id_is_rejected \<longleftrightarrow> fails_with CodeMetadataDecode (decode_file_id [1, 2, 3] ''file ID'')"

definition reserved_file_id_is_rejected :: bool where
  "reserved_file_id_is_rejected \<longleftrightarrow> fails_with CodeMetadataDecode (decode_file_id (to_be_bytes 0) ''file ID'')"

lemma file_id_tests_pass:
  "path_key_uses_database_metadata_prefix" "file_id_round_trips" "malformed_file_id_is_rejected"
  "reserved_file_id_is_rejected"
  by code_simp+

section \<open>Conditional requests and statistics\<close>

definition conditional_get_errors_follow_object_store_semantics :: bool where
  "conditional_get_errors_follow_object_store_semantics \<longleftrightarrow>
     (let precondition_error = Inl (Precondition ''conditional-get'' ''condition failed'') :: unit object_store_error + unit
      in (case map_conditional_get_result precondition_error True of Inl (NotModified _ _) \<Rightarrow> True | _ \<Rightarrow> False) \<and>
         (case map_conditional_get_result precondition_error False of Inl (Precondition _ _) \<Rightarrow> True | _ \<Rightarrow> False))"

lemma conditional_get_test_passes: "conditional_get_errors_follow_object_store_semantics"
  by code_simp

definition calculates_population_average_and_standard_deviation :: "'f f64_ops \<Rightarrow> bool" where
  "calculates_population_average_and_standard_deviation F \<longleftrightarrow>
     (let stats = running_stats_default F;
          stats = running_record F (1000000000) 5 stats;
          stats = running_record F (3 * 1000000000) 7 stats
      in case running_snapshot F stats of
           Ok snapshot \<Rightarrow> request_count snapshot = 2 \<and> stat_bytes snapshot = 12 \<and>
             average_latency snapshot = 2 * 1000000000 \<and> stddev_latency snapshot = 1000000000
         | _ \<Rightarrow> False)"

lemma statistics_test_passes: "calculates_population_average_and_standard_deviation exact_ops"
proof -
  let ?a = "\<lparr>rs_count = 1, rs_bytes = 5, rs_mean = 1, rs_squared_deviation_sum = 0\<rparr> :: real running_stats"
  let ?b = "\<lparr>rs_count = 2, rs_bytes = 12, rs_mean = 2, rs_squared_deviation_sum = 2\<rparr> :: real running_stats"
  have add: "u64_add 0 (Suc 0) = 1" "u64_add 0 5 = 5" "u64_add (Suc 0) (Suc 0) = 2" "u64_add 5 7 = 12"
    by (simp_all add: u64_add_def u64_size_def)
  have "running_record exact_ops 1000000000 5 (running_stats_default exact_ops) = ?a"
    by (simp add: running_record_def running_stats_default_def Let_def add)
  moreover have "running_record exact_ops (3 * 1000000000) 7 ?a = ?b"
    by (simp add: running_record_def Let_def add)
  moreover have "running_snapshot exact_ops ?b =
      Ok \<lparr>request_count = 2, stat_bytes = 12, average_latency = 2000000000, stddev_latency = 1000000000\<rparr>"
    by (simp add: running_snapshot_def from_secs_exact)
  ultimately show ?thesis
    by (simp add: calculates_population_average_and_standard_deviation_def)
qed

end
