(* ===== verification/Fs_Tests.thy ===== *)
theory Fs_Tests
  imports Test_Kit
begin

text \<open>
  The tests of \<open>rust/src/fs.rs\<close>. The server that answers as S3 is outside the model: the test that uses it
  takes its endpoint as an argument, and the operator of S3 storage comes from the environment. A temporary
  directory is an argument too. The panic of a failed \<open>expect\<close> carries one text per helper below, where the
  tests word it for each call.
\<close>

section \<open>The setting of a test\<close>

record ('s, 'db, 'rd, 'tx) setting =
  environ :: "'s environment"
  builder :: "('s, 'db, 'rd) slate_builder"
  engine :: "('s, 'db, 'rd, 'tx) slatedb"
  codec_of :: codec
  clock :: int
  cache_defaults :: CacheConfig

text \<open>The calls of a test, on filesystems and handles that are its local variables.\<close>

definition in_memory :: "('s, 'db, 'rd, 'tx) setting \<Rightarrow> string \<Rightarrow> ('s, ('db, 'rd) file_system) io" where
  "in_memory K dbpath = expect ''filesystem'' (open_in_memory (environ K) (builder K) (cache_defaults K) dbpath)"

definition local_fs :: "('s, 'db, 'rd, 'tx) setting \<Rightarrow> string \<Rightarrow> string \<Rightarrow> ('s, ('db, 'rd) file_system) io" where
  "local_fs K dbpath dir = open_local_fs (environ K) (builder K) (cache_defaults K) dbpath dir"

definition open_path ::
  "('s, 'db, 'rd, 'tx) setting \<Rightarrow> ('db, 'rd) file_system \<Rightarrow> path \<Rightarrow> FileOpenFlags
     \<Rightarrow> ('s, ('s, 'db, 'rd) file_handle \<times> ('db, 'rd) file_system) io" where
  "open_path K fs p fl =
     expect ''open file'' (on fs (fs_open_file (builder K) (engine K) (codec_of K) (clock K) p fl))"

definition exists_path ::
  "('s, 'db, 'rd, 'tx) setting \<Rightarrow> ('db, 'rd) file_system \<Rightarrow> path \<Rightarrow> ('s, bool \<times> ('db, 'rd) file_system) io" where
  "exists_path K fs p = expect ''lookup'' (on fs (fs_file_exists (builder K) (engine K) p))"

definition writer_for ::
  "('s, 'db, 'rd, 'tx) setting \<Rightarrow> ('db, 'rd) file_system \<Rightarrow> path \<Rightarrow> ('s, 'db \<times> ('db, 'rd) file_system) io" where
  "writer_for K fs p = expect ''read-write database'' (on fs (write_db (builder K) p False))"

definition close_fs ::
  "('s, 'db, 'rd, 'tx) setting \<Rightarrow> ('db, 'rd) file_system \<Rightarrow> ('s, unit \<times> ('db, 'rd) file_system) io" where
  "close_fs K fs = expect ''close'' (on fs (fs_close (builder K)))"

definition append_bytes ::
  "('s, 'db, 'rd, 'tx) setting \<Rightarrow> ('s, 'db, 'rd) file_handle \<Rightarrow> string \<Rightarrow> ('s, usize \<times> ('s, 'db, 'rd) file_handle) io" where
  "append_bytes K h bs = expect ''write file'' (on h (fh_write (clock K) (bstr bs)))"

definition close_file ::
  "('s, 'db, 'rd, 'tx) setting \<Rightarrow> ('s, 'db, 'rd) file_handle \<Rightarrow> ('s, unit \<times> ('s, 'db, 'rd) file_handle) io" where
  "close_file K h = expect ''close file'' (on h (fh_close (engine K) (codec_of K)))"

text \<open>Reading a text from the position of a handle, with the two assertions that follow each such read.\<close>

definition expect_text ::
  "('s, 'db, 'rd) file_handle \<Rightarrow> string \<Rightarrow> ('s, ('s, 'db, 'rd) file_handle) io" where
  "expect_text h bs =
     io_bind (expect ''read file'' (read_into h (replicate (length bs) 0))) (\<lambda>((n, buf), h).
     io_bind (assert_that (n = length bs)) (\<lambda>_.
     io_bind (assert_that (buf = bstr bs)) (\<lambda>_.
     io_return h)))"

definition put_file ::
  "('s, 'db, 'rd, 'tx) setting \<Rightarrow> ('db, 'rd) file_system \<Rightarrow> path \<Rightarrow> string \<Rightarrow> ('s, unit \<times> ('db, 'rd) file_system) io" where
  "put_file K fs p bs = on fs (write_file (builder K) (engine K) (codec_of K) (clock K) (clock K) p (bstr bs))"

definition file_text ::
  "('s, 'db, 'rd, 'tx) setting \<Rightarrow> ('db, 'rd) file_system \<Rightarrow> path \<Rightarrow> usize \<Rightarrow> ('s, bytes \<times> ('db, 'rd) file_system) io" where
  "file_text K fs p len = on fs (read_file (builder K) (engine K) (codec_of K) (clock K) p len)"

text \<open>The first item of a scan, \<open>iterator.next()\<close>.\<close>

definition first_item :: "scan_iter \<Rightarrow> (key \<times> bytes) option outcome" where
  "first_item it = (case it of [] \<Rightarrow> Ok None | x # _ \<Rightarrow> o_bind (from_slate x) (\<lambda>kv. Ok (Some kv)))"

definition no_chunks :: "('s, 'db, 'rd, 'tx) setting \<Rightarrow> 'db \<Rightarrow> u64 \<Rightarrow> ('s, unit) io" where
  "no_chunks K db file_id =
     io_bind (expect ''scan chunks'' (slate (db_scan_prefix (engine K) db (chunk_prefix file_id)))) (\<lambda>it.
     io_bind (expect ''read chunk'' (io_lift (first_item it))) (\<lambda>item.
     assert_that (item = None)))"

lemmas stateful_setting_code [code] =
  fun_cong [OF in_memory_def] fun_cong [OF local_fs_def] fun_cong [OF open_path_def] fun_cong [OF exists_path_def]
  fun_cong [OF writer_for_def] fun_cong [OF close_fs_def] fun_cong [OF append_bytes_def] fun_cong [OF close_file_def]
  fun_cong [OF expect_text_def] fun_cong [OF put_file_def] fun_cong [OF file_text_def] fun_cong [OF no_chunks_def]

section \<open>Opening, closing and persistence\<close>

definition creates_and_reopens_file_by_path :: "('s, 'db, 'rd, 'tx) setting \<Rightarrow> ('s, unit) io" where
  "creates_and_reopens_file_by_path K =
     io_bind (in_memory K ''test-db'') (\<lambda>fs.
     io_bind (open_path K fs ''database.db'' flags_open_or_create) (\<lambda>(created, fs).
     io_bind (assert_that (fh_file_id created = 1)) (\<lambda>_.
     io_bind (append_bytes K created ''database contents'') (\<lambda>(_, created).
     io_bind (close_file K created) (\<lambda>_.
     io_bind (open_path K fs ''other.db'' flags_open_or_create) (\<lambda>(other, fs).
     io_bind (assert_that (fh_file_id other = 1)) (\<lambda>_.
     io_bind (close_file K other) (\<lambda>_.
     io_bind (open_path K fs ''database.db'' flags_read_only) (\<lambda>(reopened, fs).
     io_bind (assert_that (fh_file_id reopened = 1)) (\<lambda>_.
     io_bind (expect_text reopened ''database contents'') (\<lambda>reopened.
     io_bind (close_file K reopened) (\<lambda>_.
     io_bind (close_fs K fs) (\<lambda>_.
     io_return ())))))))))))))"

definition close_is_idempotent :: "('s, 'db, 'rd, 'tx) setting \<Rightarrow> ('s, unit) io" where
  "close_is_idempotent K =
     io_bind (in_memory K ''test-db'') (\<lambda>fs.
     io_bind (put_file K fs ''database.db'' ''contents'') (\<lambda>(_, fs).
     io_bind (close_fs K fs) (\<lambda>(_, fs).
     io_bind (close_fs K fs) (\<lambda>_.
     io_return ()))))"

definition reader_remains_usable_after_opening_writer :: "('s, 'db, 'rd, 'tx) setting \<Rightarrow> string \<Rightarrow> ('s, unit) io" where
  "reader_remains_usable_after_opening_writer K dir =
     io_bind (local_fs K ''test-db'' dir) (\<lambda>seed.
     io_bind (put_file K seed ''database.db'' ''contents'') (\<lambda>(_, seed).
     io_bind (close_fs K seed) (\<lambda>_.
     io_bind (local_fs K ''test-db'' dir) (\<lambda>fs.
     io_bind (open_path K fs ''database.db'' flags_read_only) (\<lambda>(rd, fs).
     io_bind (open_path K fs ''database.db'' flags_read_write) (\<lambda>(wr, fs).
     io_bind (expect ''read'' (pread_into rd (replicate 8 0) 0)) (\<lambda>(n, contents).
     io_bind (assert_that (n = 8)) (\<lambda>_.
     io_bind (assert_that (contents = bstr ''contents'')) (\<lambda>_.
     io_bind (close_fs K fs) (\<lambda>_.
     io_return ()))))))))))"

definition local_database_persists_across_reopen :: "('s, 'db, 'rd, 'tx) setting \<Rightarrow> string \<Rightarrow> ('s, unit) io" where
  "local_database_persists_across_reopen K dir =
     io_bind (local_fs K ''persistent-db'' dir) (\<lambda>fs1.
     io_bind (open_path K fs1 ''database.db'' flags_open_or_create) (\<lambda>(created, fs1).
     io_bind (append_bytes K created ''persisted'') (\<lambda>(_, created).
     io_bind (close_file K created) (\<lambda>_.
     io_bind (close_fs K fs1) (\<lambda>_.
     io_bind (local_fs K ''persistent-db'' dir) (\<lambda>fs2.
     io_bind (open_path K fs2 ''database.db'' flags_read_only) (\<lambda>(reopened, fs2).
     io_bind (expect_text reopened ''persisted'') (\<lambda>reopened.
     io_bind (close_file K reopened) (\<lambda>_.
     io_bind (close_fs K fs2) (\<lambda>_.
     io_return ()))))))))))"

definition fake_s3_config :: "string \<Rightarrow> S3StorageConfig" where
  "fake_s3_config endpoint =
     \<lparr>s3_bucket = ''test-bucket'', s3_root = Some ''slatedb-test'', s3_endpoint = Some endpoint,
      s3_region = Some ''us-east-1'', s3_key_id = Some ''test-access-key'', s3_secret = Some ''test-secret-key'',
      s3_session_token = None, s3_use_ssl = False, s3_virtual_host_style = False\<rparr>"

definition check_s3_database_persists_across_reopen :: "('s, 'db, 'rd, 'tx) setting \<Rightarrow> string \<Rightarrow> ('s, unit) io" where
  "check_s3_database_persists_across_reopen K endpoint =
     io_bind (unwrap (open_s3 (environ K) (builder K) (cache_defaults K) ''s3-persistent-db'' (fake_s3_config endpoint))) (\<lambda>fs1.
     io_bind (open_path K fs1 ''database.db'' flags_open_or_create) (\<lambda>(created, fs1).
     io_bind (append_bytes K created ''persisted through S3'') (\<lambda>(_, created).
     io_bind (close_file K created) (\<lambda>_.
     io_bind (close_fs K fs1) (\<lambda>_.
     io_bind (unwrap (open_s3 (environ K) (builder K) (cache_defaults K) ''s3-persistent-db'' (fake_s3_config endpoint))) (\<lambda>fs2.
     io_bind (exists_path K fs2 ''database.db'') (\<lambda>(found, fs2).
     io_bind (assert_that found) (\<lambda>_.
     io_bind (open_path K fs2 ''database.db'' flags_read_only) (\<lambda>(reopened, fs2).
     io_bind (expect_text reopened ''persisted through S3'') (\<lambda>reopened.
     io_bind (close_file K reopened) (\<lambda>_.
     io_bind (open_path K fs2 ''database.db.wal.checkpoint'' flags_open_or_create) (\<lambda>(checkpoint_wal, fs2).
     io_bind (close_file K checkpoint_wal) (\<lambda>_.
     io_bind (unwrap (on fs2 (fs_move_file (builder K) (engine K) ''database.db.wal.checkpoint'' ''database.db.wal''))) (\<lambda>(_, fs2).
     io_bind (exists_path K fs2 ''database.db.wal.checkpoint'') (\<lambda>(found, fs2).
     io_bind (assert_that (\<not> found)) (\<lambda>_.
     io_bind (exists_path K fs2 ''database.db.wal'') (\<lambda>(found, fs2).
     io_bind (assert_that found) (\<lambda>_.
     io_bind (unwrap (on fs2 (fs_remove_file (builder K) (engine K) ''database.db.wal''))) (\<lambda>(_, fs2).
     io_bind (exists_path K fs2 ''database.db.wal'') (\<lambda>(found, fs2).
     io_bind (assert_that (\<not> found)) (\<lambda>_.
     io_bind (close_fs K fs2) (\<lambda>_.
     io_return ()))))))))))))))))))))))"

definition reads_do_not_fence_active_writer :: "('s, 'db, 'rd, 'tx) setting \<Rightarrow> string \<Rightarrow> ('s, unit) io" where
  "reads_do_not_fence_active_writer K dir =
     io_bind (local_fs K ''shared-db'' dir) (\<lambda>wr.
     io_bind (open_path K wr ''database.db'' flags_open_or_create) (\<lambda>(created, wr).
     io_bind (append_bytes K created ''before'') (\<lambda>(_, created).
     io_bind (close_file K created) (\<lambda>_.
     io_bind (local_fs K ''shared-db'' dir) (\<lambda>rd.
     io_bind (exists_path K rd ''database.db'') (\<lambda>(found, rd).
     io_bind (assert_that found) (\<lambda>_.
     io_bind (open_path K rd ''database.db'' flags_read_only) (\<lambda>(read_handle, rd).
     io_bind (expect_text read_handle ''before'') (\<lambda>read_handle.
     io_bind (close_file K read_handle) (\<lambda>_.
     io_bind (open_path K wr ''database.db'' flags_read_write) (\<lambda>(writable, wr).
     io_bind (expect ''write after reader opens'' (on writable (pwrite (clock K) (bstr ''after'') 0))) (\<lambda>(_, writable).
     io_bind (close_file K writable) (\<lambda>_.
     io_bind (close_fs K rd) (\<lambda>_.
     io_bind (close_fs K wr) (\<lambda>_.
     io_return ())))))))))))))))"

definition opening_missing_file_without_create_fails :: "('s, 'db, 'rd, 'tx) setting \<Rightarrow> ('s, unit) io" where
  "opening_missing_file_without_create_fails K =
     io_bind (in_memory K ''test-db'') (\<lambda>fs.
     io_bind (attempt_on fs (fs_open_file (builder K) (engine K) (codec_of K) (clock K) ''missing.db'' flags_read_only)) (\<lambda>(q, fs).
     io_bind (assert_that (fails_with CodeFileNotFound q)) (\<lambda>_.
     io_bind (close_fs K fs) (\<lambda>_.
     io_return ()))))"

section \<open>The catalog of paths\<close>

definition create_or_truncate_clears_an_existing_file :: "('s, 'db, 'rd, 'tx) setting \<Rightarrow> ('s, unit) io" where
  "create_or_truncate_clears_an_existing_file K =
     io_bind (in_memory K ''test-db'') (\<lambda>fs.
     io_bind (open_path K fs ''recovery.wal'' flags_open_or_create) (\<lambda>(original, fs).
     let file_id = fh_file_id original in
     io_bind (append_bytes K original ''stale wal contents'') (\<lambda>(_, original).
     io_bind (close_file K original) (\<lambda>_.
     io_bind (open_path K fs ''recovery.wal'' flags_create_or_truncate) (\<lambda>(replaced, fs).
     io_bind (assert_that (fh_file_id replaced = file_id)) (\<lambda>_.
     io_bind (assert_that (file_size replaced = 0)) (\<lambda>_.
     io_bind (writer_for K fs ''recovery.wal'') (\<lambda>(db, fs).
     io_bind (no_chunks K db file_id) (\<lambda>_.
     io_bind (append_bytes K replaced ''new wal'') (\<lambda>(_, replaced).
     io_bind (close_file K replaced) (\<lambda>_.
     io_bind (open_path K fs ''recovery.wal'' flags_read_only) (\<lambda>(reopened, fs).
     io_bind (expect_text reopened ''new wal'') (\<lambda>reopened.
     io_bind (close_file K reopened) (\<lambda>_.
     io_bind (close_fs K fs) (\<lambda>_.
     io_return ())))))))))))))))"

definition file_exists_uses_path_mapping_only :: "('s, 'db, 'rd, 'tx) setting \<Rightarrow> ('s, unit) io" where
  "file_exists_uses_path_mapping_only K =
     io_bind (in_memory K ''test-db'') (\<lambda>fs.
     io_bind (exists_path K fs ''database.db'') (\<lambda>(found, fs).
     io_bind (assert_that (\<not> found)) (\<lambda>_.
     io_bind (open_path K fs ''database.db'' flags_open_or_create) (\<lambda>(h, fs).
     let file_id = fh_file_id h in
     io_bind (close_file K h) (\<lambda>_.
     io_bind (exists_path K fs ''database.db'') (\<lambda>(found, fs).
     io_bind (assert_that found) (\<lambda>_.
     io_bind (writer_for K fs ''database.db'') (\<lambda>(db, fs).
     io_bind (expect ''delete metadata'' (slate (db_write (engine K) db [BatchDelete (metadata_key file_id)]))) (\<lambda>_.
     io_bind (exists_path K fs ''database.db'') (\<lambda>(found, fs).
     io_bind (assert_that found) (\<lambda>_.
     io_bind (close_fs K fs) (\<lambda>_.
     io_return ()))))))))))))"

definition remove_file_deletes_catalog_metadata_and_chunks :: "('s, 'db, 'rd, 'tx) setting \<Rightarrow> ('s, unit) io" where
  "remove_file_deletes_catalog_metadata_and_chunks K =
     io_bind (in_memory K ''test-db'') (\<lambda>fs.
     io_bind (open_path K fs ''database.db'' flags_open_or_create) (\<lambda>(h, fs).
     let file_id = fh_file_id h in
     io_bind (append_bytes K h ''contents'') (\<lambda>(_, h).
     io_bind (close_file K h) (\<lambda>_.
     io_bind (expect ''remove file'' (on fs (fs_remove_file (builder K) (engine K) ''database.db''))) (\<lambda>(_, fs).
     io_bind (exists_path K fs ''database.db'') (\<lambda>(found, fs).
     io_bind (assert_that (\<not> found)) (\<lambda>_.
     io_bind (writer_for K fs ''database.db'') (\<lambda>(db, fs).
     io_bind (expect ''read metadata'' (slate (db_get (engine K) db (metadata_key file_id)))) (\<lambda>md.
     io_bind (assert_that (md = None)) (\<lambda>_.
     io_bind (no_chunks K db file_id) (\<lambda>_.
     io_bind (attempt_on fs (fs_remove_file (builder K) (engine K) ''database.db'')) (\<lambda>(q, fs).
     io_bind (assert_that (fails_with CodeFileNotFound q)) (\<lambda>_.
     io_bind (close_fs K fs) (\<lambda>_.
     io_return ()))))))))))))))"

definition move_file_preserves_source_and_replaces_destination :: "('s, 'db, 'rd, 'tx) setting \<Rightarrow> ('s, unit) io" where
  "move_file_preserves_source_and_replaces_destination K =
     io_bind (in_memory K ''test-db'') (\<lambda>fs.
     io_bind (open_path K fs ''database.db.wal.checkpoint'' flags_open_or_create) (\<lambda>(src, fs).
     let source_file_id = fh_file_id src in
     io_bind (append_bytes K src ''source'') (\<lambda>(_, src).
     io_bind (close_file K src) (\<lambda>_.
     io_bind (open_path K fs ''database.db.wal'' flags_open_or_create) (\<lambda>(target, fs).
     let replaced_file_id = fh_file_id target in
     io_bind (append_bytes K target ''target'') (\<lambda>(_, target).
     io_bind (close_file K target) (\<lambda>_.
     io_bind (expect ''move file'' (on fs
       (fs_move_file (builder K) (engine K) ''database.db.wal.checkpoint'' ''database.db.wal''))) (\<lambda>(_, fs).
     io_bind (exists_path K fs ''database.db.wal.checkpoint'') (\<lambda>(found, fs).
     io_bind (assert_that (\<not> found)) (\<lambda>_.
     io_bind (open_path K fs ''database.db.wal'' flags_read_only) (\<lambda>(moved_handle, fs).
     io_bind (assert_that (fh_file_id moved_handle = source_file_id)) (\<lambda>_.
     io_bind (expect_text moved_handle ''source'') (\<lambda>moved_handle.
     io_bind (close_file K moved_handle) (\<lambda>_.
     io_bind (writer_for K fs ''database.db'') (\<lambda>(db, fs).
     io_bind (expect ''read replaced metadata'' (slate (db_get (engine K) db (metadata_key replaced_file_id)))) (\<lambda>md.
     io_bind (assert_that (md = None)) (\<lambda>_.
     io_bind (no_chunks K db replaced_file_id) (\<lambda>_.
     io_bind (close_fs K fs) (\<lambda>_.
     io_return ())))))))))))))))))))"

definition move_file_rejects_moves_between_databases :: "('s, 'db, 'rd, 'tx) setting \<Rightarrow> ('s, unit) io" where
  "move_file_rejects_moves_between_databases K =
     io_bind (in_memory K ''test-db'') (\<lambda>fs.
     io_bind (open_path K fs ''source.db'' flags_open_or_create) (\<lambda>(src, fs).
     io_bind (close_file K src) (\<lambda>_.
     io_bind (attempt_on fs (fs_move_file (builder K) (engine K) ''source.db'' ''target.db'')) (\<lambda>(q, fs).
     io_bind (assert_that (fails_with CodeInvalidArgument q)) (\<lambda>_.
     io_bind (exists_path K fs ''source.db'') (\<lambda>(found, fs).
     io_bind (assert_that found) (\<lambda>_.
     io_bind (close_fs K fs) (\<lambda>_.
     io_return ()))))))))"

section \<open>Groups and shared roots\<close>

definition database_group_keeps_companion_files_with_their_database :: bool where
  "database_group_keeps_companion_files_with_their_database \<longleftrightarrow>
     list_all (\<lambda>(p, g). database_group p = g)
       [(''database.db'', ''database.db''),
        (''database.db.wal'', ''database.db''),
        (''database.db.wal.checkpoint'', ''database.db''),
        (''database.db.wal.recovery'', ''database.db''),
        (''dir/database.db.wal'', ''dir/database.db''),
        (''database'', ''database''),
        (''database.wal'', ''database''),
        (''data.csv.wal'', ''data.csv''),
        (''tmp_data.csv'', ''tmp_data.csv''),
        (''dir/tmp_data.csv'', ''dir/tmp_data.csv''),
        (''.wal'', ''.wal''),
        (''dir/.wal'', ''dir/.wal''),
        (''tmp_'', ''tmp_''),
        (''dir/tmp_'', ''dir/tmp_'')]"

definition db_cache_ids_are_stable_and_scoped_per_database ::
  "('s, 'db, 'rd, 'tx) setting \<Rightarrow> string \<Rightarrow> string \<Rightarrow> ('s, unit) io" where
  "db_cache_ids_are_stable_and_scoped_per_database K dir other_dir =
     io_bind (assert_that (stable_hash [] = 0xcbf29ce484222325)) (\<lambda>_.
     io_bind (assert_that (stable_hash ''a'' = 0xaf63dc4c8601ec8c)) (\<lambda>_.
     io_bind (local_fs K ''cache-id'' dir) (\<lambda>fs1.
     io_bind (local_fs K ''cache-id'' dir) (\<lambda>fs2.
     io_bind (local_fs K ''cache-id'' other_dir) (\<lambda>elsewhere.
     io_bind (assert_that (db_cache_id fs1 ''a.db'' = db_cache_id fs2 ''a.db'')) (\<lambda>_.
     io_bind (assert_that (db_cache_id fs1 ''a.db'' \<noteq> db_cache_id fs1 ''b.db'')) (\<lambda>_.
     io_bind (assert_that (db_cache_id fs1 ''a.db'' \<noteq> db_cache_id elsewhere ''a.db'')) (\<lambda>_.
     io_bind (close_fs K fs1) (\<lambda>_.
     io_bind (close_fs K fs2) (\<lambda>_.
     io_bind (close_fs K elsewhere) (\<lambda>_.
     io_return ())))))))))))"

definition writers_of_different_databases_share_a_root :: "('s, 'db, 'rd, 'tx) setting \<Rightarrow> string \<Rightarrow> ('s, unit) io" where
  "writers_of_different_databases_share_a_root K dir =
     io_bind (local_fs K ''shared-root'' dir) (\<lambda>fs1.
     io_bind (local_fs K ''shared-root'' dir) (\<lambda>fs2.
     io_bind (put_file K fs1 ''a.db'' ''a1'') (\<lambda>(_, fs1).
     io_bind (put_file K fs2 ''b.db'' ''b1'') (\<lambda>(_, fs2).
     io_bind (put_file K fs1 ''a.db'' ''a2'') (\<lambda>(_, fs1).
     io_bind (put_file K fs1 ''a.db.wal'' ''wal'') (\<lambda>(_, fs1).
     io_bind (put_file K fs2 ''b.db'' ''b2'') (\<lambda>(_, fs2).
     io_bind (close_fs K fs1) (\<lambda>_.
     io_bind (close_fs K fs2) (\<lambda>_.
     io_bind (local_fs K ''shared-root'' dir) (\<lambda>fs.
     io_bind (file_text K fs ''a.db'' 2) (\<lambda>(v, fs).
     io_bind (assert_that (v = bstr ''a2'')) (\<lambda>_.
     io_bind (file_text K fs ''a.db.wal'' 3) (\<lambda>(v, fs).
     io_bind (assert_that (v = bstr ''wal'')) (\<lambda>_.
     io_bind (file_text K fs ''b.db'' 2) (\<lambda>(v, fs).
     io_bind (assert_that (v = bstr ''b2'')) (\<lambda>_.
     io_bind (close_fs K fs) (\<lambda>_.
     io_return ())))))))))))))))))"

definition reads_on_a_writable_filesystem_do_not_fence_the_writer ::
  "('s, 'db, 'rd, 'tx) setting \<Rightarrow> string \<Rightarrow> ('s, unit) io" where
  "reads_on_a_writable_filesystem_do_not_fence_the_writer K dir =
     io_bind (local_fs K ''shared-root'' dir) (\<lambda>wr.
     io_bind (local_fs K ''shared-root'' dir) (\<lambda>rd.
     io_bind (put_file K wr ''a.db'' ''before'') (\<lambda>(_, wr).
     io_bind (exists_path K rd ''a.db'') (\<lambda>(found, rd).
     io_bind (assert_that found) (\<lambda>_.
     io_bind (exists_path K rd ''a.db.wal'') (\<lambda>(found, rd).
     io_bind (assert_that (\<not> found)) (\<lambda>_.
     io_bind (file_text K rd ''a.db'' 6) (\<lambda>(v, rd).
     io_bind (assert_that (v = bstr ''before'')) (\<lambda>_.
     io_bind (put_file K wr ''a.db'' ''after!'') (\<lambda>(_, wr).
     io_bind (close_fs K rd) (\<lambda>_.
     io_bind (close_fs K wr) (\<lambda>_.
     io_return ()))))))))))))"

definition claims_slatedb_urls :: "('s, 'db, 'rd, 'tx) setting \<Rightarrow> ('s, unit) io" where
  "claims_slatedb_urls K =
     io_bind (in_memory K ''test-db'') (\<lambda>fs.
     io_bind (assert_that (can_handle ''duckdb_objfs://bucket/key'')) (\<lambda>_.
     io_bind (assert_that (can_handle ''duckdb_objfs:/bucket/key'')) (\<lambda>_.
     io_bind (assert_that (\<not> can_handle ''s3://bucket/key'')) (\<lambda>_.
     io_bind (assert_that (\<not> can_handle ''/tmp/foo'')) (\<lambda>_.
     io_bind (assert_that (fs_name fs = NAME)) (\<lambda>_.
     io_bind (close_fs K fs) (\<lambda>_.
     io_return ())))))))"

section \<open>The tests pass\<close>

definition mem_environment :: "mem environment" where
  "mem_environment = \<lparr>
     operator_memory = Inr \<lparr>op_scheme = ''memory'', op_name = '''', op_root = ''/''\<rparr>,
     operator_fs = (\<lambda>dir _. Inr \<lparr>op_scheme = ''fs'', op_name = '''', op_root = dir\<rparr>),
     operator_s3 = (\<lambda>b. Inr \<lparr>op_scheme = ''s3'', op_name = ''test-bucket'', op_root = ''/slatedb-test''\<rparr>),
     create_dir_all = (\<lambda>_ s. (Inr (), s)), runtime_build = (\<lambda>_ _ s. (Inr (), s)), lossy_text = (\<lambda>t. t)\<rparr>"

definition mem_setting :: "(mem, path, path, mem_tx) setting" where
  "mem_setting = \<lparr>environ = mem_environment, builder = test_builder, engine = mem_slatedb, codec_of = proto_codec,
     clock = 5, cache_defaults = cache_config_default 0 0\<rparr>"

lemma fs_open_tests_pass:
  "passes (creates_and_reopens_file_by_path mem_setting)"
  "passes (close_is_idempotent mem_setting)"
  "passes (reader_remains_usable_after_opening_writer mem_setting ''/tmp/r'')"
  "passes (local_database_persists_across_reopen mem_setting ''/tmp/r'')"
  "passes (check_s3_database_persists_across_reopen mem_setting ''http://127.0.0.1:9000'')"
  "passes (reads_do_not_fence_active_writer mem_setting ''/tmp/r'')"
  "passes (opening_missing_file_without_create_fails mem_setting)"
  by code_simp+

lemma fs_catalog_tests_pass:
  "passes (create_or_truncate_clears_an_existing_file mem_setting)"
  "passes (file_exists_uses_path_mapping_only mem_setting)"
  "passes (remove_file_deletes_catalog_metadata_and_chunks mem_setting)"
  "passes (move_file_preserves_source_and_replaces_destination mem_setting)"
  "passes (move_file_rejects_moves_between_databases mem_setting)"
  by code_simp+

lemma fs_group_tests_pass:
  "database_group_keeps_companion_files_with_their_database"
  "passes (db_cache_ids_are_stable_and_scoped_per_database mem_setting ''/tmp/r'' ''/tmp/s'')"
  "passes (writers_of_different_databases_share_a_root mem_setting ''/tmp/r'')"
  "passes (reads_on_a_writable_filesystem_do_not_fence_the_writer mem_setting ''/tmp/r'')"
  "passes (claims_slatedb_urls mem_setting)"
  by code_simp+

end
