(* ===== verification/Ffi_Tests.thy ===== *)
theory Ffi_Tests
  imports Fs_Tests Ffi_Lifecycle
begin

text \<open>
  The tests of \<open>rust/src/ffi.rs\<close>. Their state is the error message of the thread and the world; a pointer
  is a local variable, null being \<open>None\<close>.
\<close>

section \<open>Calls\<close>

definition read_write_options :: ffi_open_options where
  "read_write_options = \<lparr>o_read = 1, o_write = 1, o_create = 1, o_append = 0, o_truncate_existing = 0\<rparr>"

definition read_only_options :: ffi_open_options where
  "read_only_options = \<lparr>o_read = 1, o_write = 0, o_create = 0, o_append = 0, o_truncate_existing = 0\<rparr>"

definition expect_ok :: "int \<Rightarrow> (string \<times> 's, unit) io" where
  "expect_ok status_code =
     (if status_code \<noteq> 0
      then io_bind slatedb_fs_last_error_message (\<lambda>msg.
        io_lift (Panic (''FFI call failed with code '' @ show_nat (nat status_code) @ '': '' @ msg)))
      else io_return ())"

text \<open>
  A constructor, an entry point of the filesystem and one of a handle, with their outputs pointing at fresh
  local variables. The result is the code and what the call left behind its pointers.
\<close>

definition creation ::
  "(string \<times> ('s, 'db, 'rd) create_call, int) io
     \<Rightarrow> (string \<times> 's, int \<times> ('db, 'rd) file_system option) io" where
  "creation m = (\<lambda>(msg, s). case m (msg, \<lparr>cr_output = Some None, cr_world = s\<rparr>) of
     (r, (msg', c)) \<Rightarrow>
       (map_outcome (\<lambda>k. (k, case cr_output c of None \<Rightarrow> None | Some p \<Rightarrow> p)) r, (msg', cr_world c)))"

definition fs_entry ::
  "('db, 'rd) file_system option \<Rightarrow> (string \<times> ('s, 'db, 'rd) fs_call, int) io
     \<Rightarrow> (string \<times> 's, int \<times> ('s, 'db, 'rd) fs_call) io" where
  "fs_entry p m = (\<lambda>(msg, s).
     case m (msg, \<lparr>fs_ptr = p, out_handle = Some None, out_flag = Some 0, fs_world = s\<rparr>) of
       (r, (msg', c)) \<Rightarrow> (map_outcome (\<lambda>k. (k, c)) r, (msg', fs_world c)))"

definition handle_entry ::
  "('s, 'db, 'rd) ffi_handle option \<Rightarrow> bytes \<Rightarrow> (string \<times> ('s, 'db, 'rd) call, 'a) io
     \<Rightarrow> (string \<times> 's, 'a \<times> ('s, 'db, 'rd) call) io" where
  "handle_entry p buf m = (\<lambda>(msg, s).
     case m (msg, \<lparr>out_count = Some 0, buffer = Some buf, handle_ptr = p, world = s\<rparr>) of
       (r, (msg', c)) \<Rightarrow> (map_outcome (\<lambda>k. (k, c)) r, (msg', world c)))"

text \<open>A call that has to succeed; its outputs.\<close>

definition ok_on ::
  "('s, 'db, 'rd) ffi_handle option \<Rightarrow> bytes \<Rightarrow> (string \<times> ('s, 'db, 'rd) call, int) io
     \<Rightarrow> (string \<times> 's, usize option \<times> bytes option \<times> ('s, 'db, 'rd) ffi_handle option) io" where
  "ok_on p buf m =
     io_bind (handle_entry p buf m) (\<lambda>(k, c).
     io_bind (expect_ok k) (\<lambda>_.
     io_return (out_count c, buffer c, handle_ptr c)))"

definition create_fs ::
  "(error \<Rightarrow> string option) \<Rightarrow> ('s, 'db, 'rd, 'tx) setting \<Rightarrow> (string \<times> 's, ('db, 'rd) file_system option) io" where
  "create_fs loc K =
     io_bind (creation (slatedb_fs_create_memory loc (environ K) (builder K) (cache_defaults K) None None)) (\<lambda>(k, fs).
     io_bind (expect_ok k) (\<lambda>_.
     io_bind (assert_that (fs \<noteq> None)) (\<lambda>_.
     io_return fs)))"

definition create_local ::
  "(error \<Rightarrow> string option) \<Rightarrow> ('s, 'db, 'rd, 'tx) setting \<Rightarrow> string
     \<Rightarrow> (string \<times> 's, ('db, 'rd) file_system option) io" where
  "create_local loc K dir =
     io_bind (creation (slatedb_fs_create_local loc (environ K) (builder K) (cache_defaults K) (Some dir) None None)) (\<lambda>(k, fs).
     io_bind (expect_ok k) (\<lambda>_.
     io_return fs))"

definition ffi_open ::
  "(error \<Rightarrow> string option) \<Rightarrow> ('s, 'db, 'rd, 'tx) setting \<Rightarrow> ('db, 'rd) file_system option \<Rightarrow> path \<Rightarrow> ffi_open_options
     \<Rightarrow> (string \<times> 's, ('s, 'db, 'rd) ffi_handle option \<times> ('db, 'rd) file_system option) io" where
  "ffi_open loc K fs p options =
     io_bind (fs_entry fs (slatedb_fs_open_file loc (builder K) (engine K) (codec_of K) (clock K) (Some p) (Some options))) (\<lambda>(k, c).
     io_bind (expect_ok k) (\<lambda>_.
     case out_handle c of
       Some (Some h) \<Rightarrow> io_return (Some h, fs_ptr c)
     | _ \<Rightarrow> io_lift (Panic ''assertion failed: !handle.is_null()'')))"

definition ffi_exists ::
  "(error \<Rightarrow> string option) \<Rightarrow> ('s, 'db, 'rd, 'tx) setting \<Rightarrow> ('db, 'rd) file_system option \<Rightarrow> path
     \<Rightarrow> (string \<times> 's, bool \<times> ('db, 'rd) file_system option) io" where
  "ffi_exists loc K fs p =
     io_bind (fs_entry fs (slatedb_fs_file_exists loc (builder K) (engine K) (Some p))) (\<lambda>(k, c).
     io_bind (expect_ok k) (\<lambda>_.
     io_return (out_flag c \<noteq> Some 0, fs_ptr c)))"

definition drop_handle ::
  "(error \<Rightarrow> string option) \<Rightarrow> ('s, 'db, 'rd, 'tx) setting \<Rightarrow> ('s, 'db, 'rd) ffi_handle option \<Rightarrow> (string \<times> 's, unit) io" where
  "drop_handle loc K p =
     io_bind (handle_entry p [] (slatedb_file_destroy loc (engine K) (codec_of K))) (\<lambda>_. io_return ())"

definition drop_fs ::
  "('s, 'db, 'rd, 'tx) setting \<Rightarrow> ('db, 'rd) file_system option \<Rightarrow> (string \<times> 's, unit) io" where
  "drop_fs K p = (\<lambda>(msg, s). case slatedb_fs_destroy (builder K) (p, s) of (r, (_, s')) \<Rightarrow> (r, (msg, s')))"

lemmas stateful_ffi_code [code] =
  fun_cong [OF expect_ok_def] fun_cong [OF creation_def] fun_cong [OF fs_entry_def] fun_cong [OF handle_entry_def]
  fun_cong [OF ok_on_def] fun_cong [OF create_fs_def] fun_cong [OF create_local_def] fun_cong [OF ffi_open_def]
  fun_cong [OF ffi_exists_def] fun_cong [OF drop_handle_def] fun_cong [OF drop_fs_def]
  fun_cong [OF store_error_def] fun_cong [OF ffi_result_def] fun_cong [OF with_shared_file_handle_def]
  fun_cong [OF with_guard_def] fun_cong [OF with_exclusive_file_handle_def] fun_cong [OF on_handle_def]
  fun_cong [OF on_buffer_def] fun_cong [OF counted_def] fun_cong [OF slatedb_file_read_def]
  fun_cong [OF slatedb_file_pread_def] fun_cong [OF slatedb_file_write_def] fun_cong [OF slatedb_file_pwrite_def]
  fun_cong [OF slatedb_file_sync_def] fun_cong [OF slatedb_file_truncate_def] fun_cong [OF slatedb_file_seek_def]
  fun_cong [OF slatedb_file_get_position_def] fun_cong [OF slatedb_file_get_size_def] fun_cong [OF close_slot_def]
  fun_cong [OF slatedb_file_close_def] fun_cong [OF on_fs_def] fun_cong [OF require_fs_def]
  fun_cong [OF slatedb_fs_open_file_def] fun_cong [OF slatedb_fs_file_exists_def]
  fun_cong [OF slatedb_fs_remove_file_def] fun_cong [OF slatedb_fs_move_file_def] fun_cong [OF create_runtime_def]
  fun_cong [OF on_world_def] fun_cong [OF creating_def] fun_cong [OF slatedb_fs_create_memory_def]
  fun_cong [OF slatedb_fs_create_local_def] fun_cong [OF slatedb_fs_create_s3_def]
  fun_cong [OF open_s3_with_cache_config_def]
  fun_cong [OF slatedb_fs_destroy_def] fun_cong [OF slatedb_file_destroy_def]
  fun_cong [OF slatedb_fs_last_error_message_def]

section \<open>Constructors\<close>

definition ffi_s3_constructor_validates_config ::
  "(error \<Rightarrow> string option) \<Rightarrow> ('s, 'db, 'rd, 'tx) setting \<Rightarrow> (string \<times> 's, unit) io" where
  "ffi_s3_constructor_validates_config loc K =
     (let config = \<lparr>f_bucket = Some [], f_root = None, f_endpoint = None, f_region = None, f_key_id = None,
        f_secret = None, f_session_token = None, f_use_ssl = 1, f_virtual_host_style = 0\<rparr> in
     io_bind (creation (slatedb_fs_create_s3 loc (environ K) (builder K) (cache_defaults K) (Some config) None None)) (\<lambda>(k, fs).
     io_bind (assert_that (k = error_code_i32 CodeInvalidArgument)) (\<lambda>_.
     io_bind (assert_that (fs = None)) (\<lambda>_.
     io_bind slatedb_fs_last_error_message (\<lambda>msg.
     assert_that (contains ''S3 bucket must not be empty'' msg))))))"

definition ffi_local_constructor_validates_and_opens_root ::
  "(error \<Rightarrow> string option) \<Rightarrow> ('s, 'db, 'rd, 'tx) setting \<Rightarrow> string \<Rightarrow> (string \<times> 's, unit) io" where
  "ffi_local_constructor_validates_and_opens_root loc K dir =
     io_bind (creation (slatedb_fs_create_local loc (environ K) (builder K) (cache_defaults K) (Some []) None None)) (\<lambda>(k, fs).
     io_bind (assert_that (k = error_code_i32 CodeInvalidArgument)) (\<lambda>_.
     io_bind (assert_that (fs = None)) (\<lambda>_.
     io_bind (create_local loc K dir) (\<lambda>fs.
     io_bind (assert_that (fs \<noteq> None)) (\<lambda>_.
     drop_fs K fs)))))"

section \<open>Files\<close>

definition ffi_local_client_reopens_writer_data ::
  "(error \<Rightarrow> string option) \<Rightarrow> ('s, 'db, 'rd, 'tx) setting \<Rightarrow> string \<Rightarrow> (string \<times> 's, unit) io" where
  "ffi_local_client_reopens_writer_data loc K dir =
     io_bind (create_local loc K dir) (\<lambda>wr.
     io_bind (ffi_open loc K wr ''database.db'' read_write_options) (\<lambda>(h, wr).
     io_bind (ok_on h (bstr ''contents'') (slatedb_file_write loc (clock K) 8)) (\<lambda>(_, _, h).
     io_bind (ok_on h [] (slatedb_file_sync loc (engine K) (codec_of K))) (\<lambda>(_, _, h).
     io_bind (drop_handle loc K h) (\<lambda>_.
     io_bind (drop_fs K wr) (\<lambda>_.
     io_bind (create_local loc K dir) (\<lambda>rd.
     io_bind (ffi_exists loc K rd ''database.db'') (\<lambda>(found, rd).
     io_bind (assert_that found) (\<lambda>_.
     io_bind (ffi_open loc K rd ''database.db'' read_only_options) (\<lambda>(h, rd).
     io_bind (ok_on h (replicate 8 0) (slatedb_file_read loc 8)) (\<lambda>(_, contents, h).
     io_bind (assert_that (contents = Some (bstr ''contents''))) (\<lambda>_.
     io_bind (drop_handle loc K h) (\<lambda>_.
     drop_fs K rd)))))))))))))"

definition ffi_open_close_lifecycle ::
  "(error \<Rightarrow> string option) \<Rightarrow> ('s, 'db, 'rd, 'tx) setting \<Rightarrow> (string \<times> 's, unit) io" where
  "ffi_open_close_lifecycle loc K =
     io_bind (create_fs loc K) (\<lambda>fs.
     io_bind (ffi_open loc K fs ''database.db'' read_write_options) (\<lambda>(h, fs).
     io_bind (ok_on h [] (slatedb_file_close loc (engine K) (codec_of K))) (\<lambda>(_, _, h).
     io_bind (drop_handle loc K h) (\<lambda>_.
     io_bind (fs_entry fs (slatedb_fs_open_file loc (builder K) (engine K) (codec_of K) (clock K)
       (Some ''missing.db'') (Some read_only_options))) (\<lambda>(k, c).
     io_bind (assert_that (k = error_code_i32 CodeFileNotFound)) (\<lambda>_.
     io_bind (assert_that (case out_handle c of Some None \<Rightarrow> True | _ \<Rightarrow> False)) (\<lambda>_.
     drop_fs K (fs_ptr c))))))))"

definition ffi_read_write_sync_and_truncate ::
  "(error \<Rightarrow> string option) \<Rightarrow> ('s, 'db, 'rd, 'tx) setting \<Rightarrow> (string \<times> 's, unit) io" where
  "ffi_read_write_sync_and_truncate loc K =
     io_bind (create_fs loc K) (\<lambda>fs.
     io_bind (ffi_open loc K fs ''database.db'' read_write_options) (\<lambda>(h, fs).
     io_bind (ok_on h (bstr ''abcdef'') (slatedb_file_write loc (clock K) 6)) (\<lambda>(bytes_written, _, h).
     io_bind (assert_that (bytes_written = Some 6)) (\<lambda>_.
     io_bind (ok_on h (bstr ''XY'') (slatedb_file_pwrite loc (clock K) 2 2)) (\<lambda>(_, _, h).
     io_bind (ok_on h [] (slatedb_file_truncate loc (clock K) 4)) (\<lambda>(_, _, h).
     io_bind (ok_on h [] (slatedb_file_sync loc (engine K) (codec_of K))) (\<lambda>(_, _, h).
     io_bind (ok_on h [] (slatedb_file_get_size loc)) (\<lambda>(size, _, h).
     io_bind (assert_that (size = Some 4)) (\<lambda>_.
     io_bind (drop_handle loc K h) (\<lambda>_.
     io_bind (ffi_open loc K fs ''database.db'' read_only_options) (\<lambda>(h, fs).
     io_bind (ok_on h (replicate 4 0) (slatedb_file_read loc 4)) (\<lambda>(bytes_read, contents, h).
     io_bind (assert_that (bytes_read = Some 4)) (\<lambda>_.
     io_bind (assert_that (contents = Some (bstr ''abXY''))) (\<lambda>_.
     io_bind (ok_on h (replicate 2 0) (slatedb_file_pread loc 2 2)) (\<lambda>(_, middle, h).
     io_bind (assert_that (middle = Some (bstr ''XY''))) (\<lambda>_.
     io_bind (drop_handle loc K h) (\<lambda>_.
     drop_fs K fs)))))))))))))))))"

definition ffi_seek_and_get_position ::
  "(error \<Rightarrow> string option) \<Rightarrow> ('s, 'db, 'rd, 'tx) setting \<Rightarrow> (string \<times> 's, unit) io" where
  "ffi_seek_and_get_position loc K =
     io_bind (create_fs loc K) (\<lambda>fs.
     io_bind (ffi_open loc K fs ''database.db'' read_write_options) (\<lambda>(h, fs).
     io_bind (ok_on h (bstr ''abc'') (slatedb_file_write loc (clock K) 3)) (\<lambda>(_, _, h).
     io_bind (ok_on h [] (slatedb_file_seek loc 1)) (\<lambda>(_, _, h).
     io_bind (ok_on h [] (slatedb_file_get_position loc)) (\<lambda>(pos, _, h).
     io_bind (assert_that (pos = Some 1)) (\<lambda>_.
     io_bind (ok_on h [0] (slatedb_file_read loc 1)) (\<lambda>(_, byte, h).
     io_bind (assert_that (byte = Some (bstr ''b''))) (\<lambda>_.
     io_bind (ok_on h [] (slatedb_file_get_position loc)) (\<lambda>(pos, _, h).
     io_bind (assert_that (pos = Some 2)) (\<lambda>_.
     io_bind (drop_handle loc K h) (\<lambda>_.
     drop_fs K fs)))))))))))"

definition ffi_file_exists_move_and_remove ::
  "(error \<Rightarrow> string option) \<Rightarrow> ('s, 'db, 'rd, 'tx) setting \<Rightarrow> (string \<times> 's, unit) io" where
  "ffi_file_exists_move_and_remove loc K =
     (let src = ''database.db.wal.checkpoint''; target = ''database.db.wal'' in
     io_bind (create_fs loc K) (\<lambda>fs.
     io_bind (ffi_open loc K fs src read_write_options) (\<lambda>(h, fs).
     io_bind (drop_handle loc K h) (\<lambda>_.
     io_bind (ffi_exists loc K fs src) (\<lambda>(found, fs).
     io_bind (assert_that found) (\<lambda>_.
     io_bind (ffi_exists loc K fs target) (\<lambda>(found, fs).
     io_bind (assert_that (\<not> found)) (\<lambda>_.
     io_bind (fs_entry fs (slatedb_fs_move_file loc (builder K) (engine K) (Some src) (Some target))) (\<lambda>(k, c).
     io_bind (expect_ok k) (\<lambda>_.
     io_bind (ffi_exists loc K (fs_ptr c) src) (\<lambda>(found, fs).
     io_bind (assert_that (\<not> found)) (\<lambda>_.
     io_bind (ffi_exists loc K fs target) (\<lambda>(found, fs).
     io_bind (assert_that found) (\<lambda>_.
     io_bind (fs_entry fs (slatedb_fs_remove_file loc (builder K) (engine K) (Some target))) (\<lambda>(k, c).
     io_bind (expect_ok k) (\<lambda>_.
     io_bind (ffi_exists loc K (fs_ptr c) target) (\<lambda>(found, fs).
     io_bind (assert_that (\<not> found)) (\<lambda>_.
     drop_fs K fs))))))))))))))))))"

section \<open>The tests pass\<close>

definition in_thread :: "(string \<times> 's, unit) io \<Rightarrow> ('s, unit) io" where
  "in_thread t = (\<lambda>s. case t ([], s) of (r, (_, s')) \<Rightarrow> (r, s'))"

abbreviation no_location :: "error \<Rightarrow> string option" where
  "no_location \<equiv> \<lambda>_. None"

lemma ffi_constructor_tests_pass:
  "passes (in_thread (ffi_s3_constructor_validates_config no_location mem_setting))"
  "passes (in_thread (ffi_local_constructor_validates_and_opens_root no_location mem_setting ''/tmp/r''))"
  by code_simp+

lemma ffi_handle_tests_pass:
  "passes (in_thread (ffi_local_client_reopens_writer_data no_location mem_setting ''/tmp/r''))"
  "passes (in_thread (ffi_open_close_lifecycle no_location mem_setting))"
  "passes (in_thread (ffi_read_write_sync_and_truncate no_location mem_setting))"
  by code_simp+

lemma ffi_path_tests_pass:
  "passes (in_thread (ffi_seek_and_get_position no_location mem_setting))"
  "passes (in_thread (ffi_file_exists_move_and_remove no_location mem_setting))"
  by code_simp+

end
