(* ===== verification/Test_Suite.thy ===== *)
theory Test_Suite
  imports Handle_Tests Chunk_Tests Base_Tests Ffi_Tests
begin

text \<open>
  The tests of the crate, module by module, and that they pass: each is a program of the model, evaluated by
  the kernel on the store in memory. What they assert is what the authors expect of the code, so they check
  the definitions independently of the theorems about them.
\<close>

definition chunk_store_suite ::
  "('s, 'db, 'rd) slate_builder \<Rightarrow> ('s, 'db, 'rd, 'tx) slatedb \<Rightarrow> ('s, unit) io list" where
  "chunk_store_suite B S =
     [scans_cover_both_ends_of_the_range B S,
      injected_fault_applies_once_to_whichever_operation_comes_next B S]"

definition chunk_manager_suite ::
  "('s, 'db, 'rd) slate_builder \<Rightarrow> ('s, 'db, 'rd, 'tx) slatedb \<Rightarrow> ('s, unit) io list" where
  "chunk_manager_suite B S =
     [base_offset_starts_full_chunks_after_it B S,
      writes_spanning_chunks_read_back_whole B S,
      reads_past_the_last_chunk_are_zero B S,
      reads_coalesced_chunks_skip_absent_keys B S,
      truncate_shortens_the_last_chunk_and_deletes_the_rest B S,
      failed_truncate_keeps_staged_writes B S]"

definition file_handle_suite ::
  "('s, 'db, 'rd) slate_builder \<Rightarrow> ('s, 'db, 'rd, 'tx) slatedb \<Rightarrow> codec \<Rightarrow> int \<Rightarrow> ('s, unit) io list" where
  "file_handle_suite B S P now =
     [sequential_io_tracks_position B S P now,
      positional_reads_can_share_a_handle B S P now,
      writes_persist_across_chunks_and_reopen B S P now,
      append_writes_at_end_after_reopen B S P now,
      reads_stop_at_the_end_of_the_file B S P now,
      reads_span_persisted_and_pending_chunks B S P now,
      truncate_hides_persisted_chunks_before_sync B S P now,
      truncate_then_sparse_write_reads_as_zero B S P now,
      failed_truncate_preserves_unflushed_writes B S P now,
      read_only_handle_rejects_writes B S P now]"

definition fs_suite :: "('s, 'db, 'rd, 'tx) setting \<Rightarrow> string \<Rightarrow> string \<Rightarrow> string \<Rightarrow> ('s, unit) io list" where
  "fs_suite K dir other_dir endpoint =
     [creates_and_reopens_file_by_path K,
      close_is_idempotent K,
      reader_remains_usable_after_opening_writer K dir,
      local_database_persists_across_reopen K dir,
      check_s3_database_persists_across_reopen K endpoint,
      reads_do_not_fence_active_writer K dir,
      opening_missing_file_without_create_fails K,
      create_or_truncate_clears_an_existing_file K,
      file_exists_uses_path_mapping_only K,
      remove_file_deletes_catalog_metadata_and_chunks K,
      move_file_preserves_source_and_replaces_destination K,
      move_file_rejects_moves_between_databases K,
      db_cache_ids_are_stable_and_scoped_per_database K dir other_dir,
      writers_of_different_databases_share_a_root K dir,
      reads_on_a_writable_filesystem_do_not_fence_the_writer K dir,
      claims_slatedb_urls K]"

definition ffi_suite ::
  "(error \<Rightarrow> string option) \<Rightarrow> ('s, 'db, 'rd, 'tx) setting \<Rightarrow> string \<Rightarrow> ('s, unit) io list" where
  "ffi_suite loc K dir = map in_thread
     [ffi_s3_constructor_validates_config loc K,
      ffi_local_constructor_validates_and_opens_root loc K dir,
      ffi_local_client_reopens_writer_data loc K dir,
      ffi_open_close_lifecycle loc K,
      ffi_read_write_sync_and_truncate loc K,
      ffi_seek_and_get_position loc K,
      ffi_file_exists_move_and_remove loc K]"

text \<open>The tests of the chunk store, the chunk manager, the file handle, the filesystem and the C interface
  pass: run on an empty store in memory, each ends without a failed assertion, so that on these runs the
  results, the errors and the persisted data are the ones the tests of the crate ask for.\<close>

lemma repository_tests_pass:
  "list_all passes (chunk_store_suite test_builder mem_slatedb) \<and>
   list_all passes (chunk_manager_suite test_builder mem_slatedb) \<and>
   list_all passes (file_handle_suite test_builder mem_slatedb proto_codec 5) \<and>
   list_all passes (fs_suite mem_setting ''/tmp/r'' ''/tmp/s'' ''http://127.0.0.1:9000'') \<and>
   list_all passes (ffi_suite no_location mem_setting ''/tmp/r'')"
  by (simp add: chunk_store_suite_def chunk_manager_suite_def file_handle_suite_def fs_suite_def ffi_suite_def
      chunk_store_tests_pass chunk_manager_tests_pass handle_tests_pass fs_open_tests_pass fs_catalog_tests_pass
      fs_group_tests_pass ffi_constructor_tests_pass ffi_handle_tests_pass ffi_path_tests_pass)

end
