(* ===== verification/Spec2Isabelle.thy ===== *)
theory Spec2Isabelle
  imports Storage_Properties Handle_Properties Catalog_Properties System_Properties Service_Properties
    Filesystem_Properties Test_Suite
begin

text \<open>
  A verification library for the Rust crate of the DuckDB object storage extension (\<open>rust/src/\<close>): a
  filesystem for DuckDB that keeps files as fixed-size chunks in SlateDB, a key-value store over object
  storage, and is called by DuckDB through a C ABI.

  \<^bold>\<open>The program and its parts.\<close> A path belongs to a \<^emph>\<open>group\<close> (a database and its log files); each group has
  its own SlateDB, with one writer and readers on demand (\<open>fs.rs\<close>). In a database a catalog maps paths to
  file ids (\<open>database_metadata.rs\<close>); a file id has a metadata record (\<open>file_metadata.rs\<close>) and chunks under
  keys (\<open>keys.rs\<close>). A handle (\<open>file_handle.rs\<close>) reads and writes byte ranges through its chunk manager
  (\<open>chunk_manager.rs\<close>), which stages changes in memory and reads the rest from a chunk store
  (\<open>chunk_store.rs\<close>); a sync writes the staged chunks and the metadata in one batch. The C ABI (\<open>ffi.rs\<close>) turns
  errors and panics into codes. Under SlateDB are an object store adapter (\<open>slatedb_object_store.rs\<close>) and an
  OpenDAL layer that measures requests (\<open>opendal_io_metrics_layer.rs\<close>, \<open>io_metrics.rs\<close>).

  \<^bold>\<open>Modelling conventions.\<close> A fallible operation returns an \<open>outcome\<close> (\<open>Ok\<close>, \<open>Err\<close> or \<open>Panic\<close>), a stateful one
  is an \<open>io\<close> (\<open>Errors\<close>): it takes a state and returns an outcome and a state, so that what an operation
  leaves behind when it fails is part of its result. A struct is a record and an enum a datatype of the
  same name; \<open>u64\<close> and \<open>usize\<close> are natural numbers with the wrapping, checked and saturating operations
  written out (\<open>Prelude\<close>; a plain addition wraps, as in a release build), bytes are \<open>8 word\<close>, hashes \<open>64 word\<close>. A
  slice whose range is not in bounds is a panic. A \<open>BTreeMap\<close> is an association list sorted by key
  (\<open>Ordered_Map\<close>). Loops are structural recursions, or a \<open>function\<close> with a measure (\<open>split_loop\<close>); no fuel is
  used, every definition is total and executable, except that the statistics are also instantiated at
  the reals.

  \<^bold>\<open>Theories and sources.\<close>
  \<^item> \<open>Prelude\<close>, \<open>Errors\<close> (\<open>error.rs\<close>, \<open>error_struct.rs\<close>), \<open>Keys\<close> (\<open>keys.rs\<close>, key parsing of \<open>chunk_manager.rs\<close>), \<open>Ordered_Map\<close>.
  \<^item> \<open>Slate_Db\<close>: the interface of SlateDB, the locales \<open>slate_reads\<close>, \<open>slate_db\<close> and \<open>slate_tx\<close>; \<open>Mem_Db\<close>: a store
    in memory with a schedule of faults that interprets them, whose writes are durable once a flush saved them.
  \<^item> \<open>Chunk_Store\<close> (\<open>chunk_store.rs\<close>): the trait, its implementations and its contract \<open>chunk_store_spec\<close>, which
    is derived for both SlateDB clients and kept by the fault injector.
  \<^item> \<open>Chunk_Manager\<close> (\<open>chunk_manager.rs\<close>); \<open>Chunk_Geometry\<close>: positions, chunk indices and the tiling of a range;
    \<open>Chunk_Manager_Spec\<close>, \<open>Chunk_Manager_Updates\<close>: what read, write, truncate and flush do to \<open>file_byte\<close>, the
    byte a position of the file shows.
  \<^item> \<open>Flags\<close> (\<open>flags.rs\<close>), \<open>File_Metadata\<close> (\<open>file_metadata.rs\<close>, \<open>util.rs\<close>), \<open>Proto_Codec\<close> (the wire format of
    \<open>proto/metadata.proto\<close>, an instance of the locale \<open>metadata_codec\<close>).
  \<^item> \<open>File_Handle\<close> (\<open>file_handle.rs\<close>), \<open>File_Handle_Spec\<close>, \<open>File_Handle_Sync\<close>, \<open>File_Session\<close> (the abstract byte
    array, sessions as a step relation, the simulation), \<open>Liveness\<close> (the locales \<open>reliable_store\<close> and
    \<open>reliable_db\<close>: operations succeed when the store does).
  \<^item> \<open>Database_Metadata\<close> (\<open>database_metadata.rs\<close>), \<open>Database_Metadata_Spec\<close>, \<open>Database_Catalog\<close> (the catalog as a
    partial function), \<open>Database_Wf\<close> (the invariant of a database and its preservation).
  \<^item> \<open>Stored_Files\<close>: the map from paths to bytes that the contents of a database stand for; \<open>Catalog_Liveness\<close>
    (the locale \<open>reliable_tx\<close>: transactions that go through), \<open>Path_Operations\<close>: the operations of \<open>fs.rs\<close> on paths
    against that map; \<open>Group_System\<close>: a group used by several handles, with path operations and crashes, as a
    step relation, where a crash leaves any contents shown since the durable ones were last the shown ones; \<open>Test_Utils\<close> (\<open>test_utils.rs\<close>): whole files written and read through every layer.
  \<^item> \<open>Cache\<close> (\<open>cache.rs\<close>), \<open>File_System\<close> and \<open>Fs_Open\<close> (\<open>fs.rs\<close>), \<open>File_System_Spec\<close>.
  \<^item> \<open>Io_Metrics\<close> (\<open>io_metrics.rs\<close>), \<open>Io_Metrics_Layer\<close> (\<open>opendal_io_metrics_layer.rs\<close>), \<open>Io_Metrics_Layer_Spec\<close>
    (the locales \<open>records_once\<close> and \<open>measured\<close>, interpreted on the four kinds of objects), \<open>Object_Store\<close>
    (\<open>slatedb_object_store.rs\<close>).
  \<^item> \<open>Ffi\<close>, \<open>Ffi_Lifecycle\<close>, \<open>Ffi_Stats\<close> (\<open>ffi.rs\<close>), \<open>Ffi_Spec\<close>.
  \<^item> \<open>Test_Kit\<close>, \<open>Base_Tests\<close>, \<open>Chunk_Tests\<close>, \<open>Handle_Tests\<close>, \<open>Fs_Tests\<close>, \<open>Ffi_Tests\<close>, \<open>Test_Suite\<close>: the test modules of the
    crate as programs of the model, which the kernel runs on the store in memory.
  \<^item> \<open>Mem_Examples\<close>: concrete states; \<open>Storage_Properties\<close>, \<open>Handle_Properties\<close>, \<open>Catalog_Properties\<close>,
    \<open>System_Properties\<close>, \<open>Service_Properties\<close>, \<open>Filesystem_Properties\<close> and this theory: the properties.

  \<^bold>\<open>What is shown.\<close> A session on a handle whose file has only zeros behind its end
  (\<open>zero_tail\<close>: a new file, and what successful operations leave) refines a byte array with a
  position, and succeeds on a reliable store within a dense file; every session touches only its own file; sync
  is atomic and durable, and what was synced is there after reopening the path. A database stands for a map from
  paths to bytes that the operations on paths update, with the results of the map when the store serves every
  call, and files written through the filesystem read back. With several handles on a group, failing calls and
  crashes, the database stays well-formed and a synced file stays until it is changed, on runs where no file is
  removed or replaced while a handle is open to write it (\<open>orderly\<close>);
  \<open>stale_sync_orphans\<close> shows that the condition is needed. The catalog operations have their
  effect, are atomic under failures of the store and keep the invariant of the database. Keys are injective,
  ordered and in disjoint families; the geometry of chunks tiles ranges. A group has one writer; closing is
  final and closes everything, whatever fails. Configurations are checked and passed on exactly. No entry point
  of the C ABI unwinds, and a panic poisons the handle it happened under for all of them. The measuring layer is
  transparent and records every request once; the statistics are mean and deviation. The tests of the crate pass
  on the model (lemma \<open>repository_tests_pass\<close>, a check of the definitions on fixed inputs). Five
  behaviours the code does not intend are shown by their own lemmas (\<open>short_chunk_read_panics\<close>,
  \<open>grow_after_failed_write\<close>, \<open>stale_sync_orphans\<close>,
  \<open>read_at_end_skips_check\<close>, \<open>group_not_idempotent\<close>).

  \<^bold>\<open>Parameters.\<close> SlateDB (\<open>slatedb\<close>, \<open>slate_builder\<close>), the generated protobuf codec (\<open>codec\<close>), the metrics recorder of
  SlateDB, OpenDAL (\<open>service\<close>, \<open>object_store\<close>, \<open>environment\<close>), the Tokio runtime, the clock and the call sites in
  error texts are arguments. What is assumed of them is in the locales and in the hypotheses of the
  properties; each locale is interpreted on the model's own definitions or on the store in memory.

  \<^bold>\<open>Not modelled.\<close> The rounding of \<open>f64\<close> (durations are rounded to nanoseconds
  as the code does, to the nearest and ties to even); the process-wide set-up call of OpenDAL in
  \<open>build_s3_operator\<close>; the concurrency of requests: chunk groups are fetched in order, the locks of
  the maps are taken one operation at a time, and the order in which a hash map is drained is the order of the
  list; \<open>Debug\<close> formatting; \<open>lib.rs\<close> and \<open>build.rs\<close>; of the tests, the
  server that answers as S3, the downcast of an error source to its Rust type, and the test that drives the
  measuring layer through an OpenDAL operator; the C++ adapter and the scripts, which are glue over interfaces
  outside the repository.
\<close>

section \<open>Sessions on a file\<close>

text \<open>A file without chunks has nothing but zeros behind its end.\<close>

lemma no_chunks_zero_tail: "(\<And>i. chunk_at (chunks h) v i = None) \<Longrightarrow> zero_tail h v"
  by (simp add: zero_tail_def file_byte_def)

text \<open>C1. A file is a byte array. Let a writable handle have nothing but zeros staged or stored behind the end of
  the file (\<open>zero_tail\<close>). Whatever sequence of reads, writes, seeks, truncations and syncs a client applies to
  it, as long as each of them succeeds, the data the reads return, the final contents and the final
  position are those of the same sequence on an abstract byte array, and there are still only zeros behind
  the end. A file without chunks starts that way (\<open>no_chunks_zero_tail\<close>); a write that failed can leave other
  bytes there, and then a later growth differs from the byte array (\<open>grow_after_failed_write\<close>).\<close>

theorem session_refines_byte_array:
  assumes "slate_db S view durable" and "handle_inv S db h (view db s)" and "zero_tail h (view db s)"
    and "\<forall>op \<in> snd ` set ops. op_u64 op"
    and "exec_ops S P ops (h, s) = (Ok outs, (h', s'))"
  shows "spec_run (fl_append (fh_flags h)) (map snd ops) (file_bytes h (view db s), position h)
    = (outs, (file_bytes h' (view db s'), position h')) \<and> zero_tail h' (view db s')"
  using slate_db.exec_ops_refines [OF assms(1,5,2,4,3)] by (simp add: abs_handle_def)

definition demo_ops :: "(int \<times> file_op) list" where
  "demo_ops = [(5, Write [1, 2, 3, 4, 5]), (6, Pread 5 1), (7, Truncate 4), (8, Sync)]"

theorem session_refines_byte_array_witness:
  "\<exists>h' s'. exec_ops mem_slatedb proto_codec demo_ops (small_handle flags_read_write 0, mem_empty)
       = (Ok [[], [2, 3, 4, 5], [], []], (h', s')) \<and>
     spec_run False (map snd demo_ops) ([], 0)
       = ([[], [2, 3, 4, 5], [], []], (file_bytes h' (mem_view ''d'' s'), position h'))"
proof -
  let ?h = "small_handle flags_read_write 0"
  have "fst (exec_ops mem_slatedb proto_codec demo_ops (?h, mem_empty)) = Ok [[], [2, 3, 4, 5], [], []]" by code_simp
  from run_obtain [OF this] obtain h' s' where run: "exec_ops mem_slatedb proto_codec demo_ops (?h, mem_empty)
      = (Ok [[], [2, 3, 4, 5], [], []], (h', s'))" by (elim exE)
  have "\<forall>op \<in> snd ` set demo_ops. op_u64 op" by (simp add: demo_ops_def u64_size_def)
  then show ?thesis
    using session_refines_byte_array [OF mem_tx.slate_db_axioms _ _ _ run, of "''d''"] run by (simp add: run)
qed

text \<open>C2. Isolation. Whatever a session does, with failures at any point, it changes no key of the database
  but the chunks and the metadata of its own file, the invariant of the handle holds throughout, and a
  handle without write access changes nothing.\<close>

theorem session_isolation:
  assumes "slate_db S view durable" and "session S P (h, s) (h', s')" and "handle_inv S db h (view db s)"
  shows "handle_inv S db h' (view db s') \<and> same_handle h h' \<and>
    (\<forall>k. (\<forall>i. k \<noteq> chunk_key (fh_file_id h) i) \<and> k \<noteq> metadata_key (fh_file_id h) \<longrightarrow> view db s' k = view db s k) \<and>
    (\<not> fl_write (fh_flags h) \<longrightarrow> view db s' = view db s)"
  using slate_db.session_inv [OF assms] by simp

theorem session_isolation_witness:
  "\<exists>h' s'. session mem_slatedb proto_codec (small_handle flags_read_only 3, mem_failing [True]) (h', s') \<and>
     mem_faults s' = [] \<and> mem_view ''d'' s' = Map.empty"
proof -
  let ?c = "(small_handle flags_read_only 3, mem_failing [True])"
  let ?R = "exec_op mem_slatedb proto_codec (0, Pread 2 0) ?c"
  have R: "?R = (fst ?R, (fst (snd ?R), snd (snd ?R)))" by (simp add: prod_eq_iff)
  have ses: "session mem_slatedb proto_codec ?c (fst (snd ?R), snd (snd ?R))"
    by (rule session_step [OF session_start _ R]) simp
  have "mem_faults (snd (snd ?R)) = []" by code_simp
  moreover have "mem_view ''d'' (snd (snd ?R)) = Map.empty"
    using session_isolation [OF mem_tx.slate_db_axioms ses, of "''d''"]
    by (simp add: flags_read_only_def u64_size_def)
  ultimately show ?thesis using ses by blast
qed

text \<open>C9. What was synced is what the next open shows. After a sync that succeeded, the database is still
  well-formed and opening the path of the file again, for reading or for writing but not for truncation, gives
  a handle with the bytes, the size and the modification time the first handle had.\<close>

theorem synced_file_reopens:
  assumes "slate_tx S view durable tx_db tx_snapshot tx_writes" and "metadata_codec P"
    and "db_wf P (view db s)" and "catalog (view db s) p = Some (fh_file_id h)" and "handle_inv S db h (view db s)"
    and "sync S P (h, s) = (Ok (), (h', s1))" and "cm_pending (chunks h) \<noteq> [] \<or> metadata_dirty h"
    and "\<not> file_system.closed fs" and "writer_of fs (database_group p) = Some db" and "\<not> fl_truncate_existing fl"
    and "fs_open_file B S P now p fl (fs, s1) = (Ok h2, (fs', s2))"
  shows "db_wf P (view db s2) \<and> handle_inv S db h2 (view db s2) \<and> fh_file_id h2 = fh_file_id h \<and>
    file_bytes h2 (view db s2) = file_bytes h (view db s) \<and> file_size h2 = file_size h \<and>
    get_last_modified_time h2 = get_last_modified_time h"
proof -
  note sdb = slate_tx.axioms(1) [OF assms(1)]
  have wf1: "db_wf P (view db s1)" and cat1: "catalog (view db s1) p = Some (fh_file_id h)"
    using synced_wf [OF sdb assms(2,6,5,3,4)] assms(4) by simp_all
  have v1: "view db s1 = apply_batch (sync_batch P h) (view db s)" using sync_result [OF sdb assms(6,5,7)] by simp
  note o = open_over_writer [OF assms(1,11,8,9,10) wf1 cat1]
  have md: "handle_metadata h2 = handle_metadata h"
    using o synced_metadata [OF sdb assms(2,6,5,7)] by simp
  have h: "fh_wf (slatedb_chunk_store S db) h" "fh_size h < u64_size" using assms(5) by (auto simp: handle_inv_def fh_wf_def)
  have "cm_file_id (chunks h2) = fh_file_id h" using o by (auto simp: handle_inv_def fh_wf_def)
  with o have "shows_same h (view db s) h2 (view db s2)"
    using reopen_shows_same [OF h(1) md] v1 by simp
  then show ?thesis
    using shows_sameD(1) [OF _ h(2)] o md wf1
    by (auto simp: file_size_def get_last_modified_time_def handle_metadata_def)
qed

theorem synced_file_reopens_witness:
  "\<exists>h h' s1 h2 fs' s2. exec_op mem_slatedb proto_codec (3, Pwrite [1, 2, 3] 0) (small_handle flags_read_write 0, mem_one ''f'' [])
       = (Ok [], (h, mem_one ''f'' [])) \<and>
     sync mem_slatedb proto_codec (h, mem_one ''f'' []) = (Ok (), (h', s1)) \<and>
     fs_open_file mem_builder mem_slatedb proto_codec 9 ''f'' flags_read_only (small_fs (Some ''d''), s1) = (Ok h2, (fs', s2)) \<and>
     file_bytes h2 (mem_view ''d'' s2) = file_bytes h (mem_view ''d'' (mem_one ''f'' []))"
proof -
  let ?s = "mem_one ''f'' []" and ?hd = "small_handle flags_read_write 0"
  let ?RW = "exec_op mem_slatedb proto_codec (3, Pwrite [1, 2, 3] 0) (?hd, ?s)"
  let ?h = "fst (snd ?RW)"
  let ?RS = "sync mem_slatedb proto_codec (?h, ?s)"
  let ?RO = "fs_open_file mem_builder mem_slatedb proto_codec 9 ''f'' flags_read_only (small_fs (Some ''d''), snd (snd ?RS))"
  have "fst ?RW = Ok [] \<and> snd (snd ?RW) = ?s" by code_simp
  then have r0: "?RW = (Ok [], (?h, ?s))" by (simp add: prod_eq_iff)
  have "fst ?RS = Ok ()" by code_simp
  then have r1: "?RS = (Ok (), (fst (snd ?RS), snd (snd ?RS)))" by (simp add: prod_eq_iff)
  have "case fst ?RO of Ok _ \<Rightarrow> True | _ \<Rightarrow> False" by code_simp
  then obtain h2 where "fst ?RO = Ok h2" by (auto split: outcome.splits)
  from run_obtain [OF this] obtain fs' s2 where r2: "?RO = (Ok h2, (fs', s2))" by (elim exE)
  have inv: "handle_inv mem_slatedb ''d'' ?h (mem_view ''d'' ?s)" and same: "same_handle ?hd ?h"
    using mem_tx.exec_op_inv [OF r0, of "''d''"] by simp_all
  have dirty: "cm_pending (chunks ?h) \<noteq> [] \<or> metadata_dirty ?h" by (rule disjI2) code_simp
  have id: "fh_file_id ?h = 1" using same by (simp only: same_handle_def small_handle_simps)
  have cat: "catalog (mem_view ''d'' ?s) ''f'' = Some (fh_file_id ?h)" unfolding id by simp
  have wf: "db_wf proto_codec (mem_view ''d'' ?s)" by simp
  have fs: "\<not> file_system.closed (small_fs (Some ''d''))" "writer_of (small_fs (Some ''d'')) (database_group ''f'') = Some ''d''"
    "\<not> fl_truncate_existing flags_read_only" by (simp_all add: flags_read_only_def)
  note t = synced_file_reopens [OF mem_tx.slate_tx_axioms proto.metadata_codec_axioms wf cat inv r1 dirty fs r2]
  show ?thesis by (intro exI conjI) (rule r0, rule r1, rule r2, use t in blast)
qed

end
